(* ===== verification/Py_Prelude.thy ===== *)
theory Py_Prelude
  imports Complex_Main "HOL-Library.AList" "HOL-Library.Sublist"
begin

text \<open>
  What the components share: the model's view of the Python values the service handles
  (insertion-ordered dictionaries, strings, optional strings and their truth value, JSON-like
  values), the fallible state computations the asynchronous code is translated to, the locales
  for the contracts several components have in common, and the collections of rewrite rules.

  Dictionaries are association lists in insertion order: \<^const>\<open>AList.update\<close> overwrites a key
  in place and appends a new one, as \<open>d[k] = v\<close> does, \<^const>\<open>AList.delete\<close> is \<open>d.pop(k, None)\<close>
  and \<^const>\<open>map_of\<close> is \<open>d.get(k)\<close>.  Times are seconds as rational numbers.
\<close>

named_theorems py_simps \<open>rewrite rules that evaluate the Python helpers\<close>
named_theorems pm_simps \<open>rewrite rules that run fallible state computations\<close>

section \<open>Dictionaries\<close>

type_synonym ('k, 'v) dict = "('k \<times> 'v) list"
type_synonym seconds = rat

definition dict_wf :: "('k, 'v) dict \<Rightarrow> bool" where
  "dict_wf d \<longleftrightarrow> distinct (map fst d)"

abbreviation dict_get :: "('k, 'v) dict \<Rightarrow> 'k \<Rightarrow> 'v option" where
  "dict_get \<equiv> map_of"

abbreviation dict_set :: "'k \<Rightarrow> 'v \<Rightarrow> ('k, 'v) dict \<Rightarrow> ('k, 'v) dict" where
  "dict_set \<equiv> AList.update"

abbreviation dict_pop :: "'k \<Rightarrow> ('k, 'v) dict \<Rightarrow> ('k, 'v) dict" where
  "dict_pop \<equiv> AList.delete"

definition dict_get_or :: "('k, 'v) dict \<Rightarrow> 'k \<Rightarrow> 'v \<Rightarrow> 'v" where
  "dict_get_or d k v = (case dict_get d k of None \<Rightarrow> v | Some x \<Rightarrow> x)"

lemma dict_wf_Nil [simp]: "dict_wf []"
  by (simp add: dict_wf_def)

lemma dict_wf_set [simp, intro]: "dict_wf d \<Longrightarrow> dict_wf (dict_set k v d)"
  by (simp add: dict_wf_def distinct_update)

lemma dict_wf_pop [simp, intro]: "dict_wf d \<Longrightarrow> dict_wf (dict_pop k d)"
  by (simp add: dict_wf_def distinct_delete)

lemma dict_get_set [simp]: "dict_get (dict_set k v d) k' = (if k' = k then Some v else dict_get d k')"
  by (simp add: update_conv')

lemma dict_get_pop [simp]: "dict_get (dict_pop k d) k' = (if k' = k then None else dict_get d k')"
  by (simp add: delete_conv')

lemma dict_get_in_set: "dict_wf d \<Longrightarrow> (k, v) \<in> set d \<longleftrightarrow> dict_get d k = Some v"
  by (simp add: dict_wf_def)

lemma dict_get_None_iff: "dict_get d k = None \<longleftrightarrow> k \<notin> fst ` set d"
  by (simp add: map_of_eq_None_iff)

lemma dict_set_fresh: "dict_get d k = None \<Longrightarrow> dict_set k v d = d @ [(k, v)]"
  by (induction d) (auto split: if_splits)

lemma dict_keys_set:
  "map fst (dict_set k v d) = (if dict_get d k = None then map fst d @ [k] else map fst d)"
  by (induction d) auto

lemma length_dict_set: "length (dict_set k v d) = (if dict_get d k = None then Suc (length d) else length d)"
  by (induction d) auto

lemma length_dict_pop_le: "length (dict_pop k d) \<le> length d"
  by (simp add: AList.delete_eq)

lemma length_dict_pop:
  "dict_wf d \<Longrightarrow> dict_get d k \<noteq> None \<Longrightarrow> Suc (length (dict_pop k d)) = length d"
proof (induction d)
  case (Cons p d)
  show ?case
  proof (cases "fst p = k")
    case True
    with Cons.prems have "k \<notin> fst ` set d" by (auto simp: dict_wf_def)
    then have "dict_pop k d = d" by (simp add: delete_id)
    with True show ?thesis by (cases p) simp
  next
    case False
    with Cons show ?thesis by (cases p) (auto simp: dict_wf_def)
  qed
qed simp

text \<open>
  The contract of a keyed store, as the registries of the service rely on it: what a lookup
  returns after an insertion and after a removal, and that both keep the store well formed.
\<close>

locale keyed_store =
  fixes get :: "'m \<Rightarrow> 'k \<Rightarrow> 'v option"
    and put :: "'k \<Rightarrow> 'v \<Rightarrow> 'm \<Rightarrow> 'm"
    and del :: "'k \<Rightarrow> 'm \<Rightarrow> 'm"
    and wf :: "'m \<Rightarrow> bool"
  assumes get_put: "wf m \<Longrightarrow> get (put k v m) k' = (if k' = k then Some v else get m k')"
    and get_del: "wf m \<Longrightarrow> get (del k m) k' = (if k' = k then None else get m k')"
    and wf_put: "wf m \<Longrightarrow> wf (put k v m)"
    and wf_del: "wf m \<Longrightarrow> wf (del k m)"
begin

lemma put_then_del: "wf m \<Longrightarrow> get (del k (put k v m)) k' = (if k' = k then None else get m k')"
  by (simp add: get_del get_put wf_put)

lemma put_frame: "wf m \<Longrightarrow> k' \<noteq> k \<Longrightarrow> get (put k v m) k' = get m k'"
  by (simp add: get_put)

lemma fold_del_get:
  "wf m \<Longrightarrow> wf (fold del ks m) \<and> get (fold del ks m) k = (if k \<in> set ks then None else get m k)"
  by (induction ks arbitrary: m) (auto simp: get_del wf_del)

end

interpretation py_dict: keyed_store dict_get dict_set dict_pop dict_wf
  by unfold_locales auto

section \<open>Strings\<close>

definition str_truthy :: "string option \<Rightarrow> bool" where
  "str_truthy s \<longleftrightarrow> (case s of None \<Rightarrow> False | Some t \<Rightarrow> t \<noteq> [])"

definition str_or :: "string option \<Rightarrow> string option \<Rightarrow> string option" where
  "str_or a b = (if str_truthy a then a else b)"

lemma str_truthy_simps [simp, py_simps]:
  "str_truthy None = False" "str_truthy (Some []) = False" "str_truthy (Some (c # cs)) = True"
  by (simp_all add: str_truthy_def)

lemma str_truthyE: "str_truthy s \<Longrightarrow> (\<And>t. s = Some t \<Longrightarrow> t \<noteq> [] \<Longrightarrow> P) \<Longrightarrow> P"
  by (cases s) (auto simp: str_truthy_def)

definition startswith :: "string \<Rightarrow> string \<Rightarrow> bool" where
  "startswith s p \<longleftrightarrow> take (length p) s = p"

definition endswith :: "string \<Rightarrow> string \<Rightarrow> bool" where
  "endswith s p \<longleftrightarrow> startswith (rev s) (rev p)"

fun str_contains :: "string \<Rightarrow> string \<Rightarrow> bool" where
  "str_contains s [] = (s = [])"
| "str_contains s (c # cs) = (startswith (c # cs) s \<or> str_contains s cs)"

fun split_char :: "char \<Rightarrow> string \<Rightarrow> string list" where
  "split_char d [] = [[]]"
| "split_char d (c # cs) =
     (if c = d then [] # split_char d cs
      else (case split_char d cs of [] \<Rightarrow> [[c]] | w # ws \<Rightarrow> (c # w) # ws))"

fun join_str :: "string \<Rightarrow> string list \<Rightarrow> string" where
  "join_str sep [] = []"
| "join_str sep [w] = w"
| "join_str sep (w # v # ws) = w @ sep @ join_str sep (v # ws)"

text \<open>\<open>s.split(marker, 1)\<close>: the text before and after the first occurrence, if there is one.\<close>

fun split_once :: "string \<Rightarrow> string \<Rightarrow> (string \<times> string) option" where
  "split_once m [] = (if m = [] then Some ([], []) else None)"
| "split_once m (c # cs) =
     (if startswith (c # cs) m then Some ([], drop (length m) (c # cs))
      else map_option (\<lambda>(a, b). (c # a, b)) (split_once m cs))"

definition replace_char :: "char \<Rightarrow> char \<Rightarrow> string \<Rightarrow> string" where
  "replace_char a b = map (\<lambda>c. if c = a then b else c)"

definition is_space :: "char \<Rightarrow> bool" where
  "is_space c \<longleftrightarrow> c \<in> {CHR '' '', CHR 0x09, CHR 0x0A, CHR 0x0B, CHR 0x0C, CHR 0x0D,
     CHR 0x1C, CHR 0x1D, CHR 0x1E, CHR 0x1F, CHR 0x85, CHR 0xA0}"

definition str_strip :: "string \<Rightarrow> string" where
  "str_strip s = rev (dropWhile is_space (rev (dropWhile is_space s)))"

definition char_lower :: "char \<Rightarrow> char" where
  "char_lower c =
     (let n = (of_char c :: nat) in if 65 \<le> n \<and> n \<le> 90 \<or> 192 \<le> n \<and> n \<le> 222 \<and> n \<noteq> 215 then char_of (n + 32) else c)"

definition str_lower :: "string \<Rightarrow> string" where
  "str_lower = map char_lower"

lemma startswith_append [simp]: "startswith (p @ s) p"
  by (simp add: startswith_def)

lemma startswith_iff: "startswith s p \<longleftrightarrow> (\<exists>t. s = p @ t)"
  unfolding startswith_def by (metis append_eq_conv_conj append_take_drop_id)

lemma str_contains_iff: "str_contains p s \<longleftrightarrow> (\<exists>a b. s = a @ p @ b)"
proof (induction s)
  case (Cons c s)
  show ?case
  proof
    assume "str_contains p (c # s)"
    then consider "startswith (c # s) p" | "str_contains p s" by auto
    then show "\<exists>a b. c # s = a @ p @ b"
    proof cases
      case 1
      then show ?thesis by (metis append_Nil startswith_iff)
    next
      case 2
      with Cons.IH show ?thesis by (metis append_Cons)
    qed
  next
    assume "\<exists>a b. c # s = a @ p @ b"
    then obtain a b where ab: "c # s = a @ p @ b" by blast
    then show "str_contains p (c # s)"
    proof (cases a)
      case Nil
      with ab have "startswith (c # s) p" by (simp add: startswith_iff)
      then show ?thesis by simp
    next
      case (Cons x a')
      with ab Cons.IH show ?thesis by auto
    qed
  qed
qed auto

lemma split_char_nonempty [simp]: "split_char d s \<noteq> []"
  by (induction s) (auto split: list.splits)

lemma join_split_char: "join_str [d] (split_char d s) = s"
proof (induction s)
  case (Cons c s)
  obtain w ws where s: "split_char d s = w # ws"
    by (cases "split_char d s") auto
  with Cons show ?case by (cases ws) auto
qed simp

lemma split_char_no_sep: "w \<in> set (split_char d s) \<Longrightarrow> d \<notin> set w"
proof (induction s arbitrary: w)
  case (Cons c s)
  obtain v vs where s: "split_char d s = v # vs"
    by (cases "split_char d s") auto
  with Cons show ?case by (auto split: if_splits)
qed simp

lemma split_char_append:
  "d \<notin> set a \<Longrightarrow> split_char d (a @ d # b) = a # split_char d b"
  by (induction a) auto

lemma split_char_id: "d \<notin> set a \<Longrightarrow> split_char d a = [a]"
  by (induction a) auto

lemma split_join_char:
  "ws \<noteq> [] \<Longrightarrow> (\<And>w. w \<in> set ws \<Longrightarrow> d \<notin> set w) \<Longrightarrow> split_char d (join_str [d] ws) = ws"
proof (induction ws)
  case (Cons w ws)
  show ?case
  proof (cases ws)
    case Nil
    with Cons.prems show ?thesis by (simp add: split_char_id)
  next
    case (Cons v vs)
    with Cons.IH Cons.prems show ?thesis by (simp add: split_char_append)
  qed
qed simp

lemma split_once_Some: "split_once m s = Some (a, b) \<Longrightarrow> s = a @ m @ b"
proof (induction s arbitrary: a b)
  case (Cons c s)
  show ?case
  proof (cases "startswith (c # s) m")
    case True
    with Cons.prems show ?thesis by (auto simp: startswith_iff)
  next
    case False
    with Cons show ?thesis by auto
  qed
qed (auto split: if_splits)

lemma split_once_None: "split_once m s = None \<longleftrightarrow> \<not> str_contains m s"
  by (induction s) auto

section \<open>Fallible state computations\<close>

text \<open>
  An asynchronous method is a function from the state it reads and writes to either the
  exception it raises or the value it returns, together with the new state.  \<open>pm_bind\<close> is
  sequencing (an exception skips the rest), \<open>pm_catch\<close> is \<open>try: .. except\<close> and \<open>pm_finally\<close>
  is \<open>try: .. finally\<close> with a clean-up that does not raise.
\<close>

type_synonym ('s, 'e, 'a) pm = "'s \<Rightarrow> ('e + 'a) \<times> 's"

definition pm_return :: "'a \<Rightarrow> ('s, 'e, 'a) pm" where
  "pm_return x s = (Inr x, s)"

definition pm_raise :: "'e \<Rightarrow> ('s, 'e, 'a) pm" where
  "pm_raise e s = (Inl e, s)"

definition pm_bind :: "('s, 'e, 'a) pm \<Rightarrow> ('a \<Rightarrow> ('s, 'e, 'b) pm) \<Rightarrow> ('s, 'e, 'b) pm" where
  "pm_bind m f s = (case m s of (Inl e, s') \<Rightarrow> (Inl e, s') | (Inr x, s') \<Rightarrow> f x s')"

definition pm_then :: "('s, 'e, 'a) pm \<Rightarrow> ('s, 'e, 'b) pm \<Rightarrow> ('s, 'e, 'b) pm" where
  "pm_then m k s = (case m s of (Inl e, s') \<Rightarrow> (Inl e, s') | (Inr x, s') \<Rightarrow> k s')"

definition pm_catch :: "('s, 'e, 'a) pm \<Rightarrow> ('e \<Rightarrow> ('s, 'e, 'a) pm) \<Rightarrow> ('s, 'e, 'a) pm" where
  "pm_catch m h s = (case m s of (Inl e, s') \<Rightarrow> h e s' | (Inr x, s') \<Rightarrow> (Inr x, s'))"

definition pm_finally :: "('s, 'e, 'a) pm \<Rightarrow> ('s \<Rightarrow> 's) \<Rightarrow> ('s, 'e, 'a) pm" where
  "pm_finally m f s = (case m s of (r, s') \<Rightarrow> (r, f s'))"

definition pm_modify :: "('s \<Rightarrow> 's) \<Rightarrow> ('s, 'e, unit) pm" where
  "pm_modify f s = (Inr (), f s)"

definition pm_get :: "('s \<Rightarrow> 'a) \<Rightarrow> ('s, 'e, 'a) pm" where
  "pm_get f s = (Inr (f s), s)"

definition pm_lift :: "('e + 'a) \<Rightarrow> ('s, 'e, 'a) pm" where
  "pm_lift r s = (r, s)"

lemmas pm_defs = pm_return_def pm_raise_def pm_bind_def pm_then_def pm_catch_def pm_finally_def
  pm_modify_def pm_get_def pm_lift_def

declare pm_defs [pm_simps]

lemma pm_bind_InrE:
  assumes "pm_bind m k s = (Inr y, s'')"
  obtains x s' where "m s = (Inr x, s')" "k x s' = (Inr y, s'')"
  using assms by (auto simp: pm_bind_def split: prod.splits sum.splits)

lemma pm_then_InrE:
  assumes "pm_then m k s = (Inr y, s'')"
  obtains x s' where "m s = (Inr x, s')" "k s' = (Inr y, s'')"
  using assms by (auto simp: pm_then_def split: prod.splits sum.splits)

text \<open>
  Two properties of computations that compose: \<open>keeps f m\<close> says that running \<open>m\<close> leaves the part \<open>f\<close> of
  the state as it was, \<open>grows f c m\<close> that it increases the measure \<open>f\<close> by at most \<open>c\<close>.
\<close>

named_theorems keeps_intros \<open>introduction rules for the part of the state a computation keeps\<close>
named_theorems grows_intros \<open>introduction rules for the growth of a measure\<close>

definition keeps :: "('s \<Rightarrow> 'x) \<Rightarrow> ('s, 'e, 'a) pm \<Rightarrow> bool" where
  "keeps f m \<longleftrightarrow> (\<forall>s. f (snd (m s)) = f s)"

definition grows :: "('s \<Rightarrow> nat) \<Rightarrow> nat \<Rightarrow> ('s, 'e, 'a) pm \<Rightarrow> bool" where
  "grows f c m \<longleftrightarrow> (\<forall>s. f (snd (m s)) \<le> f s + c)"

lemma keeps_at: "keeps f m \<Longrightarrow> f (snd (m s)) = f s"
  by (simp add: keeps_def)

lemma keeps_run: "keeps f m \<Longrightarrow> m s = (r, s') \<Longrightarrow> f s' = f s"
  unfolding keeps_def by (metis snd_conv)

lemma grows_run: "grows f c m \<Longrightarrow> m s = (r, s') \<Longrightarrow> f s' \<le> f s + c"
  unfolding grows_def by (metis snd_conv)

lemma keeps_pure [keeps_intros]: "keeps f (pm_return x)" "keeps f (pm_raise e)" "keeps f (pm_lift r)" "keeps f (pm_get g)"
  by (simp_all add: keeps_def pm_defs)

lemma keeps_modify: "(\<And>s. f (g s) = f s) \<Longrightarrow> keeps f (pm_modify g)"
  by (simp add: keeps_def pm_modify_def)

lemma keeps_bind [keeps_intros]: "keeps f m \<Longrightarrow> (\<And>x. keeps f (k x)) \<Longrightarrow> keeps f (pm_bind m k)"
  unfolding keeps_def pm_bind_def by (simp add: case_prod_beta split: sum.split)

lemma keeps_then [keeps_intros]: "keeps f m \<Longrightarrow> keeps f k \<Longrightarrow> keeps f (pm_then m k)"
  unfolding keeps_def pm_then_def by (simp add: case_prod_beta split: sum.split)

lemma keeps_catch [keeps_intros]: "keeps f m \<Longrightarrow> (\<And>e. keeps f (h e)) \<Longrightarrow> keeps f (pm_catch m h)"
  unfolding keeps_def pm_catch_def by (simp add: case_prod_beta split: sum.split)

lemma keeps_if [keeps_intros]: "keeps f a \<Longrightarrow> keeps f b \<Longrightarrow> keeps f (if c then a else b)"
  by simp

lemma keeps_cases:
  "keeps f a \<Longrightarrow> (\<And>x. keeps f (b x)) \<Longrightarrow> keeps f (case y of None \<Rightarrow> a | Some x \<Rightarrow> b x)"
  "(\<And>x z. keeps f (c x z)) \<Longrightarrow> keeps f (case p of (x, z) \<Rightarrow> c x z)"
  by (simp_all split: option.split prod.split)

text \<open>\<open>returns P m\<close> says that every value \<open>m\<close> returns satisfies \<open>P\<close>.\<close>

definition returns :: "('a \<Rightarrow> bool) \<Rightarrow> ('s, 'e, 'a) pm \<Rightarrow> bool" where
  "returns P m \<longleftrightarrow> (\<forall>s x s'. m s = (Inr x, s') \<longrightarrow> P x)"

lemma returns_pure: "P x \<Longrightarrow> returns P (pm_return x)" "returns P (pm_raise e)" "(\<And>x. r = Inr x \<Longrightarrow> P x) \<Longrightarrow> returns P (pm_lift r)"
  by (simp_all add: returns_def pm_defs)

lemma returns_run: "returns P m \<Longrightarrow> m s = (Inr x, s') \<Longrightarrow> P x"
  by (auto simp: returns_def)

lemma returns_bind:
  assumes "returns Q m" "\<And>x. Q x \<Longrightarrow> returns P (k x)"
  shows "returns P (pm_bind m k)"
  unfolding returns_def [of P "pm_bind m k"] pm_bind_def
  using assms by (auto split: prod.splits sum.splits dest!: returns_run [OF assms(1)]) (metis returns_run)

lemma returns_catch: "returns P m \<Longrightarrow> (\<And>e. returns P (h e)) \<Longrightarrow> returns P (pm_catch m h)"
  unfolding returns_def pm_catch_def by (auto split: prod.splits sum.splits)

lemma returns_if: "(c \<Longrightarrow> returns P a) \<Longrightarrow> (\<not> c \<Longrightarrow> returns P b) \<Longrightarrow> returns P (if c then a else b)"
  by simp

lemma keeps_bind_returns:
  assumes "keeps f m" "returns P m" "\<And>x. P x \<Longrightarrow> keeps f (k x)"
  shows "keeps f (pm_bind m k)"
proof -
  have "f (snd (pm_bind m k s)) = f s" for s
  proof (cases "m s")
    case (Pair r s')
    then show ?thesis
      using keeps_run [OF assms(1) Pair] keeps_at [OF assms(3)] returns_run [OF assms(2)] unfolding pm_bind_def
      by (cases r) auto
  qed
  then show ?thesis by (simp add: keeps_def)
qed

lemma keeps_finally: "keeps f m \<Longrightarrow> (\<And>s. f (g s) = f s) \<Longrightarrow> keeps f (pm_finally m g)"
  by (simp add: keeps_def pm_finally_def case_prod_beta)

lemma grows_pure [grows_intros]: "grows f 0 (pm_return x)" "grows f 0 (pm_raise e)" "grows f 0 (pm_lift r)"
  by (simp_all add: grows_def pm_defs)

lemma grows_keeps: "keeps f m \<Longrightarrow> grows f 0 m"
  by (simp add: keeps_def grows_def)

lemma grows_weaken: "grows f a m \<Longrightarrow> a \<le> b \<Longrightarrow> grows f b m"
  unfolding grows_def by (meson add_left_mono le_trans)

lemma grows_two:
  assumes "grows f a m" "m s = (r, s')" "f s'' \<le> f s' + b"
  shows "f s'' \<le> f s + (a + b)"
  using grows_run [OF assms(1,2)] assms(3) by simp

lemma grows_bind: "grows f a m \<Longrightarrow> (\<And>x. grows f b (k x)) \<Longrightarrow> grows f (a + b) (pm_bind m k)"
  unfolding grows_def [of f "a + b"] pm_bind_def
  by (auto split: prod.split sum.split intro!: grows_two [of f a m]) (simp add: grows_def)

lemma grows_then: "grows f a m \<Longrightarrow> grows f b k \<Longrightarrow> grows f (a + b) (pm_then m k)"
  using grows_bind [of f a m b "\<lambda>_. k"] by (simp add: pm_bind_def [abs_def] pm_then_def [abs_def])

lemma grows_catch: "grows f a m \<Longrightarrow> (\<And>e. grows f b (h e)) \<Longrightarrow> grows f (a + b) (pm_catch m h)"
  unfolding grows_def [of f "a + b"] pm_catch_def
  by (auto split: prod.split sum.split intro!: grows_two [of f a m]) (simp add: grows_def)

section \<open>Invariants of operations and of step relations\<close>

text \<open>
  A component whose operations are a step function over a request type keeps an invariant over
  every sequence of requests once each request keeps it.
\<close>

locale op_invariant =
  fixes step :: "'s \<Rightarrow> 'o \<Rightarrow> 's"
    and inv :: "'s \<Rightarrow> bool"
  assumes step_inv: "inv s \<Longrightarrow> inv (step s x)"
begin

lemma run_inv: "inv s \<Longrightarrow> inv (foldl step s xs)"
  by (induction xs arbitrary: s) (auto simp: step_inv)

end

inductive reachable_by :: "('s \<Rightarrow> bool) \<Rightarrow> ('s \<Rightarrow> 's \<Rightarrow> bool) \<Rightarrow> 's \<Rightarrow> bool" for init step where
  reach_init: "init s \<Longrightarrow> reachable_by init step s"
| reach_step: "reachable_by init step s \<Longrightarrow> step s t \<Longrightarrow> reachable_by init step t"

locale step_invariant =
  fixes init :: "'s \<Rightarrow> bool"
    and step :: "'s \<Rightarrow> 's \<Rightarrow> bool"
    and inv :: "'s \<Rightarrow> bool"
  assumes inv_init: "init s \<Longrightarrow> inv s"
    and inv_step: "step s t \<Longrightarrow> inv s \<Longrightarrow> inv t"
begin

lemma reachable_inv: "reachable_by init step s \<Longrightarrow> inv s"
  by (induction rule: reachable_by.induct) (auto intro: inv_init inv_step)

end

section \<open>Codecs\<close>

text \<open>What a client of a serialiser relies on: a value it can represent is read back.\<close>

locale text_codec =
  fixes enc :: "'v \<Rightarrow> string"
    and dec :: "string \<Rightarrow> 'v option"
    and ok :: "'v \<Rightarrow> bool"
  assumes dec_enc: "ok v \<Longrightarrow> dec (enc v) = Some v"
begin

lemma enc_inj: "ok v \<Longrightarrow> ok w \<Longrightarrow> enc v = enc w \<Longrightarrow> v = w"
  by (metis dec_enc option.inject)

lemma map_dec_enc: "(\<And>v. v \<in> set vs \<Longrightarrow> ok v) \<Longrightarrow> map (dec \<circ> enc) vs = map Some vs"
  using dec_enc by auto

end

end
