(* ===== verification/Py_Json.thy ===== *)
theory Py_Json
  imports Py_Prelude
begin

text \<open>
  The values the service passes around (tool arguments, tool results, cached payloads, events)
  and the part of Python's \<open>json\<close> module it serialises them with: \<open>json.dumps\<close> with its default
  separators and ASCII escapes, and \<open>json.loads\<close>.  A character is a code point below 256; an
  escape above that has no counterpart here and is read as malformed text.  A float is kept as
  the literal that Python prints for it.  \<open>loads\<close> is a recursive descent with fuel; twice the
  length of the text is always enough (\<open>loads_dumps\<close>).  Python's \<open>str\<close> and \<open>repr\<close> of such a value
  are here as well.
\<close>

datatype json =
    JNull
  | JBool bool
  | JInt int
  | JFloat string
  | JStr string
  | JList "json list"
  | JObj "(string \<times> json) list"

type_synonym jdict = "(string, json) dict"

text \<open>Python's truth value of such a value.\<close>

definition truthy :: "json \<Rightarrow> bool" where
  "truthy v = (case v of JNull \<Rightarrow> False | JBool b \<Rightarrow> b | JInt i \<Rightarrow> i \<noteq> 0
     | JFloat l \<Rightarrow> l \<notin> {''0.0'', ''-0.0''} | JStr s \<Rightarrow> s \<noteq> [] | JList vs \<Rightarrow> vs \<noteq> []
     | JObj d \<Rightarrow> d \<noteq> [])"

definition jget :: "jdict \<Rightarrow> string \<Rightarrow> json" where
  "jget d k = dict_get_or d k JNull"

fun is_obj :: "json \<Rightarrow> bool" where
  "is_obj (JObj d) = True"
| "is_obj _ = False"

fun is_str :: "json \<Rightarrow> bool" where
  "is_str (JStr s) = True"
| "is_str _ = False"

section \<open>Printing\<close>

definition digit_char :: "nat \<Rightarrow> char" where
  "digit_char d = char_of (48 + d)"

fun nat_str :: "nat \<Rightarrow> string" where
  "nat_str n = (if n < 10 then [digit_char n] else nat_str (n div 10) @ [digit_char (n mod 10)])"

declare nat_str.simps [simp del]

definition int_str :: "int \<Rightarrow> string" where
  "int_str i = (if i < 0 then CHR ''-'' # nat_str (nat (- i)) else nat_str (nat i))"

definition hex_char :: "nat \<Rightarrow> char" where
  "hex_char d = (if d < 10 then char_of (48 + d) else char_of (87 + d))"

definition esc_char :: "char \<Rightarrow> string" where
  "esc_char c =
     (let n = (of_char c :: nat) in
      if c = CHR 0x22 then [CHR 0x5C, CHR 0x22]
      else if c = CHR 0x5C then [CHR 0x5C, CHR 0x5C]
      else if n = 10 then [CHR 0x5C, CHR ''n'']
      else if n = 13 then [CHR 0x5C, CHR ''r'']
      else if n = 9 then [CHR 0x5C, CHR ''t'']
      else if n = 12 then [CHR 0x5C, CHR ''f'']
      else if n = 8 then [CHR 0x5C, CHR ''b'']
      else if n < 32 \<or> 126 < n
        then [CHR 0x5C, CHR ''u'', CHR ''0'', CHR ''0'', hex_char (n div 16), hex_char (n mod 16)]
      else [c])"

definition dumps_str :: "string \<Rightarrow> string" where
  "dumps_str s = CHR 0x22 # concat (map esc_char s) @ [CHR 0x22]"

fun dumps :: "json \<Rightarrow> string"
  and dumps_list :: "json list \<Rightarrow> string"
  and dumps_members :: "(string \<times> json) list \<Rightarrow> string" where
  "dumps JNull = ''null''"
| "dumps (JBool b) = (if b then ''true'' else ''false'')"
| "dumps (JInt i) = int_str i"
| "dumps (JFloat l) = l"
| "dumps (JStr s) = dumps_str s"
| "dumps (JList vs) = CHR ''['' # dumps_list vs @ '']''"
| "dumps (JObj d) = CHR ''{'' # dumps_members d @ ''}''"
| "dumps_list [] = []"
| "dumps_list [v] = dumps v"
| "dumps_list (v # w # vs) = dumps v @ '', '' @ dumps_list (w # vs)"
| "dumps_members [] = []"
| "dumps_members [(k, v)] = dumps_str k @ '': '' @ dumps v"
| "dumps_members ((k, v) # m # ms) = dumps_str k @ '': '' @ dumps v @ '', '' @ dumps_members (m # ms)"

section \<open>Parsing\<close>

definition is_ws :: "char \<Rightarrow> bool" where
  "is_ws c \<longleftrightarrow> c = CHR '' '' \<or> c = CHR 0x09 \<or> c = CHR 0x0A \<or> c = CHR 0x0D"

definition skip_ws :: "string \<Rightarrow> string" where
  "skip_ws = dropWhile is_ws"

definition is_digit :: "char \<Rightarrow> bool" where
  "is_digit c \<longleftrightarrow> 48 \<le> (of_char c :: nat) \<and> (of_char c :: nat) \<le> 57"

definition digit_val :: "char \<Rightarrow> nat" where
  "digit_val c = (of_char c :: nat) - 48"

definition hex_val :: "char \<Rightarrow> nat option" where
  "hex_val c =
     (let n = (of_char c :: nat) in
      if 48 \<le> n \<and> n \<le> 57 then Some (n - 48)
      else if 97 \<le> n \<and> n \<le> 102 then Some (n - 87)
      else if 65 \<le> n \<and> n \<le> 70 then Some (n - 55) else None)"

definition hex4 :: "char \<Rightarrow> char \<Rightarrow> char \<Rightarrow> char \<Rightarrow> char option" where
  "hex4 a b c d =
     (case (hex_val a, hex_val b, hex_val c, hex_val d) of
        (Some w, Some x, Some y, Some z) \<Rightarrow>
          (if w = 0 \<and> x = 0 then Some (char_of (16 * y + z)) else None)
      | _ \<Rightarrow> None)"

definition simple_esc :: "char \<Rightarrow> char option" where
  "simple_esc c =
     (if c = CHR 0x22 then Some (CHR 0x22) else if c = CHR 0x5C then Some (CHR 0x5C)
      else if c = CHR ''/'' then Some (CHR ''/'') else if c = CHR ''n'' then Some (CHR 0x0A)
      else if c = CHR ''r'' then Some (CHR 0x0D) else if c = CHR ''t'' then Some (CHR 0x09)
      else if c = CHR ''f'' then Some (CHR 0x0C) else if c = CHR ''b'' then Some (CHR 0x08)
      else None)"

text \<open>The text of a string literal after its opening quote.\<close>

fun parse_str :: "string \<Rightarrow> (string \<times> string) option" where
  "parse_str [] = None"
| "parse_str (c # cs) =
     (if c = CHR 0x22 then Some ([], cs)
      else if c = CHR 0x5C then
        (case cs of
           [] \<Rightarrow> None
         | e # r \<Rightarrow>
             if e = CHR ''u'' then
               (case r of h1 # h2 # h3 # h4 # r' \<Rightarrow>
                  (case hex4 h1 h2 h3 h4 of None \<Rightarrow> None
                   | Some x \<Rightarrow> map_option (\<lambda>(t, q). (x # t, q)) (parse_str r'))
                | _ \<Rightarrow> None)
             else (case simple_esc e of None \<Rightarrow> None
                   | Some x \<Rightarrow> map_option (\<lambda>(t, q). (x # t, q)) (parse_str r)))
      else if (of_char c :: nat) < 32 then None
      else map_option (\<lambda>(t, q). (c # t, q)) (parse_str cs))"

definition num_char :: "char \<Rightarrow> bool" where
  "num_char c \<longleftrightarrow> is_digit c \<or> c \<in> set ''+-.eE''"

definition nat_tok :: "string \<Rightarrow> bool" where
  "nat_tok t \<longleftrightarrow> t \<noteq> [] \<and> list_all is_digit t \<and> (hd t = CHR ''0'' \<longrightarrow> t = ''0'')"

definition int_tok :: "string \<Rightarrow> bool" where
  "int_tok t \<longleftrightarrow> (case t of [] \<Rightarrow> False | c # cs \<Rightarrow> if c = CHR ''-'' then nat_tok cs else nat_tok t)"

definition tok_nat :: "string \<Rightarrow> nat" where
  "tok_nat = foldl (\<lambda>a c. 10 * a + digit_val c) 0"

definition tok_int :: "string \<Rightarrow> int" where
  "tok_int t = (case t of [] \<Rightarrow> 0 | c # cs \<Rightarrow>
     if c = CHR ''-'' then - int (tok_nat cs) else int (tok_nat t))"

definition exp_tok :: "string \<Rightarrow> bool" where
  "exp_tok t \<longleftrightarrow> (case t of [] \<Rightarrow> False | c # cs \<Rightarrow>
     if c = CHR ''+'' \<or> c = CHR ''-'' then cs \<noteq> [] \<and> list_all is_digit cs else list_all is_digit t)"

text \<open>An integer part, then a fraction, an exponent or both.\<close>

definition float_tok :: "string \<Rightarrow> bool" where
  "float_tok t \<longleftrightarrow>
     (let ip = takeWhile (\<lambda>c. is_digit c \<or> c = CHR ''-'') t; r = drop (length ip) t in
      int_tok ip \<and>
      (case r of [] \<Rightarrow> False
       | c # cs \<Rightarrow>
           if c = CHR ''.'' then
             (let fp = takeWhile is_digit cs; e = drop (length fp) cs in
              fp \<noteq> [] \<and> (e = [] \<or> (hd e \<in> set ''eE'' \<and> exp_tok (tl e))))
           else c \<in> set ''eE'' \<and> exp_tok cs))"

definition parse_num :: "string \<Rightarrow> (json \<times> string) option" where
  "parse_num s =
     (let t = takeWhile num_char s; r = dropWhile num_char s in
      if int_tok t then Some (JInt (tok_int t), r)
      else if float_tok t then Some (JFloat t, r) else None)"

definition lit :: "string \<Rightarrow> json \<Rightarrow> string \<Rightarrow> (json \<times> string) option" where
  "lit w v s = (if startswith s w then Some (v, drop (length w) s) else None)"

definition dict_of_pairs :: "(string \<times> json) list \<Rightarrow> jdict" where
  "dict_of_pairs ps = foldl (\<lambda>d (k, v). dict_set k v d) [] ps"

fun parse_val :: "nat \<Rightarrow> string \<Rightarrow> (json \<times> string) option"
  and parse_elems :: "nat \<Rightarrow> string \<Rightarrow> (json list \<times> string) option"
  and parse_members :: "nat \<Rightarrow> string \<Rightarrow> ((string \<times> json) list \<times> string) option" where
  "parse_val 0 s = None"
| "parse_val (Suc n) s =
     (case s of
        [] \<Rightarrow> None
      | c # cs \<Rightarrow>
          if c = CHR 0x22 then map_option (\<lambda>(t, r). (JStr t, r)) (parse_str cs)
          else if c = CHR ''{'' then
            (case skip_ws cs of
               [] \<Rightarrow> None
             | x # r \<Rightarrow> if x = CHR ''}'' then Some (JObj [], r)
                 else map_option (\<lambda>(ms, q). (JObj (dict_of_pairs ms), q)) (parse_members n (x # r)))
          else if c = CHR ''['' then
            (case skip_ws cs of
               [] \<Rightarrow> None
             | x # r \<Rightarrow> if x = CHR '']'' then Some (JList [], r)
                 else map_option (\<lambda>(vs, q). (JList vs, q)) (parse_elems n (x # r)))
          else if c = CHR ''n'' then lit ''null'' JNull s
          else if c = CHR ''t'' then lit ''true'' (JBool True) s
          else if c = CHR ''f'' then lit ''false'' (JBool False) s
          else if c = CHR ''N'' then lit ''NaN'' (JFloat ''NaN'') s
          else if c = CHR ''I'' then lit ''Infinity'' (JFloat ''Infinity'') s
          else if startswith s ''-Infinity'' then lit ''-Infinity'' (JFloat ''-Infinity'') s
          else parse_num s)"
| "parse_elems 0 s = None"
| "parse_elems (Suc n) s =
     (case parse_val n s of
        None \<Rightarrow> None
      | Some (v, r) \<Rightarrow>
          (case skip_ws r of
             [] \<Rightarrow> None
           | x # q \<Rightarrow>
               if x = CHR '']'' then Some ([v], q)
               else if x = CHR '','' then
                 map_option (\<lambda>(vs, p). (v # vs, p)) (parse_elems n (skip_ws q))
               else None))"
| "parse_members 0 s = None"
| "parse_members (Suc n) s =
     (case s of
        [] \<Rightarrow> None
      | c # cs \<Rightarrow>
          if c \<noteq> CHR 0x22 then None
          else
            (case parse_str cs of
               None \<Rightarrow> None
             | Some (k, r) \<Rightarrow>
                 (case skip_ws r of
                    [] \<Rightarrow> None
                  | y # r' \<Rightarrow>
                      if y \<noteq> CHR '':'' then None
                      else
                        (case parse_val n (skip_ws r') of
                           None \<Rightarrow> None
                         | Some (v, q) \<Rightarrow>
                             (case skip_ws q of
                                [] \<Rightarrow> None
                              | x # p \<Rightarrow>
                                  if x = CHR ''}'' then Some ([(k, v)], p)
                                  else if x = CHR '','' then
                                    map_option (\<lambda>(ms, t). ((k, v) # ms, t))
                                      (parse_members n (skip_ws p))
                                  else None)))))"

text \<open>\<open>json.loads\<close>: \<open>None\<close> is a \<open>JSONDecodeError\<close> (malformed text or trailing data).\<close>

definition loads :: "string \<Rightarrow> json option" where
  "loads s =
     (case parse_val (2 * length s + 1) (skip_ws s) of
        None \<Rightarrow> None
      | Some (v, r) \<Rightarrow> if skip_ws r = [] then Some v else None)"

section \<open>Reading back what was printed\<close>

lemma digit_char_props [simp]:
  assumes "d < 10"
  shows "is_digit (digit_char d)" and "digit_val (digit_char d) = d"
    and "digit_char d = CHR ''0'' \<longleftrightarrow> d = 0"
proof -
  have n: "(of_char (digit_char d) :: nat) = 48 + d"
    using assms by (simp add: digit_char_def)
  show "is_digit (digit_char d)" "digit_val (digit_char d) = d"
    using assms by (simp_all add: is_digit_def digit_val_def n)
  have "digit_char d = CHR ''0'' \<longleftrightarrow> (of_char (digit_char d) :: nat) = of_char (CHR ''0'')"
    by (rule of_char_eq_iff [symmetric])
  then show "digit_char d = CHR ''0'' \<longleftrightarrow> d = 0"
    by (simp add: n)
qed

lemma nat_str_nonempty [simp]: "nat_str n \<noteq> []"
  by (subst nat_str.simps) simp

lemma nat_str_digits: "list_all is_digit (nat_str n)"
proof (induction n rule: nat_str.induct)
  case (1 n)
  then show ?case by (cases "n < 10") (auto simp: nat_str.simps [of n])
qed

lemma hd_nat_str: "hd (nat_str n) = CHR ''0'' \<longleftrightarrow> n = 0"
proof (induction n rule: nat_str.induct)
  case (1 n)
  then show ?case by (cases "n < 10") (auto simp: nat_str.simps [of n] hd_append)
qed

lemma tok_nat_snoc: "tok_nat (t @ [c]) = 10 * tok_nat t + digit_val c"
  by (simp add: tok_nat_def)

lemma tok_nat_str: "tok_nat (nat_str n) = n"
proof (induction n rule: nat_str.induct)
  case (1 n)
  then show ?case
    by (cases "n < 10") (auto simp: nat_str.simps [of n] tok_nat_snoc, simp add: tok_nat_def)
qed

lemma nat_tok_str: "nat_tok (nat_str n)"
  using hd_nat_str [of n] nat_str_digits [of n]
  by (auto simp: nat_tok_def nat_str.simps [of 0] digit_char_def)

lemma minus_not_digit [simp]: "\<not> is_digit CHR ''-''"
  by (simp add: is_digit_def)

lemma nat_str_not_minus: "nat_str n = c # cs \<Longrightarrow> c \<noteq> CHR ''-''"
  using nat_str_digits [of n] by auto

lemma int_tok_str: "int_tok (int_str i)"
  by (auto simp: int_tok_def int_str_def nat_tok_str split: list.split dest: nat_str_not_minus)
    (use nat_tok_str in \<open>metis\<close>)+

lemma tok_int_str: "tok_int (int_str i) = i"
  by (auto simp: tok_int_def int_str_def tok_nat_str split: list.split dest: nat_str_not_minus)
    (use tok_nat_str in \<open>metis nat_0_le not_less\<close>)+

lemma int_str_num_chars: "list_all num_char (int_str i)"
proof -
  have "list_all num_char (nat_str n)" for n
    using nat_str_digits [of n] by (simp add: list_all_iff num_char_def)
  then show ?thesis by (simp add: int_str_def num_char_def)
qed

text \<open>A number is followed by text that cannot continue it.\<close>

definition num_stop :: "string \<Rightarrow> bool" where
  "num_stop r \<longleftrightarrow> (case r of [] \<Rightarrow> True | c # _ \<Rightarrow> \<not> num_char c)"

lemma takeWhile_tok:
  "list_all P t \<Longrightarrow> (case r of [] \<Rightarrow> True | c # _ \<Rightarrow> \<not> P c) \<Longrightarrow>
   takeWhile P (t @ r) = t \<and> dropWhile P (t @ r) = r"
  by (induction t) (auto split: list.splits)

lemma parse_num_int: "num_stop r \<Longrightarrow> parse_num (int_str i @ r) = Some (JInt i, r)"
  using takeWhile_tok [OF int_str_num_chars]
  by (simp add: parse_num_def num_stop_def int_tok_str tok_int_str)

lemma hex_val_char [simp]: "d < 16 \<Longrightarrow> hex_val (hex_char d) = Some d"
  by (auto simp: hex_char_def hex_val_def Let_def)

lemma hex4_esc:
  "hex4 CHR ''0'' CHR ''0'' (hex_char (of_char c div 16)) (hex_char (of_char c mod 16)) = Some c"
proof -
  have "(of_char c :: nat) div 16 < 16"
    using nat_of_char_less_256 [of c] by linarith
  moreover have "hex_val CHR ''0'' = Some 0" by (simp add: hex_val_def)
  moreover have "16 * ((of_char c :: nat) div 16) + of_char c mod 16 = of_char c" by simp
  ultimately show ?thesis by (simp add: hex4_def)
qed

lemma parse_str_esc:
  "parse_str (esc_char c @ t) = map_option (\<lambda>(u, q). (c # u, q)) (parse_str t)"
proof (cases "c \<in> {CHR 0x22, CHR 0x5C, CHR 0x0A, CHR 0x0D, CHR 0x09, CHR 0x0C, CHR 0x08}")
  case True
  then show ?thesis by (auto simp: esc_char_def simple_esc_def)
next
  case False
  let ?n = "of_char c :: nat"
  have code: "?n = of_char d \<longleftrightarrow> c = d" for d
    by (rule of_char_eq_iff)
  have ne: "?n \<noteq> 8" "?n \<noteq> 9" "?n \<noteq> 10" "?n \<noteq> 12" "?n \<noteq> 13"
    using False code [of "CHR 0x08"] code [of "CHR 0x09"] code [of "CHR 0x0A"]
      code [of "CHR 0x0C"] code [of "CHR 0x0D"] by auto
  show ?thesis
  proof (cases "?n < 32 \<or> 126 < ?n")
    case True
    with False ne have "esc_char c =
        [CHR 0x5C, CHR ''u'', CHR ''0'', CHR ''0'', hex_char (?n div 16), hex_char (?n mod 16)]"
      by (simp add: esc_char_def Let_def)
    then show ?thesis by (simp add: hex4_esc)
  next
    case plain: False
    with False ne have "esc_char c = [c]" by (simp add: esc_char_def Let_def)
    with False plain show ?thesis by simp
  qed
qed

lemma parse_dumps_str: "parse_str (concat (map esc_char s) @ CHR 0x22 # r) = Some (s, r)"
  by (induction s) (auto simp: parse_str_esc)

text \<open>
  The values \<open>json.dumps\<close> and \<open>json.loads\<close> agree on: dictionary keys are distinct (as in any
  Python dictionary) and a float is a finite one, printed as a number literal.
\<close>

fun json_wf :: "json \<Rightarrow> bool" where
  "json_wf (JFloat l) = (float_tok l \<and> \<not> int_tok l \<and> list_all num_char l)"
| "json_wf (JList vs) = list_all json_wf vs"
| "json_wf (JObj d) = (distinct (map fst d) \<and> list_all json_wf (map snd d))"
| "json_wf _ = True"

lemma skip_ws_simps [simp]:
  "skip_ws [] = []" "skip_ws (CHR '' '' # r) = skip_ws r"
  "\<not> is_ws c \<Longrightarrow> skip_ws (c # r) = c # r"
  by (simp_all add: skip_ws_def is_ws_def)

lemma not_ws [simp]:
  "\<not> is_ws CHR '',''" "\<not> is_ws CHR '']''" "\<not> is_ws CHR ''}''" "\<not> is_ws CHR ''[''"
  "\<not> is_ws CHR ''{''" "\<not> is_ws CHR '':''" "\<not> is_ws CHR 0x22"
  by (simp_all add: is_ws_def)

lemma dict_of_pairs_snoc: "dict_of_pairs (ps @ [(k, v)]) = dict_set k v (dict_of_pairs ps)"
  by (simp add: dict_of_pairs_def)

lemma dict_of_pairs_distinct: "distinct (map fst ps) \<Longrightarrow> dict_of_pairs ps = ps"
proof (induction ps rule: rev_induct)
  case Nil
  show ?case by (simp add: dict_of_pairs_def)
next
  case (snoc p ps)
  obtain k v where p: "p = (k, v)" by (cases p)
  from snoc p have "dict_get ps k = None" by (simp add: map_of_eq_None_iff)
  with snoc p show ?case by (simp add: dict_of_pairs_snoc dict_set_fresh)
qed

fun jfuel :: "json \<Rightarrow> nat"
  and jfuel_list :: "json list \<Rightarrow> nat"
  and jfuel_members :: "(string \<times> json) list \<Rightarrow> nat" where
  "jfuel (JList vs) = Suc (jfuel_list vs)"
| "jfuel (JObj d) = Suc (jfuel_members d)"
| "jfuel _ = 1"
| "jfuel_list [] = 0"
| "jfuel_list (v # vs) = Suc (max (jfuel v) (jfuel_list vs))"
| "jfuel_members [] = 0"
| "jfuel_members ((k, v) # ms) = Suc (max (jfuel v) (jfuel_members ms))"

lemma num_char_not [simp]:
  assumes "num_char c"
  shows "c \<notin> {CHR 0x22, CHR ''{'', CHR ''['', CHR ''n'', CHR ''t'', CHR ''f'', CHR ''N'', CHR ''I'',
    CHR '']'', CHR ''}''}" and "\<not> is_ws c"
  using assms by (auto simp: num_char_def is_digit_def is_ws_def)

lemma not_minus_infinity:
  assumes "list_all num_char t" "t \<noteq> []" "t \<noteq> ''-''"
  shows "\<not> startswith (t @ r) ''-Infinity''"
proof
  assume "startswith (t @ r) ''-Infinity''"
  then obtain u where u: "t @ r = ''-Infinity'' @ u"
    by (auto simp: startswith_iff)
  then obtain a ts where t: "t = a # ts" "a = CHR ''-''"
    using assms(2) by (cases t) auto
  with assms(3) obtain b us where "ts = b # us"
    by (cases ts) auto
  with t u have "b = CHR ''I''" by simp
  with \<open>ts = b # us\<close> t assms(1) show False
    by (simp add: num_char_def is_digit_def)
qed

lemma parse_val_num:
  assumes "list_all num_char t" "t \<noteq> []" "t \<noteq> ''-''"
  shows "parse_val (Suc n) (t @ r) = parse_num (t @ r)"
proof -
  obtain c cs where t: "t = c # cs" using assms(2) by (cases t) auto
  with assms(1) have "num_char c" by simp
  then have "c \<notin> {CHR 0x22, CHR ''{'', CHR ''['', CHR ''n'', CHR ''t'', CHR ''f'', CHR ''N'', CHR ''I'',
    CHR '']'', CHR ''}''}" by (rule num_char_not)
  then show ?thesis
    using not_minus_infinity [OF assms, of r] t by simp
qed

lemma int_str_shape: "int_str i \<noteq> []" "int_str i \<noteq> ''-''"
  using int_tok_str [of i] by (auto simp: int_tok_def nat_tok_def)

lemma float_tok_shape: "float_tok l \<Longrightarrow> l \<noteq> [] \<and> l \<noteq> ''-''"
  by (auto simp: float_tok_def int_tok_def nat_tok_def)

lemma parse_num_float:
  "json_wf (JFloat l) \<Longrightarrow> num_stop r \<Longrightarrow> parse_num (l @ r) = Some (JFloat l, r)"
  using takeWhile_tok [of num_char l r] by (simp add: parse_num_def num_stop_def)

lemma dumps_head:
  assumes "json_wf v"
  shows "\<exists>c cs. dumps v = c # cs \<and> \<not> is_ws c \<and> c \<noteq> CHR '']''"
proof (cases v)
  case (JInt i)
  obtain c cs where c: "int_str i = c # cs"
    using int_str_shape(1) [of i] by (cases "int_str i") auto
  then have "num_char c" using int_str_num_chars [of i] by simp
  then have "\<not> is_ws c" "c \<noteq> CHR '']''" using num_char_not [of c] by auto
  with JInt c show ?thesis by simp
next
  case (JFloat l)
  obtain c cs where c: "l = c # cs"
    using assms JFloat float_tok_shape [of l] by (cases l) auto
  then have "num_char c" using assms JFloat by simp
  then have "\<not> is_ws c" "c \<noteq> CHR '']''" using num_char_not [of c] by auto
  with JFloat c show ?thesis by simp
qed (auto simp: is_ws_def dumps_str_def)

lemma dumps_list_head:
  assumes "list_all json_wf vs" "vs \<noteq> []"
  shows "\<exists>c cs. dumps_list vs = c # cs \<and> \<not> is_ws c \<and> c \<noteq> CHR '']''"
proof -
  obtain v ws where vs: "vs = v # ws" using assms(2) by (cases vs) auto
  with assms(1) dumps_head [of v] show ?thesis by (cases ws) auto
qed

lemma num_stop_simps [simp]:
  "num_stop []" "num_stop (CHR '','' # r)" "num_stop (CHR '']'' # r)" "num_stop (CHR ''}'' # r)"
  by (simp_all add: num_stop_def num_char_def is_digit_def)

lemma parse_key:
  "parse_members (Suc n) (dumps_str k @ CHR '':'' # CHR '' '' # s) =
     (case parse_val n (skip_ws s) of
        None \<Rightarrow> None
      | Some (v, q) \<Rightarrow>
          (case skip_ws q of
             [] \<Rightarrow> None
           | x # p \<Rightarrow>
               if x = CHR ''}'' then Some ([(k, v)], p)
               else if x = CHR '','' then
                 map_option (\<lambda>(ms, t). ((k, v) # ms, t)) (parse_members n (skip_ws p))
               else None))"
  by (simp add: dumps_str_def parse_dumps_str)

lemma skip_ws_dumps: "json_wf v \<Longrightarrow> skip_ws (dumps v @ r) = dumps v @ r"
  using dumps_head [of v] by auto

lemma skip_ws_dumps_list:
  "list_all json_wf vs \<Longrightarrow> vs \<noteq> [] \<Longrightarrow> skip_ws (dumps_list vs @ r) = dumps_list vs @ r"
  using dumps_list_head [of vs] by auto

lemma skip_ws_dumps_members:
  "ms \<noteq> [] \<Longrightarrow> skip_ws (dumps_members ms @ r) = dumps_members ms @ r"
  by (cases ms rule: dumps_members.cases) (auto simp: dumps_str_def)

lemma parse_val_list:
  assumes "list_all json_wf vs" "vs \<noteq> []"
  shows "parse_val (Suc n) (dumps (JList vs) @ r) =
    map_option (\<lambda>(vs, q). (JList vs, q)) (parse_elems n (dumps_list vs @ CHR '']'' # r))"
proof -
  obtain c cs where c: "dumps_list vs = c # cs" "\<not> is_ws c" "c \<noteq> CHR '']''"
    using dumps_list_head [OF assms] by blast
  then show ?thesis by simp
qed

lemma parse_val_obj:
  assumes "ms \<noteq> []"
  shows "parse_val (Suc n) (dumps (JObj ms) @ r) =
    map_option (\<lambda>(ms, q). (JObj (dict_of_pairs ms), q)) (parse_members n (dumps_members ms @ CHR ''}'' # r))"
proof -
  obtain cs where c: "dumps_members ms = CHR 0x22 # cs"
    using assms by (cases ms rule: dumps_members.cases) (auto simp: dumps_str_def)
  then show ?thesis by simp
qed

lemma parse_dumps_aux:
  "json_wf v \<Longrightarrow> num_stop r \<Longrightarrow> jfuel v \<le> n \<Longrightarrow> parse_val n (dumps v @ r) = Some (v, r)"
  "list_all json_wf vs \<Longrightarrow> vs \<noteq> [] \<Longrightarrow> jfuel_list vs \<le> n \<Longrightarrow>
     parse_elems n (dumps_list vs @ CHR '']'' # r) = Some (vs, r)"
  "list_all json_wf (map snd ms) \<Longrightarrow> ms \<noteq> [] \<Longrightarrow> jfuel_members ms \<le> n \<Longrightarrow>
     parse_members n (dumps_members ms @ CHR ''}'' # r) = Some (ms, r)"
proof (induction v and vs and ms arbitrary: n r and n r and n r
    rule: dumps_dumps_list_dumps_members.induct)
  case (3 i)
  then obtain m where "n = Suc m" by (cases n) auto
  then show ?case
    using parse_val_num [OF int_str_num_chars int_str_shape] 3 by (simp add: parse_num_int)
next
  case (4 l)
  then obtain m where "n = Suc m" by (cases n) auto
  then show ?case
    using parse_val_num [of l m r] float_tok_shape [of l] 4 by (simp add: parse_num_float)
next
  case (6 vs)
  then obtain m where n: "n = Suc m" by (cases n) auto
  show ?case
  proof (cases "vs = []")
    case True
    with n show ?thesis by simp
  next
    case False
    with 6 n show ?thesis by (simp add: parse_val_list del: parse_val.simps dumps.simps)
  qed
next
  case (7 d)
  then obtain m where n: "n = Suc m" by (cases n) auto
  show ?case
  proof (cases "d = []")
    case True
    with n show ?thesis by simp
  next
    case False
    with 7 n show ?thesis
      by (simp add: parse_val_obj dict_of_pairs_distinct del: parse_val.simps dumps.simps)
  qed
next
  case (9 v)
  then obtain m where "n = Suc m" by (cases n) auto
  with 9 show ?case by simp
next
  case (10 v w vs)
  then obtain m where "n = Suc m" by (cases n) auto
  with 10 show ?case
    by (simp add: skip_ws_dumps_list dumps_list.simps(3) [of v] del: dumps_list.simps(2-3))
next
  case (12 k v)
  then obtain m where "n = Suc m" by (cases n) auto
  with 12 show ?case by (simp add: parse_key skip_ws_dumps del: parse_members.simps)
next
  case (13 k v p ms)
  then obtain m where "n = Suc m" by (cases n) auto
  with 13 show ?case
    by (simp add: parse_key skip_ws_dumps skip_ws_dumps_members del: parse_members.simps)
qed (use gr0_conv_Suc in \<open>auto simp: lit_def startswith_def dumps_str_def parse_dumps_str Suc_le_eq\<close>)

lemma jfuel_le:
  "json_wf v \<Longrightarrow> jfuel v \<le> 2 * length (dumps v)"
  "list_all json_wf vs \<Longrightarrow> jfuel_list vs \<le> 2 * length (dumps_list vs) + 1"
  "list_all json_wf (map snd ms) \<Longrightarrow> jfuel_members ms \<le> 2 * length (dumps_members ms) + 1"
proof (induction v and vs and ms rule: dumps_dumps_list_dumps_members.induct)
  case (3 i)
  then show ?case using int_str_shape(1) [of i] by (cases "int_str i") auto
next
  case (4 l)
  then show ?case using float_tok_shape [of l] by (cases l) auto
qed (auto simp: dumps_str_def)

text \<open>Reading back a printed value gives the value.\<close>

lemma loads_dumps: "json_wf v \<Longrightarrow> loads (dumps v) = Some v"
  using parse_dumps_aux(1) [of v "[]" "2 * length (dumps v) + 1"] jfuel_le(1) [of v]
    skip_ws_dumps [of v "[]"]
  by (simp add: loads_def)

interpretation json_codec: text_codec dumps loads json_wf
  by unfold_locales (rule loads_dumps)

section \<open>\<open>str\<close> and \<open>repr\<close>\<close>

definition repr_char :: "char \<Rightarrow> char \<Rightarrow> string" where
  "repr_char q c =
     (let n = (of_char c :: nat) in
      if c = q \<or> c = CHR 0x5C then [CHR 0x5C, c]
      else if n = 10 then [CHR 0x5C, CHR ''n'']
      else if n = 13 then [CHR 0x5C, CHR ''r'']
      else if n = 9 then [CHR 0x5C, CHR ''t'']
      else if n < 32 \<or> (127 \<le> n \<and> n \<le> 160) \<or> n = 173
        then [CHR 0x5C, CHR ''x'', hex_char (n div 16), hex_char (n mod 16)]
      else [c])"

definition repr_str :: "string \<Rightarrow> string" where
  "repr_str s =
     (let q = (if CHR 0x27 \<in> set s \<and> CHR 0x22 \<notin> set s then CHR 0x22 else CHR 0x27)
      in q # concat (map (repr_char q) s) @ [q])"

fun py_repr :: "json \<Rightarrow> string"
  and py_repr_list :: "json list \<Rightarrow> string"
  and py_repr_members :: "(string \<times> json) list \<Rightarrow> string" where
  "py_repr JNull = ''None''"
| "py_repr (JBool b) = (if b then ''True'' else ''False'')"
| "py_repr (JInt i) = int_str i"
| "py_repr (JFloat l) =
     (if l = ''NaN'' then ''nan'' else if l = ''Infinity'' then ''inf''
      else if l = ''-Infinity'' then ''-inf'' else l)"
| "py_repr (JStr s) = repr_str s"
| "py_repr (JList vs) = CHR ''['' # py_repr_list vs @ '']''"
| "py_repr (JObj d) = CHR ''{'' # py_repr_members d @ ''}''"
| "py_repr_list [] = []"
| "py_repr_list [v] = py_repr v"
| "py_repr_list (v # w # vs) = py_repr v @ '', '' @ py_repr_list (w # vs)"
| "py_repr_members [] = []"
| "py_repr_members [(k, v)] = repr_str k @ '': '' @ py_repr v"
| "py_repr_members ((k, v) # m # ms) =
     repr_str k @ '': '' @ py_repr v @ '', '' @ py_repr_members (m # ms)"

fun py_str :: "json \<Rightarrow> string" where
  "py_str (JStr s) = s"
| "py_str v = py_repr v"

end
