(* ===== verification/Mcp_Errors.thy ===== *)
theory Mcp_Errors
  imports Py_Json
begin

text \<open>
  Exceptions and the tool-result envelope: the class hierarchy of \<open>app/core/exceptions.py\<close> beside
  the built-in classes the service catches, \<open>tool_text\<close> and \<open>tool_error\<close> of
  \<open>app/core/errors.py\<close>, the transience test and the back-off of
  \<open>app/services/execution_service.py\<close>, and the hints of \<open>app/core/runtime/diagnostics.py\<close>.
  An exception is its class and its text; \<open>isinstance\<close> walks the superclass chain.
\<close>

section \<open>Exception classes\<close>

datatype exc_class =
    BaseExc | CancelledErr | ExceptionC
  | OSErr | TimeoutErr | ConnectionErr | BrokenPipeErr | FileNotFoundErr | IsADirectoryErr
  | RuntimeErr | ValueErr | TypeErr | KeyErr | AttributeErr | NameErr | SyntaxErr
  | ImportErr | ModuleNotFoundErr
  | MCPErr | RoutingErr | ExecutionErr | RemoteCallErr | PluginLoadErr
  | HTTPExc int | JsonRpcErr int | WebSocketDisconnectExc
  | OtherErr string

datatype exc = Exc (exc_class: exc_class) (exc_msg: string)

text \<open>The direct superclass; a third-party class is taken to derive from \<open>Exception\<close>.\<close>

fun exc_parent :: "exc_class \<Rightarrow> exc_class option" where
  "exc_parent BaseExc = None"
| "exc_parent CancelledErr = Some BaseExc"
| "exc_parent ExceptionC = Some BaseExc"
| "exc_parent TimeoutErr = Some OSErr"
| "exc_parent ConnectionErr = Some OSErr"
| "exc_parent BrokenPipeErr = Some ConnectionErr"
| "exc_parent FileNotFoundErr = Some OSErr"
| "exc_parent IsADirectoryErr = Some OSErr"
| "exc_parent ModuleNotFoundErr = Some ImportErr"
| "exc_parent RoutingErr = Some MCPErr"
| "exc_parent ExecutionErr = Some MCPErr"
| "exc_parent RemoteCallErr = Some ExecutionErr"
| "exc_parent PluginLoadErr = Some MCPErr"
| "exc_parent _ = Some ExceptionC"

fun exc_depth :: "exc_class \<Rightarrow> nat" where
  "exc_depth BaseExc = 0"
| "exc_depth CancelledErr = 1"
| "exc_depth ExceptionC = 1"
| "exc_depth TimeoutErr = 3"
| "exc_depth ConnectionErr = 3"
| "exc_depth BrokenPipeErr = 4"
| "exc_depth FileNotFoundErr = 3"
| "exc_depth IsADirectoryErr = 3"
| "exc_depth ModuleNotFoundErr = 3"
| "exc_depth RoutingErr = 3"
| "exc_depth ExecutionErr = 3"
| "exc_depth RemoteCallErr = 4"
| "exc_depth PluginLoadErr = 3"
| "exc_depth _ = 2"

lemma exc_parent_depth: "exc_parent c = Some p \<Longrightarrow> exc_depth p < exc_depth c"
  by (cases c) auto

function is_subclass :: "exc_class \<Rightarrow> exc_class \<Rightarrow> bool" where
  "is_subclass c k = (c = k \<or> (case exc_parent c of None \<Rightarrow> False | Some p \<Rightarrow> is_subclass p k))"
  by pat_completeness auto
termination
  by (relation "measure (\<lambda>(c, k). exc_depth c)") (auto dest: exc_parent_depth)

declare is_subclass.simps [simp del]

definition isinstance :: "exc \<Rightarrow> exc_class list \<Rightarrow> bool" where
  "isinstance e ks \<longleftrightarrow> list_ex (is_subclass (exc_class e)) ks"

text \<open>What \<open>except Exception\<close> catches.\<close>

definition is_exception :: "exc \<Rightarrow> bool" where
  "is_exception e \<longleftrightarrow> isinstance e [ExceptionC]"

definition is_cancelled_exc :: "exc \<Rightarrow> bool" where
  "is_cancelled_exc e \<longleftrightarrow> isinstance e [CancelledErr]"

definition is_timeout_exc :: "exc \<Rightarrow> bool" where
  "is_timeout_exc e \<longleftrightarrow> isinstance e [TimeoutErr]"

lemma is_subclass_refl [simp]: "is_subclass c c"
  by (subst is_subclass.simps) simp

lemma is_subclass_trans: "is_subclass a b \<Longrightarrow> is_subclass b c \<Longrightarrow> is_subclass a c"
proof (induction a b rule: is_subclass.induct)
  case (1 a b)
  show ?case
  proof (cases "a = b")
    case False
    with "1.prems"(1) obtain p where "exc_parent a = Some p" "is_subclass p b"
      by (subst (asm) is_subclass.simps) (auto split: option.splits)
    with 1 have "is_subclass p c" by simp
    with \<open>exc_parent a = Some p\<close> show ?thesis
      by (subst is_subclass.simps) simp
  qed (use 1 in simp)
qed

lemma is_exception_iff: "is_exception e \<longleftrightarrow> exc_class e \<noteq> BaseExc \<and> exc_class e \<noteq> CancelledErr"
  by (cases "exc_class e") (simp_all add: is_exception_def isinstance_def is_subclass.simps)

lemma is_cancelled_iff: "is_cancelled_exc e \<longleftrightarrow> exc_class e = CancelledErr"
  by (cases "exc_class e") (simp_all add: is_cancelled_exc_def isinstance_def is_subclass.simps)

lemma is_timeout_iff: "is_timeout_exc e \<longleftrightarrow> exc_class e = TimeoutErr"
  by (cases "exc_class e") (simp_all add: is_timeout_exc_def isinstance_def is_subclass.simps)

section \<open>The transience test and the back-off\<close>

definition TRANSIENT_ERRORS :: "exc_class list" where
  "TRANSIENT_ERRORS = [TimeoutErr, ConnectionErr, OSErr, RemoteCallErr]"

definition is_transient :: "exc \<Rightarrow> bool" where
  "is_transient e \<longleftrightarrow> isinstance e TRANSIENT_ERRORS"

text \<open>\<open>random.uniform(0, 0.5)\<close> is the argument \<open>u\<close>.\<close>

definition backoff_seconds :: "nat \<Rightarrow> seconds \<Rightarrow> seconds" where
  "backoff_seconds attempt u = 2 ^ attempt + u"

lemma is_transient_iff:
  "is_transient e \<longleftrightarrow> exc_class e \<in>
     {OSErr, TimeoutErr, ConnectionErr, BrokenPipeErr, FileNotFoundErr, IsADirectoryErr, RemoteCallErr}"
  by (cases "exc_class e")
    (simp_all add: is_transient_def isinstance_def TRANSIENT_ERRORS_def is_subclass.simps)

section \<open>The tool-result envelope\<close>

definition text_item :: "string \<Rightarrow> json" where
  "text_item t = JObj [(''type'', JStr ''text''), (''text'', JStr t)]"

definition tool_text :: "string \<Rightarrow> json" where
  "tool_text t = JObj [(''content'', JList [text_item t])]"

definition tool_error :: "string \<Rightarrow> jdict \<Rightarrow> json" where
  "tool_error msg diagnostics =
     JObj ([(''content'', JList [text_item msg]), (''isError'', JBool True)]
       @ (if diagnostics = [] then [] else [(''diagnostics'', JObj diagnostics)]))"

text \<open>The value of a key of a JSON object, \<open>None\<close> for a missing key or another value.\<close>

fun obj_get :: "json \<Rightarrow> string \<Rightarrow> json option" where
  "obj_get (JObj d) k = dict_get d k"
| "obj_get _ k = None"

text \<open>A value iterated by a \<open>for\<close> loop.\<close>

fun json_iter :: "json \<Rightarrow> exc + json list" where
  "json_iter (JList xs) = Inr xs"
| "json_iter (JObj kvs) = Inr (map (JStr \<circ> fst) kvs)"
| "json_iter (JStr s) = Inr (map (\<lambda>c. JStr [c]) s)"
| "json_iter _ = Inl (Exc TypeErr ''object is not iterable'')"

definition is_error_result :: "json \<Rightarrow> bool" where
  "is_error_result r \<longleftrightarrow> obj_get r ''isError'' = Some (JBool True)"

lemma tool_error_is_error [simp]: "is_error_result (tool_error m d)"
  by (simp add: is_error_result_def tool_error_def)

lemma tool_error_wf:
  "distinct (map fst d) \<Longrightarrow> list_all json_wf (map snd d) \<Longrightarrow> json_wf (tool_error m d)"
  by (simp add: tool_error_def text_item_def)

lemma tool_error_wf_Nil [simp]: "json_wf (tool_error m [])"
  by (simp add: tool_error_wf)

section \<open>Hints\<close>

fun class_name :: "exc_class \<Rightarrow> string" where
  "class_name BaseExc = ''BaseException''"
| "class_name CancelledErr = ''CancelledError''"
| "class_name ExceptionC = ''Exception''"
| "class_name OSErr = ''OSError''"
| "class_name TimeoutErr = ''TimeoutError''"
| "class_name ConnectionErr = ''ConnectionError''"
| "class_name BrokenPipeErr = ''BrokenPipeError''"
| "class_name FileNotFoundErr = ''FileNotFoundError''"
| "class_name IsADirectoryErr = ''IsADirectoryError''"
| "class_name RuntimeErr = ''RuntimeError''"
| "class_name ValueErr = ''ValueError''"
| "class_name TypeErr = ''TypeError''"
| "class_name KeyErr = ''KeyError''"
| "class_name AttributeErr = ''AttributeError''"
| "class_name NameErr = ''NameError''"
| "class_name SyntaxErr = ''SyntaxError''"
| "class_name ImportErr = ''ImportError''"
| "class_name ModuleNotFoundErr = ''ModuleNotFoundError''"
| "class_name MCPErr = ''MCPError''"
| "class_name RoutingErr = ''RoutingError''"
| "class_name ExecutionErr = ''ExecutionError''"
| "class_name RemoteCallErr = ''RemoteCallError''"
| "class_name PluginLoadErr = ''PluginLoadError''"
| "class_name (HTTPExc _) = ''HTTPException''"
| "class_name (JsonRpcErr _) = ''_JsonRpcError''"
| "class_name WebSocketDisconnectExc = ''WebSocketDisconnect''"
| "class_name (OtherErr n) = n"

text \<open>\<open>s.split()\<close>: the maximal runs of characters that are not white space.\<close>

fun split_ws_aux :: "string \<Rightarrow> string \<Rightarrow> string list" where
  "split_ws_aux w [] = (if w = [] then [] else [rev w])"
| "split_ws_aux w (c # cs) =
     (if is_space c then (if w = [] then split_ws_aux [] cs else rev w # split_ws_aux [] cs)
      else split_ws_aux (c # w) cs)"

definition split_ws :: "string \<Rightarrow> string list" where
  "split_ws = split_ws_aux []"

text \<open>
  \<open>suggest_fix\<close>.  For an import error with no quoted module name the last word of the message is
  the module; a message with no word at all makes the index raise \<open>IndexError\<close>.  The dash of the
  source text, a code point above 255, is written as a hyphen.
\<close>

definition suggest_fix :: "exc \<Rightarrow> exc + string" where
  "suggest_fix e =
     (let name = class_name (exc_class e); raw = exc_msg e; msg = str_lower raw in
      if name \<in> set [''ImportError'', ''ModuleNotFoundError''] then
        (if CHR 0x27 \<in> set raw
         then Inr (''Missing module - run: pip install '' @ split_char (CHR 0x27) raw ! 1)
         else (case split_ws raw of
                 [] \<Rightarrow> Inl (Exc (OtherErr ''IndexError'') ''list index out of range'')
               | ws \<Rightarrow> Inr (''Missing module - run: pip install '' @ last ws)))
      else if name = ''NameError'' then Inr ''Name used before definition. Check for typos.''
      else if name = ''AttributeError'' then
        Inr ''Attribute/method not found. Check the object type and attribute name.''
      else if name = ''TypeError'' then Inr ''Wrong argument type or count. Check function signatures.''
      else if name = ''KeyError'' then
        Inr (''Key '' @ raw @ '' missing. Use .get() or verify the key exists.'')
      else if name = ''ValueError'' then Inr ''Invalid value. Check input data and expected ranges.''
      else if name \<in> set [''FileNotFoundError'', ''IsADirectoryError''] then
        Inr ''File not found. Check paths and working directory.''
      else if str_contains ''timeout'' msg \<or> name \<in> set [''TimeoutError'', ''asyncio.TimeoutError''] then
        Inr ''Operation timed out. Check API calls and long-running operations.''
      else if list_ex (\<lambda>w. str_contains w msg) [''connection'', ''refused'', ''unreachable'', ''network''] then
        Inr ''Network error. Check connectivity and remote service availability.''
      else Inr (name @ '': review the traceback for the failing line.''))"

lemma split_quote_second:
  "d \<in> set s \<Longrightarrow> 1 < length (split_char d s)"
proof (induction s)
  case (Cons c s)
  obtain w ws where "split_char d s = w # ws" by (cases "split_char d s") auto
  with Cons show ?case by (auto split: if_splits)
qed simp

lemma suggest_fix_total:
  "exc_class e \<notin> {ImportErr, ModuleNotFoundErr} \<Longrightarrow> (\<forall>n. exc_class e \<noteq> OtherErr n) \<Longrightarrow>
   \<exists>h. suggest_fix e = Inr h"
  by (cases "exc_class e") (simp_all add: suggest_fix_def Let_def)

end
