(* ===== verification/Redis_Cache.thy ===== *)
theory Redis_Cache
  imports Mcp_Errors
begin

text \<open>
  The cache layer: the key names of \<open>app/cache/keys.py\<close> and, of \<open>app/cache/redis_client.py\<close>, the
  in-process stand-in for Redis (a store with expiry times and channels with subscriber queues),
  the choice between the real pool and the stand-in, and the typed helpers.

  The state \<open>redis\<close> is one \<open>_InMemoryRedis\<close> object.  A queue object is a number; the contents of
  all queues are the field \<open>queues\<close>, so that the hub a subscription shares with its server is the
  one field \<open>channels\<close>.  A Python set is a list without duplicates.  An operation that reads the
  clock takes the reading \<open>now\<close> as an argument; one reading serves a whole scan.
\<close>

section \<open>Keys\<close>

definition key_org_tools :: "string \<Rightarrow> string" where
  "key_org_tools org = ''mcp:'' @ org @ '':tools''"

definition key_project_tools :: "string \<Rightarrow> string \<Rightarrow> string" where
  "key_project_tools org proj = ''mcp:'' @ org @ '':project:'' @ proj @ '':tools''"

definition key_server_health :: "string \<Rightarrow> string \<Rightarrow> string" where
  "key_server_health org sid = ''mcp:'' @ org @ '':server:'' @ sid @ '':health''"

definition key_server_status_pattern :: "string \<Rightarrow> string" where
  "key_server_status_pattern org = ''mcp:'' @ org @ '':server:*:health''"

definition key_invocation_events :: "string \<Rightarrow> string" where
  "key_invocation_events i = ''mcp:invocation:'' @ i @ '':events''"

definition key_invocation_status :: "string \<Rightarrow> string" where
  "key_invocation_status i = ''mcp:invocation:'' @ i @ '':status''"

definition key_session :: "string \<Rightarrow> string" where
  "key_session sid = ''mcp:session:'' @ sid"

definition key_rate_limit :: "string \<Rightarrow> string \<Rightarrow> string" where
  "key_rate_limit org ep = ''mcp:rate:'' @ org @ '':'' @ ep"

definition key_server_capabilities :: "string \<Rightarrow> string" where
  "key_server_capabilities sid = ''mcp:capabilities:'' @ sid"

definition key_server_connect_lock :: "string \<Rightarrow> string" where
  "key_server_connect_lock sid = ''mcp:lock:connect:'' @ sid"

definition TTL_TOOLS :: int where "TTL_TOOLS = 300"
definition TTL_HEALTH :: int where "TTL_HEALTH = 30"
definition TTL_SESSION :: int where "TTL_SESSION = 3600"
definition TTL_CAPABILITIES :: int where "TTL_CAPABILITIES = 600"
definition TTL_LOCK :: int where "TTL_LOCK = 30"

lemma key_invocation_events_inj: "key_invocation_events i = key_invocation_events j \<longleftrightarrow> i = j"
  by (simp add: key_invocation_events_def)

section \<open>File-name patterns\<close>

text \<open>
  \<open>fnmatch.fnmatch\<close> on a POSIX system: a star matches any text, a question mark one character, a
  bracket expression one character of a set (\<open>!\<close> first negates it, \<open>a-b\<close> is a range); a bracket
  that is never closed stands for itself.
\<close>

datatype glob = GStar | GAny | GLit char | GSet bool "(char \<times> char) list"

fun bracket_ranges :: "string \<Rightarrow> (char \<times> char) list" where
  "bracket_ranges [] = []"
| "bracket_ranges [a] = [(a, a)]"
| "bracket_ranges [a, b] = [(a, a), (b, b)]"
| "bracket_ranges (a # b # c # cs) =
     (if b = CHR ''-'' then (a, c) # bracket_ranges cs else (a, a) # bracket_ranges (b # c # cs))"

text \<open>The contents of a bracket expression and what follows it; a \<open>]\<close> in first place is a member.\<close>

definition bracket_body :: "string \<Rightarrow> (bool \<times> string \<times> string) option" where
  "bracket_body s =
     (let neg = (s \<noteq> [] \<and> hd s = CHR ''!''); s1 = (if neg then tl s else s);
          first = (if s1 \<noteq> [] \<and> hd s1 = CHR '']'' then '']'' else []);
          s2 = drop (length first) s1;
          body = takeWhile (\<lambda>c. c \<noteq> CHR '']'') s2; rest = drop (length body) s2
      in if rest = [] then None else Some (neg, first @ body, tl rest))"

lemma bracket_body_length: "bracket_body s = Some (n, b, r) \<Longrightarrow> length r < length s"
proof -
  assume a: "bracket_body s = Some (n, b, r)"
  define neg where "neg = (s \<noteq> [] \<and> hd s = CHR ''!'')"
  define s1 where "s1 = (if neg then tl s else s)"
  define first where "first = (if s1 \<noteq> [] \<and> hd s1 = CHR '']'' then '']'' else [])"
  define s2 where "s2 = drop (length first) s1"
  define rest where "rest = drop (length (takeWhile (\<lambda>c. c \<noteq> CHR '']'') s2)) s2"
  from a have "rest \<noteq> []" "r = tl rest"
    by (auto simp: bracket_body_def Let_def neg_def s1_def first_def s2_def rest_def split: if_splits)
  moreover have "length rest \<le> length s"
    unfolding rest_def s2_def s1_def by simp
  ultimately show "length r < length s" by (cases rest) auto
qed

function glob_parse :: "string \<Rightarrow> glob list" where
  "glob_parse [] = []"
| "glob_parse (c # cs) =
     (if c = CHR ''*'' then GStar # glob_parse cs
      else if c = CHR ''?'' then GAny # glob_parse cs
      else if c = CHR ''['' then
        (case bracket_body cs of
           None \<Rightarrow> GLit c # glob_parse cs
         | Some (neg, body, rest) \<Rightarrow> GSet neg (bracket_ranges body) # glob_parse rest)
      else GLit c # glob_parse cs)"
  by pat_completeness auto
termination
  by (relation "measure length") (auto dest!: bracket_body_length)

definition in_range :: "char \<Rightarrow> char \<times> char \<Rightarrow> bool" where
  "in_range c p \<longleftrightarrow> (of_char (fst p) :: nat) \<le> of_char c \<and> (of_char c :: nat) \<le> of_char (snd p)"

fun glob_match :: "glob list \<Rightarrow> string \<Rightarrow> bool" where
  "glob_match [] s = (s = [])"
| "glob_match (GStar # g) [] = glob_match g []"
| "glob_match (GStar # g) (c # s) = (glob_match g (c # s) \<or> glob_match (GStar # g) s)"
| "glob_match (GAny # g) s = (case s of [] \<Rightarrow> False | c # t \<Rightarrow> glob_match g t)"
| "glob_match (GLit d # g) s = (case s of [] \<Rightarrow> False | c # t \<Rightarrow> c = d \<and> glob_match g t)"
| "glob_match (GSet neg rs # g) s =
     (case s of [] \<Rightarrow> False | c # t \<Rightarrow> (neg \<noteq> list_ex (in_range c) rs) \<and> glob_match g t)"

definition fnmatch :: "string \<Rightarrow> string \<Rightarrow> bool" where
  "fnmatch name pat = glob_match (glob_parse pat) name"

definition plain_char :: "char \<Rightarrow> bool" where
  "plain_char c \<longleftrightarrow> c \<notin> {CHR ''*'', CHR ''?'', CHR ''[''}"

lemma glob_parse_plain:
  "list_all plain_char p \<Longrightarrow> glob_parse (p @ s) = map GLit p @ glob_parse s"
  by (induction p) (auto simp: plain_char_def)

lemma glob_match_lits:
  "glob_match (map GLit p @ g) s \<longleftrightarrow> (\<exists>t. s = p @ t \<and> glob_match g t)"
  by (induction p arbitrary: s) (auto split: list.splits)

lemma glob_match_star: "glob_match (GStar # g) s \<longleftrightarrow> (\<exists>a b. s = a @ b \<and> glob_match g b)"
proof (induction s)
  case (Cons c s)
  show ?case
  proof
    assume "glob_match (GStar # g) (c # s)"
    with Cons show "\<exists>a b. c # s = a @ b \<and> glob_match g b"
      by (metis append_Cons append_Nil glob_match.simps(3))
  next
    assume "\<exists>a b. c # s = a @ b \<and> glob_match g b"
    then obtain a b where "c # s = a @ b" "glob_match g b" by blast
    with Cons show "glob_match (GStar # g) (c # s)" by (cases a) auto
  qed
qed simp

text \<open>A pattern without wild cards matches itself only.\<close>

lemma fnmatch_plain: "list_all plain_char p \<Longrightarrow> fnmatch s p \<longleftrightarrow> s = p"
  using glob_parse_plain [of p "[]"] glob_match_lits [of p "[]" s] by (auto simp: fnmatch_def)

lemma fnmatch_one_star:
  assumes "list_all plain_char p" "list_all plain_char q"
  shows "fnmatch s (p @ CHR ''*'' # q) \<longleftrightarrow> (\<exists>m. s = p @ m @ q)"
proof -
  have "glob_parse (p @ CHR ''*'' # q) = map GLit p @ GStar # map GLit q"
    using assms glob_parse_plain [of p "CHR ''*'' # q"] glob_parse_plain [of q "[]"] by simp
  moreover have "glob_match (map GLit q) b \<longleftrightarrow> b = q" for b
    using glob_match_lits [of q "[]" b] by auto
  ultimately show ?thesis
    by (auto simp: fnmatch_def glob_match_lits glob_match_star)
qed

section \<open>The in-process store\<close>

record redis =
  store :: "(string, string \<times> seconds option) dict"
  channels :: "(string, nat list) dict"
  queues :: "string list list"

record pubsub =
  ps_queue :: nat
  ps_channels :: "string list"

definition redis_init :: redis where
  "redis_init = \<lparr>store = [], channels = [], queues = []\<rparr>"

definition redis_expired :: "seconds \<Rightarrow> string \<Rightarrow> redis \<Rightarrow> bool \<times> redis" where
  "redis_expired now key r =
     (case dict_get (store r) key of
        None \<Rightarrow> (True, r)
      | Some (v, expiry) \<Rightarrow>
          (case expiry of
             Some t \<Rightarrow> if t \<le> now then (True, r\<lparr>store := dict_pop key (store r)\<rparr>) else (False, r)
           | None \<Rightarrow> (False, r)))"

definition redis_get :: "seconds \<Rightarrow> string \<Rightarrow> redis \<Rightarrow> string option \<times> redis" where
  "redis_get now key r =
     (case redis_expired now key r of
        (True, r') \<Rightarrow> (None, r')
      | (False, r') \<Rightarrow> (map_option fst (dict_get (store r') key), r'))"

definition redis_set :: "string \<Rightarrow> string \<Rightarrow> redis \<Rightarrow> redis" where
  "redis_set key v r = r\<lparr>store := dict_set key (v, None) (store r)\<rparr>"

definition redis_setex :: "seconds \<Rightarrow> string \<Rightarrow> int \<Rightarrow> string \<Rightarrow> redis \<Rightarrow> redis" where
  "redis_setex now key ttl v r = r\<lparr>store := dict_set key (v, Some (now + of_int ttl)) (store r)\<rparr>"

fun redis_delete :: "string list \<Rightarrow> redis \<Rightarrow> nat \<times> redis" where
  "redis_delete [] r = (0, r)"
| "redis_delete (k # ks) r =
     (let hit = dict_get (store r) k \<noteq> None;
          (n, r') = redis_delete ks (r\<lparr>store := dict_pop k (store r)\<rparr>)
      in ((if hit then Suc n else n), r'))"

text \<open>
  \<open>scan_iter\<close> is a generator over a snapshot of the keys; \<open>body\<close> is what its consumer does with each
  key it yields, between two steps of the generator.
\<close>

fun scan_loop ::
  "seconds \<Rightarrow> string \<Rightarrow> (string \<Rightarrow> 'a \<Rightarrow> redis \<Rightarrow> 'a \<times> redis) \<Rightarrow> string list \<Rightarrow> 'a \<Rightarrow> redis \<Rightarrow> 'a \<times> redis"
where
  "scan_loop now pat body [] acc r = (acc, r)"
| "scan_loop now pat body (k # ks) acc r =
     (case redis_expired now k r of
        (True, r') \<Rightarrow> scan_loop now pat body ks acc r'
      | (False, r') \<Rightarrow>
          if fnmatch k pat
          then (case body k acc r' of (acc', r'') \<Rightarrow> scan_loop now pat body ks acc' r'')
          else scan_loop now pat body ks acc r')"

definition redis_scan ::
  "seconds \<Rightarrow> string \<Rightarrow> (string \<Rightarrow> 'a \<Rightarrow> redis \<Rightarrow> 'a \<times> redis) \<Rightarrow> 'a \<Rightarrow> redis \<Rightarrow> 'a \<times> redis" where
  "redis_scan now pat body acc r = scan_loop now pat body (map fst (store r)) acc r"

definition redis_aclose :: "redis \<Rightarrow> redis" where
  "redis_aclose r = r\<lparr>store := [], channels := []\<rparr>"

section \<open>Channels\<close>

definition queue_put :: "string \<Rightarrow> nat \<Rightarrow> string list list \<Rightarrow> string list list" where
  "queue_put m q qs = (if q < length qs then qs[q := qs ! q @ [m]] else qs)"

definition redis_publish :: "string \<Rightarrow> string \<Rightarrow> redis \<Rightarrow> nat \<times> redis" where
  "redis_publish channel message r =
     (case dict_get (channels r) channel of
        None \<Rightarrow> (0, r)
      | Some subs \<Rightarrow>
          if subs = [] then (0, r)
          else (length subs, r\<lparr>queues := fold (queue_put message) subs (queues r)\<rparr>))"

definition redis_pubsub :: "redis \<Rightarrow> pubsub \<times> redis" where
  "redis_pubsub r =
     (\<lparr>ps_queue = length (queues r), ps_channels = []\<rparr>, r\<lparr>queues := queues r @ [[]]\<rparr>)"

definition ps_subscribe :: "string \<Rightarrow> pubsub \<Rightarrow> redis \<Rightarrow> pubsub \<times> redis" where
  "ps_subscribe channel ps r =
     (ps\<lparr>ps_channels := List.insert channel (ps_channels ps)\<rparr>,
      r\<lparr>channels := dict_set channel
           (List.insert (ps_queue ps) (dict_get_or (channels r) channel [])) (channels r)\<rparr>)"

definition unsubscribe_one :: "string \<Rightarrow> pubsub \<times> redis \<Rightarrow> pubsub \<times> redis" where
  "unsubscribe_one ch = (\<lambda>(ps, r).
     (ps\<lparr>ps_channels := removeAll ch (ps_channels ps)\<rparr>,
      (case dict_get (channels r) ch of
         None \<Rightarrow> r
       | Some subs \<Rightarrow>
           (let subs' = removeAll (ps_queue ps) subs in
            if subs' = [] then r\<lparr>channels := dict_pop ch (channels r)\<rparr>
            else r\<lparr>channels := dict_set ch subs' (channels r)\<rparr>))))"

definition ps_unsubscribe :: "string option \<Rightarrow> pubsub \<Rightarrow> redis \<Rightarrow> pubsub \<times> redis" where
  "ps_unsubscribe channel ps r =
     fold unsubscribe_one
       (if str_truthy channel then [the channel] else ps_channels ps) (ps, r)"

text \<open>\<open>None\<close> is what the time-out returns.\<close>

definition ps_get_message :: "pubsub \<Rightarrow> redis \<Rightarrow> string option \<times> redis" where
  "ps_get_message ps r =
     (case queues r ! ps_queue ps of
        [] \<Rightarrow> (None, r)
      | m # ms \<Rightarrow> (Some m, r\<lparr>queues := (queues r)[ps_queue ps := ms]\<rparr>))"

definition ps_aclose :: "pubsub \<Rightarrow> redis \<Rightarrow> pubsub \<times> redis" where
  "ps_aclose ps r = ps_unsubscribe None ps r"

section \<open>The shared client\<close>

datatype client = RealRedis | FallbackRedis

record redis_module =
  has_pool :: bool
  fallback :: "redis option"
  use_fallback :: bool

definition get_redis_pool :: "redis_module \<Rightarrow> client \<times> redis_module" where
  "get_redis_pool m =
     (if use_fallback m
      then (FallbackRedis,
            (case fallback m of None \<Rightarrow> m\<lparr>fallback := Some redis_init\<rparr> | Some _ \<Rightarrow> m))
      else (RealRedis, m\<lparr>has_pool := True\<rparr>))"

definition close_redis_pool :: "redis_module \<Rightarrow> redis_module" where
  "close_redis_pool m = m\<lparr>has_pool := False\<rparr>"

text \<open>
  \<open>probe\<close> is the outcome of building the real client and pinging it; the stand-in always answers.
  The status text has the URL or the exception in it.
\<close>

definition init_redis :: "string \<Rightarrow> exc option \<Rightarrow> (redis_module, exc, string) pm" where
  "init_redis url probe m =
     (case get_redis_pool m of
        (c, m') \<Rightarrow>
          (case (if c = RealRedis then probe else None) of
             None \<Rightarrow> (Inr (''connected ('' @ url @ '')''), m')
           | Some e \<Rightarrow>
               if is_exception e
               then (Inr (''unavailable ('' @ exc_msg e
                       @ '') - using in-process fallback (single-instance only)''),
                     close_redis_pool (m'\<lparr>use_fallback := True\<rparr>))
               else (Inl e, m')))"

section \<open>Typed helpers\<close>

definition serialise :: "json \<Rightarrow> string" where
  "serialise v = (case v of JStr s \<Rightarrow> s | _ \<Rightarrow> dumps v)"

definition cache_set :: "seconds \<Rightarrow> string \<Rightarrow> json \<Rightarrow> int option \<Rightarrow> redis \<Rightarrow> redis" where
  "cache_set now key v ttl r =
     (case ttl of
        None \<Rightarrow> redis_set key (serialise v) r
      | Some t \<Rightarrow> if t = 0 then redis_set key (serialise v) r else redis_setex now key t (serialise v) r)"

text \<open>Python's \<open>None\<close> is \<^const>\<open>JNull\<close>.\<close>

definition cache_get :: "seconds \<Rightarrow> string \<Rightarrow> redis \<Rightarrow> json \<times> redis" where
  "cache_get now key r =
     (case redis_get now key r of
        (None, r') \<Rightarrow> (JNull, r')
      | (Some raw, r') \<Rightarrow> ((case loads raw of Some v \<Rightarrow> v | None \<Rightarrow> JStr raw), r'))"

definition cache_delete :: "string \<Rightarrow> redis \<Rightarrow> redis" where
  "cache_delete key r = snd (redis_delete [key] r)"

definition cache_delete_pattern :: "seconds \<Rightarrow> string \<Rightarrow> redis \<Rightarrow> nat \<times> redis" where
  "cache_delete_pattern now pat r =
     redis_scan now pat (\<lambda>k n r. (Suc n, snd (redis_delete [k] r))) 0 r"

section \<open>Laws of the store\<close>

definition redis_wf :: "redis \<Rightarrow> bool" where
  "redis_wf r \<longleftrightarrow> dict_wf (store r) \<and> dict_wf (channels r)
     \<and> (\<forall>(c, subs) \<in> set (channels r). subs \<noteq> [] \<and> distinct subs \<and> (\<forall>q \<in> set subs. q < length (queues r)))"

text \<open>What a client can read at a given time: the entries that have not expired.\<close>

definition live :: "seconds \<Rightarrow> redis \<Rightarrow> string \<Rightarrow> string option" where
  "live now r k =
     (case dict_get (store r) k of
        None \<Rightarrow> None
      | Some (v, e) \<Rightarrow> (case e of None \<Rightarrow> Some v | Some t \<Rightarrow> if t \<le> now then None else Some v))"

lemma redis_get_live: "fst (redis_get now k r) = live now r k"
  by (auto simp: redis_get_def redis_expired_def live_def split: option.splits prod.splits)

lemma redis_expired_live [simp]: "fst (redis_expired now k r) \<longleftrightarrow> live now r k = None"
  by (auto simp: redis_expired_def live_def split: option.splits prod.splits)

lemma live_after_expired [simp]: "live now (snd (redis_expired now k r)) k' = live now r k'"
  by (auto simp: redis_expired_def live_def split: option.splits prod.splits)

lemma live_after_get: "live now (snd (redis_get now k r)) k' = live now r k'"
  by (auto simp: redis_get_def redis_expired_def live_def split: option.splits prod.splits)

lemma live_set: "live now (redis_set k v r) k' = (if k' = k then Some v else live now r k')"
  by (simp add: redis_set_def live_def)

lemma live_setex:
  "live t (redis_setex now k ttl v r) k' =
     (if k' = k then (if now + of_int ttl \<le> t then None else Some v) else live t r k')"
  by (simp add: redis_setex_def live_def)

lemma snd_redis_delete: "snd (redis_delete ks r) = r\<lparr>store := fold dict_pop ks (store r)\<rparr>"
  by (induction ks arbitrary: r) (simp_all add: Let_def case_prod_beta)

lemma dict_get_fold_pop: "dict_get (fold dict_pop ks d) k = (if k \<in> set ks then None else dict_get d k)"
  by (induction ks arbitrary: d) auto

lemma live_delete: "live now (snd (redis_delete ks r)) k = (if k \<in> set ks then None else live now r k)"
  by (simp add: snd_redis_delete live_def dict_get_fold_pop)

lemma redis_wf_store:
  "redis_wf r \<Longrightarrow> dict_wf s \<Longrightarrow> redis_wf (r\<lparr>store := s\<rparr>)"
  by (simp add: redis_wf_def)

lemma redis_wf_ops [simp, intro]:
  assumes "redis_wf r"
  shows "redis_wf (redis_set k v r)" "redis_wf (redis_setex now k ttl v r)"
    "redis_wf (snd (redis_expired now k r))" "redis_wf (snd (redis_delete ks r))"
proof -
  have w: "dict_wf (store r)" using assms by (simp add: redis_wf_def)
  show "redis_wf (redis_set k v r)" "redis_wf (redis_setex now k ttl v r)"
    unfolding redis_set_def redis_setex_def by (intro redis_wf_store assms dict_wf_set w)+
  show "redis_wf (snd (redis_expired now k r))"
    using assms w by (auto simp: redis_expired_def redis_wf_def split: option.splits)
  have "dict_wf (fold dict_pop ks (store r))"
    using py_dict.fold_del_get [OF w] by simp
  with assms show "redis_wf (snd (redis_delete ks r))"
    by (simp add: redis_wf_def snd_redis_delete)
qed

lemma redis_wf_init [simp]: "redis_wf redis_init"
  by (simp add: redis_wf_def redis_init_def)

interpretation redis_store: keyed_store
  "\<lambda>r k. fst (redis_get now k r)" redis_set "\<lambda>k r. snd (redis_delete [k] r)" redis_wf
  for now
  by unfold_locales (simp_all add: redis_get_live live_set live_delete del: redis_delete.simps)

section \<open>Deleting by pattern\<close>

lemma live_cong_expired: "live now (snd (redis_expired now k r)) = live now r"
  by (rule ext) simp

lemma scan_delete_live:
  "scan_loop now pat (\<lambda>k n r. (Suc n, snd (redis_delete [k] r))) ks n r = (m, r') \<Longrightarrow>
   live now r' k = (if k \<in> set ks \<and> fnmatch k pat then None else live now r k)"
proof (induction ks arbitrary: n r)
  case (Cons a ks)
  obtain e r1 where e: "redis_expired now a r = (e, r1)" by fastforce
  then have l: "live now r1 = live now r" and ex: "e \<longleftrightarrow> live now r a = None"
    using live_cong_expired [of now a r] redis_expired_live [of now a r] by simp_all
  show ?case
  proof (cases e)
    case True
    with Cons e l ex show ?thesis by auto
  next
    case False
    note e' = e and l' = l
    show ?thesis
    proof (cases "fnmatch a pat")
      case True
      with Cons.prems e False
      have "scan_loop now pat (\<lambda>k n r. (Suc n, snd (redis_delete [k] r))) ks (Suc n)
          (snd (redis_delete [a] r1)) = (m, r')"
        by (simp del: redis_delete.simps)
      from Cons.IH [OF this] True l show ?thesis
        by (auto simp: live_delete simp del: redis_delete.simps)
    next
      case nomatch: False
      with Cons e False l show ?thesis by auto
    qed
  qed
qed simp

lemma scan_delete_count:
  "distinct ks \<Longrightarrow>
   scan_loop now pat (\<lambda>k n r. (Suc n, snd (redis_delete [k] r))) ks n r = (m, r') \<Longrightarrow>
   m = n + length (filter (\<lambda>k. fnmatch k pat \<and> live now r k \<noteq> None) ks)"
proof (induction ks arbitrary: n r)
  case (Cons a ks)
  obtain e r1 where e: "redis_expired now a r = (e, r1)" by fastforce
  then have l: "live now r1 = live now r" and ex: "e \<longleftrightarrow> live now r a = None"
    using live_cong_expired [of now a r] redis_expired_live [of now a r] by simp_all
  have other: "filter (\<lambda>k. fnmatch k pat \<and> live now (snd (redis_delete [a] r1)) k \<noteq> None) ks
      = filter (\<lambda>k. fnmatch k pat \<and> live now r k \<noteq> None) ks"
    using Cons.prems(1) l by (intro filter_cong) (auto simp: live_delete simp del: redis_delete.simps)
  show ?case
  proof (cases "\<not> e \<and> fnmatch a pat")
    case True
    with Cons.prems e
    have "scan_loop now pat (\<lambda>k n r. (Suc n, snd (redis_delete [k] r))) ks (Suc n)
        (snd (redis_delete [a] r1)) = (m, r')"
      by (simp del: redis_delete.simps)
    from Cons.IH [OF _ this] Cons.prems(1) other True ex show ?thesis by simp
  next
    case False
    with Cons.prems e
    have "scan_loop now pat (\<lambda>k n r. (Suc n, snd (redis_delete [k] r))) ks n r1 = (m, r')"
      by (cases e) (auto simp del: redis_delete.simps)
    from Cons.IH [OF _ this] Cons.prems(1) False ex l show ?thesis by auto
  qed
qed simp

lemma live_in_store: "live now r k \<noteq> None \<Longrightarrow> k \<in> set (map fst (store r))"
  using dict_get_None_iff [of "store r" k] by (auto simp: live_def)

text \<open>Deleting by pattern removes exactly the keys that match, leaves every other key readable
as before, and reports how many readable keys it removed.\<close>

theorem cache_delete_pattern_exact:
  assumes "redis_wf r" and "cache_delete_pattern now pat r = (n, r')"
  shows "(\<forall>k. live now r' k = (if fnmatch k pat then None else live now r k))
    \<and> n = card {k. live now r k \<noteq> None \<and> fnmatch k pat}"
proof
  let ?ks = "map fst (store r)"
  from assms(2) have scan:
    "scan_loop now pat (\<lambda>k n r. (Suc n, snd (redis_delete [k] r))) ?ks 0 r = (n, r')"
    by (simp add: cache_delete_pattern_def redis_scan_def)
  show "\<forall>k. live now r' k = (if fnmatch k pat then None else live now r k)"
    using scan_delete_live [OF scan] live_in_store [of now r] by fastforce
  have d: "distinct ?ks" using assms(1) by (simp add: redis_wf_def dict_wf_def)
  have "{k. live now r k \<noteq> None \<and> fnmatch k pat} = set (filter (\<lambda>k. fnmatch k pat \<and> live now r k \<noteq> None) ?ks)"
    using live_in_store [of now r] by auto
  then show "n = card {k. live now r k \<noteq> None \<and> fnmatch k pat}"
    using scan_delete_count [OF d scan] distinct_card [OF distinct_filter [OF d]] by simp
qed

section \<open>Values read back\<close>

lemma cache_get_live:
  "fst (cache_get now k r) =
     (case live now r k of None \<Rightarrow> JNull
      | Some raw \<Rightarrow> (case loads raw of Some v \<Rightarrow> v | None \<Rightarrow> JStr raw))"
  using redis_get_live [of now k r]
  by (auto simp: cache_get_def split: prod.splits option.splits)

lemma live_cache_set:
  "live t (cache_set now k v ttl r) k' =
     (if k' = k then
        (case ttl of Some s \<Rightarrow> if s \<noteq> 0 \<and> now + of_int s \<le> t then None else Some (serialise v)
         | None \<Rightarrow> Some (serialise v))
      else live t r k')"
  by (auto simp: cache_set_def live_set live_setex split: option.splits)

lemma loads_serialise: "json_wf v \<Longrightarrow> \<not> is_str v \<Longrightarrow> loads (serialise v) = Some v"
  by (cases v) (simp_all add: serialise_def json_codec.dec_enc del: dumps.simps)

text \<open>C16.  A JSON value other than a string that is cached under a key is read back unchanged until
its time to live has passed and as a miss from then on; other keys read as before.\<close>

theorem cache_roundtrip:
  assumes "json_wf v" and "\<not> is_str v"
  shows "fst (cache_get t k (cache_set now k v ttl r)) =
           (case ttl of Some s \<Rightarrow> if s \<noteq> 0 \<and> now + of_int s \<le> t then JNull else v | None \<Rightarrow> v)
    \<and> (\<forall>k'. k' \<noteq> k \<longrightarrow> fst (cache_get t k' (cache_set now k v ttl r)) = fst (cache_get t k' r))"
  using loads_serialise [OF assms]
  by (auto simp: cache_get_live live_cache_set split: option.splits)

text \<open>A string is cached verbatim but read through the JSON parser: it comes back unchanged
exactly when it is not itself JSON text, so the string \<open>5\<close> is read back as a number.\<close>

theorem cache_string_reparsed:
  "fst (cache_get t k (cache_set now k (JStr s) None r)) = (case loads s of None \<Rightarrow> JStr s | Some v \<Rightarrow> v)
   \<and> fst (cache_get t k (cache_set now k (JStr ''5'') None r)) = JInt 5"
proof -
  have "loads ''5'' = Some (JInt 5)"
    by code_simp
  then show ?thesis
    by (auto simp: cache_get_live live_cache_set serialise_def split: option.splits)
qed

section \<open>Laws of the channels\<close>

text \<open>
  What the event bus relies on: a published message is appended to the queue of every subscriber
  of its channel and to no other queue, and publishing changes no subscription.
\<close>

locale channel_hub =
  fixes publish :: "string \<Rightarrow> string \<Rightarrow> 'r \<Rightarrow> 'r"
    and subs :: "'r \<Rightarrow> string \<Rightarrow> nat set"
    and queue :: "'r \<Rightarrow> nat \<Rightarrow> string list"
    and ok :: "'r \<Rightarrow> bool"
  assumes queue_publish:
      "ok r \<Longrightarrow> queue (publish c m r) q = (if q \<in> subs r c then queue r q @ [m] else queue r q)"
    and subs_publish: "ok r \<Longrightarrow> subs (publish c m r) = subs r"
    and ok_publish: "ok r \<Longrightarrow> ok (publish c m r)"
begin

lemma queue_publish_list:
  "ok r \<Longrightarrow> queue (fold (\<lambda>(c, m). publish c m) ps r) q
     = queue r q @ map snd (filter (\<lambda>(c, m). q \<in> subs r c) ps)"
proof (induction ps arbitrary: r)
  case (Cons p ps)
  obtain c m where p: "p = (c, m)" by (cases p)
  from Cons.prems have "ok (publish c m r)" by (rule ok_publish)
  from Cons.IH [OF this] Cons.prems p show ?case
    by (simp add: queue_publish subs_publish)
qed simp

end

definition subscribers :: "redis \<Rightarrow> string \<Rightarrow> nat set" where
  "subscribers r c = set (dict_get_or (channels r) c [])"

definition queue_of :: "redis \<Rightarrow> nat \<Rightarrow> string list" where
  "queue_of r q = (if q < length (queues r) then queues r ! q else [])"

lemma length_queue_put [simp]: "length (queue_put m q qs) = length qs"
  by (simp add: queue_put_def)

lemma length_fold_queue_put [simp]: "length (fold (queue_put m) ss qs) = length qs"
  by (induction ss arbitrary: qs) auto

lemma fold_queue_put:
  "distinct ss \<Longrightarrow> q < length qs \<Longrightarrow>
   fold (queue_put m) ss qs ! q = (if q \<in> set ss then qs ! q @ [m] else qs ! q)"
proof (induction ss arbitrary: qs)
  case (Cons a ss)
  have "queue_put m a qs ! q = (if q = a then qs ! q @ [m] else qs ! q)"
    using Cons.prems by (simp add: queue_put_def)
  with Cons show ?case by (auto split: if_splits)
qed simp

lemma redis_wf_channel:
  assumes "redis_wf r" "dict_get (channels r) c = Some ss"
  shows "ss \<noteq> []" "distinct ss" "\<And>q. q \<in> set ss \<Longrightarrow> q < length (queues r)"
  using assms map_of_SomeD [of "channels r" c ss] by (auto simp: redis_wf_def)

lemma redis_wf_publish: "redis_wf r \<Longrightarrow> redis_wf (snd (redis_publish c m r))"
  by (auto simp: redis_publish_def redis_wf_def split: option.splits)

interpretation redis_hub: channel_hub "\<lambda>c m r. snd (redis_publish c m r)" subscribers queue_of redis_wf
proof
  fix r c m q
  assume w: "redis_wf r"
  show "queue_of (snd (redis_publish c m r)) q =
      (if q \<in> subscribers r c then queue_of r q @ [m] else queue_of r q)"
    using redis_wf_channel [OF w]
    by (auto simp: redis_publish_def queue_of_def subscribers_def dict_get_or_def fold_queue_put
        split: option.splits)
  show "subscribers (snd (redis_publish c m r)) = subscribers r"
    by (auto simp: redis_publish_def subscribers_def fun_eq_iff split: option.splits)
  show "redis_wf (snd (redis_publish c m r))" by (rule redis_wf_publish [OF w])
qed

section \<open>The life of a subscription\<close>

lemma redis_wf_pubsub: "redis_wf r \<Longrightarrow> redis_wf (snd (redis_pubsub r))"
  by (force simp: redis_pubsub_def redis_wf_def)

lemma subscribers_bound: "redis_wf r \<Longrightarrow> q \<in> subscribers r c \<Longrightarrow> q < length (queues r)"
  using redis_wf_channel(3) [of r c]
  by (cases "dict_get (channels r) c") (auto simp: subscribers_def dict_get_or_def)

lemma subscribers_subscribe:
  "subscribers (snd (ps_subscribe c ps r)) d =
     (if d = c then insert (ps_queue ps) (subscribers r c) else subscribers r d)"
  by (cases "dict_get (channels r) c") (auto simp: ps_subscribe_def subscribers_def dict_get_or_def)

lemma set_dict_set: "dict_wf d \<Longrightarrow> set (dict_set k v d) = insert (k, v) {p \<in> set d. fst p \<noteq> k}"
  by (induction d) (force simp: dict_wf_def)+

lemma set_dict_pop: "set (dict_pop k d) = {p \<in> set d. fst p \<noteq> k}"
  by (auto simp: AList.delete_eq)

lemma redis_wf_subscribe:
  assumes w: "redis_wf r" and q: "ps_queue ps < length (queues r)"
  shows "redis_wf (snd (ps_subscribe c ps r))"
proof -
  let ?old = "dict_get_or (channels r) c []"
  have old: "distinct ?old" "\<And>q. q \<in> set ?old \<Longrightarrow> q < length (queues r)"
    using redis_wf_channel [OF w, of c]
    by (cases "dict_get (channels r) c"; auto simp: dict_get_or_def)+
  have "List.insert (ps_queue ps) ?old \<noteq> []" by (cases ?old) (auto simp: List.insert_def)
  then show ?thesis
    using w q old by (auto simp: ps_subscribe_def redis_wf_def set_dict_set)
qed

lemma redis_wf_unsubscribe_one:
  assumes w: "redis_wf r"
  shows "redis_wf (snd (unsubscribe_one c (ps, r)))"
proof (cases "dict_get (channels r) c")
  case None
  with w show ?thesis by (simp add: unsubscribe_one_def)
next
  case (Some ss)
  let ?ss = "removeAll (ps_queue ps) ss"
  have "distinct ?ss" "\<forall>q \<in> set ?ss. q < length (queues r)"
    using redis_wf_channel [OF w Some] by (auto simp: distinct_removeAll)
  moreover have "dict_wf (channels r)" "dict_wf (store r)" using w by (auto simp: redis_wf_def)
  moreover have "\<forall>(c, subs) \<in> set (channels r).
      subs \<noteq> [] \<and> distinct subs \<and> (\<forall>q \<in> set subs. q < length (queues r))"
    using w by (simp add: redis_wf_def)
  ultimately show ?thesis
    using Some by (simp add: unsubscribe_one_def Let_def redis_wf_def set_dict_set set_dict_pop)
qed

lemma subscribers_unsubscribe_one:
  "subscribers (snd (unsubscribe_one c (ps, r))) d =
     (if d = c then subscribers r c - {ps_queue ps} else subscribers r d)"
proof (cases "dict_get (channels r) c")
  case None
  then show ?thesis by (auto simp: unsubscribe_one_def subscribers_def dict_get_or_def)
next
  case (Some ss)
  have "removeAll (ps_queue ps) ss = [] \<longleftrightarrow> set ss - {ps_queue ps} = {}"
    by (metis set_removeAll set_empty)
  with Some show ?thesis
    by (auto simp: unsubscribe_one_def subscribers_def dict_get_or_def Let_def)
qed

lemma ps_queue_unsubscribe_one [simp]: "ps_queue (fst (unsubscribe_one c p)) = ps_queue (fst p)"
  by (cases p) (simp add: unsubscribe_one_def)

lemma fold_unsubscribe:
  "redis_wf (snd p) \<Longrightarrow>
   redis_wf (snd (fold unsubscribe_one cs p)) \<and>
   subscribers (snd (fold unsubscribe_one cs p)) d =
     (if d \<in> set cs then subscribers (snd p) d - {ps_queue (fst p)} else subscribers (snd p) d)"
proof (induction cs arbitrary: p)
  case (Cons c cs)
  obtain ps r where p: "p = (ps, r)" by (cases p)
  have "redis_wf (snd (unsubscribe_one c p))"
    using Cons.prems p redis_wf_unsubscribe_one by simp
  from Cons.IH [OF this] p subscribers_unsubscribe_one [of c ps r d]
  show ?case using ps_queue_unsubscribe_one [of c p] by auto
qed simp

lemma subscription_facts:
  assumes w: "redis_wf r" and new: "redis_pubsub r = (ps, r1)" and sub: "ps_subscribe c ps r1 = (ps2, r2)"
    and pub: "r3 = fold (\<lambda>(ch, m) r. snd (redis_publish ch m r)) msgs r2"
    and close: "ps_aclose ps2 r3 = (ps4, r4)"
  shows "queue_of r3 (ps_queue ps) = map snd (filter (\<lambda>p. fst p = c) msgs)
    \<and> redis_wf r4
    \<and> (\<forall>q d. q \<in> subscribers r4 d \<longleftrightarrow> q \<noteq> ps_queue ps \<and> q \<in> subscribers r d)"
proof -
  let ?q = "ps_queue ps"
  have r1: "?q = length (queues r)" "r1 = r\<lparr>queues := queues r @ [[]]\<rparr>" "ps_channels ps = []"
    using new by (auto simp: redis_pubsub_def)
  have wf2: "redis_wf r2"
    using redis_wf_subscribe [of r1 ps c] redis_wf_pubsub [OF w] new sub r1 by simp
  have fresh: "?q \<notin> subscribers r d" for d
    using subscribers_bound [OF w] r1(1) by fastforce
  have s1: "subscribers r1 = subscribers r" using r1 by (simp add: subscribers_def fun_eq_iff)
  have s2: "subscribers r2 d = (if d = c then insert ?q (subscribers r c) else subscribers r d)" for d
    using subscribers_subscribe [of c ps r1 d] sub s1 by simp
  have q2: "queue_of r2 ?q = []"
    using sub r1 by (auto simp: ps_subscribe_def queue_of_def nth_append)
  have queue: "queue_of r3 ?q = map snd (filter (\<lambda>p. fst p = c) msgs)"
    using redis_hub.queue_publish_list [OF wf2, of msgs ?q] q2 pub fresh s2
    by (simp add: case_prod_beta cong: filter_cong)
  have "redis_wf (fold (\<lambda>(ch, m) r. snd (redis_publish ch m r)) msgs r2)
      \<and> subscribers (fold (\<lambda>(ch, m) r. snd (redis_publish ch m r)) msgs r2) = subscribers r2"
    using wf2
    by (induction msgs arbitrary: r2)
      (auto simp: case_prod_beta redis_hub.subs_publish redis_hub.ok_publish)
  then have r3: "redis_wf r3" "subscribers r3 = subscribers r2" using pub by simp_all
  have ps2: "ps_channels ps2 = [c]" "ps_queue ps2 = ?q"
    using sub r1 by (auto simp: ps_subscribe_def)
  have "r4 = snd (fold unsubscribe_one [c] (ps2, r3))"
    using close ps2 by (simp add: ps_aclose_def ps_unsubscribe_def)
  then have "redis_wf r4" "subscribers r4 d = (if d = c then subscribers r3 c - {?q} else subscribers r3 d)" for d
    using fold_unsubscribe [of "(ps2, r3)" "[c]" d] r3(1) ps2 by auto
  then show ?thesis using queue r3(2) s2 fresh by auto
qed

text \<open>A new subscription to a channel receives, in order, exactly the messages published on that
channel while it is open; closing it removes its queue from the hub and leaves every other
subscription as it was.\<close>

theorem subscription_lifecycle:
  assumes w: "redis_wf r" and new: "redis_pubsub r = (ps, r1)" and sub: "ps_subscribe c ps r1 = (ps2, r2)"
    and pub: "r3 = fold (\<lambda>(ch, m) r. snd (redis_publish ch m r)) msgs r2"
    and close: "ps_aclose ps2 r3 = (ps4, r4)"
  shows "queue_of r3 (ps_queue ps) = map snd (filter (\<lambda>p. fst p = c) msgs)
    \<and> redis_wf r4
    \<and> (\<forall>q d. q \<in> subscribers r4 d \<longleftrightarrow> q \<noteq> ps_queue ps \<and> q \<in> subscribers r d)"
  by (rule subscription_facts [OF assms])

theorem subscription_lifecycle_witness:
  "queue_of (fold (\<lambda>(ch, m) r. snd (redis_publish ch m r)) [(''c'', ''a''), (''d'', ''b''), (''c'', ''e'')]
      (snd (ps_subscribe ''c'' (fst (redis_pubsub redis_init)) (snd (redis_pubsub redis_init)))))
    (ps_queue (fst (redis_pubsub redis_init))) = [''a'', ''e'']"
  using subscription_lifecycle [OF redis_wf_init prod.collapse [symmetric] prod.collapse [symmetric]
      refl prod.collapse [symmetric],
      where c = "''c''" and msgs = "[(''c'', ''a''), (''d'', ''b''), (''c'', ''e'')]"] by simp

theorem cache_roundtrip_witness:
  "fst (cache_get 10 ''k'' (cache_set 0 ''k'' (JList [JInt 1, JStr ''a'']) (Some 30) redis_init))
     = JList [JInt 1, JStr ''a'']
   \<and> fst (cache_get 30 ''k'' (cache_set 0 ''k'' (JList [JInt 1, JStr ''a'']) (Some 30) redis_init)) = JNull"
  using cache_roundtrip [of "JList [JInt 1, JStr ''a'']" 10 "''k''" 0 "Some 30" redis_init]
    cache_roundtrip [of "JList [JInt 1, JStr ''a'']" 30 "''k''" 0 "Some 30" redis_init]
  by simp

theorem cache_delete_pattern_exact_witness:
  "live 0 (snd (cache_delete_pattern 0 ''a*'' (redis_set ''ab'' ''1'' (redis_set ''b'' ''2'' redis_init)))) ''ab'' = None
   \<and> live 0 (snd (cache_delete_pattern 0 ''a*'' (redis_set ''ab'' ''1'' (redis_set ''b'' ''2'' redis_init)))) ''b''
     = Some ''2''"
proof -
  let ?r = "redis_set ''ab'' ''1'' (redis_set ''b'' ''2'' redis_init)"
  have "redis_wf ?r" by simp
  from cache_delete_pattern_exact [OF this prod.collapse [symmetric], of 0 "''a*''"]
  have "\<forall>k. live 0 (snd (cache_delete_pattern 0 ''a*'' ?r)) k = (if fnmatch k ''a*'' then None else live 0 ?r k)"
    by blast
  moreover have "fnmatch ''ab'' ''a*''" "\<not> fnmatch ''b'' ''a*''" by code_simp+
  ultimately show ?thesis by (simp add: live_set)
qed

section \<open>Falling back\<close>

text \<open>When the probe of the real server fails with an ordinary exception, start-up does not
raise, the real pool is dropped, and every later request for the shared client gets the in-process
stand-in, always the same one.\<close>

theorem init_redis_degrades:
  assumes "is_exception e" and "\<not> use_fallback m" and "init_redis url (Some e) m = (res, m')"
  shows "(\<exists>msg. res = Inr msg) \<and> \<not> has_pool m' \<and> fst (get_redis_pool m') = FallbackRedis
    \<and> get_redis_pool (snd (get_redis_pool m')) = (FallbackRedis, snd (get_redis_pool m'))"
  using assms
  by (auto simp: init_redis_def get_redis_pool_def close_redis_pool_def split: option.splits)

theorem init_redis_degrades_witness:
  "fst (get_redis_pool (snd (init_redis ''redis://localhost'' (Some (Exc ConnectionErr ''refused''))
      \<lparr>has_pool = False, fallback = None, use_fallback = False\<rparr>))) = FallbackRedis"
  using init_redis_degrades [OF _ _ prod.collapse [symmetric],
      of "Exc ConnectionErr ''refused''" "\<lparr>has_pool = False, fallback = None, use_fallback = False\<rparr>"
        "''redis://localhost''"]
  by (simp add: is_exception_iff)

end
