(* ===== verification/Event_Bus.thy ===== *)
theory Event_Bus
  imports Redis_Cache
begin

text \<open>
  The event bus of \<open>app/core/streaming/event_bus.py\<close> and the audit log of
  \<open>app/services/audit_service.py\<close>.  Producers publish JSON payloads on the channel of an
  invocation; a failing publish is logged and dropped, and on the in-process client, which is the
  one modelled, it does not fail.  The consumer is a generator that polls its subscription: the
  model takes the list of its polls, each with the clock reading at the head of the loop and what
  the poll returned, and gives the events it yields and how it stopped.
\<close>

section \<open>Publishing\<close>

record event =
  ev_type :: string
  ev_data :: json
  ev_final :: bool

definition event_json :: "event \<Rightarrow> json" where
  "event_json e = JObj [(''type'', JStr (ev_type e)), (''data'', ev_data e), (''final'', JBool (ev_final e))]"

definition bus_publish :: "string \<Rightarrow> string \<Rightarrow> json \<Rightarrow> bool \<Rightarrow> redis \<Rightarrow> redis" where
  "bus_publish invocation_id event_type data is_final r =
     (let channel = key_invocation_events invocation_id;
          payload = dumps (event_json \<lparr>ev_type = event_type, ev_data = data, ev_final = is_final\<rparr>)
      in snd (redis_publish channel payload r))"

definition log_data :: "string \<Rightarrow> string \<Rightarrow> json" where
  "log_data level message = JObj [(''level'', JStr level), (''message'', JStr message)]"

definition publish_log :: "string \<Rightarrow> string \<Rightarrow> string \<Rightarrow> redis \<Rightarrow> redis" where
  "publish_log i level message r = bus_publish i ''log'' (log_data level message) False r"

definition publish_result :: "string \<Rightarrow> json \<Rightarrow> redis \<Rightarrow> redis" where
  "publish_result i result r = bus_publish i ''result'' result True r"

definition publish_error :: "string \<Rightarrow> string \<Rightarrow> redis \<Rightarrow> redis" where
  "publish_error i error r = bus_publish i ''error'' (JObj [(''error'', JStr error)]) True r"

definition audit_log :: "string \<Rightarrow> string \<Rightarrow> string \<Rightarrow> redis \<Rightarrow> redis" where
  "audit_log i level message r = publish_log i level message r"

definition log_invocation_start :: "string \<Rightarrow> string \<Rightarrow> redis \<Rightarrow> redis" where
  "log_invocation_start i tool r = audit_log i ''info'' (''Invocation started: '' @ tool) r"

definition log_invocation_end :: "string \<Rightarrow> string \<Rightarrow> redis \<Rightarrow> redis" where
  "log_invocation_end i status r = audit_log i ''info'' (''Invocation ended: '' @ status) r"

section \<open>Subscribing\<close>

datatype poll = NoMessage | OtherMessage | Message string

datatype sub_end = SubFinal | SubTimeout | SubError exc | SubOpen

definition poll_timeout :: "seconds \<Rightarrow> seconds" where
  "poll_timeout remaining = min remaining 5"

fun sub_loop :: "seconds \<Rightarrow> (seconds \<times> poll) list \<Rightarrow> json list \<times> sub_end" where
  "sub_loop deadline [] = ([], SubOpen)"
| "sub_loop deadline ((now, p) # ps) =
     (if deadline - now \<le> 0 then ([], SubTimeout)
      else
        (case p of
           NoMessage \<Rightarrow> sub_loop deadline ps
         | OtherMessage \<Rightarrow> sub_loop deadline ps
         | Message m \<Rightarrow>
             (case loads m of
                None \<Rightarrow> sub_loop deadline ps
              | Some (JObj d) \<Rightarrow>
                  if truthy (jget d ''final'') then ([JObj d], SubFinal)
                  else (case sub_loop deadline ps of (evs, x) \<Rightarrow> (JObj d # evs, x))
              | Some v \<Rightarrow> ([v], SubError (Exc AttributeErr ''object has no attribute get'')))))"

text \<open>The set-up and the clean-up of the generator around the loop.\<close>

definition bus_subscribe :: "string \<Rightarrow> redis \<Rightarrow> pubsub \<times> redis" where
  "bus_subscribe i r =
     (case redis_pubsub r of (ps, r1) \<Rightarrow> ps_subscribe (key_invocation_events i) ps r1)"

definition bus_cleanup :: "string \<Rightarrow> pubsub \<Rightarrow> redis \<Rightarrow> redis" where
  "bus_cleanup i ps r =
     (case ps_unsubscribe (Some (key_invocation_events i)) ps r of (ps1, r1) \<Rightarrow> snd (ps_aclose ps1 r1))"

section \<open>What a subscriber sees\<close>

fun until_final :: "event list \<Rightarrow> event list" where
  "until_final [] = []"
| "until_final (e # es) = (if ev_final e then [e] else e # until_final es)"

lemma event_json_wf: "json_wf (event_json e) \<longleftrightarrow> json_wf (ev_data e)"
  by (simp add: event_json_def)

lemma loads_event: "json_wf (ev_data e) \<Longrightarrow> loads (dumps (event_json e)) = Some (event_json e)"
  by (rule json_codec.dec_enc) (simp add: event_json_wf)

lemma event_final: "truthy (jget [(''type'', JStr t), (''data'', d), (''final'', JBool f)] ''final'') = f"
  by (simp add: truthy_def jget_def dict_get_or_def)

lemma sub_loop_events:
  assumes "\<And>e. e \<in> set es \<Longrightarrow> json_wf (ev_data e)" and "now < deadline"
  shows "sub_loop deadline (map (\<lambda>e. (now, Message (dumps (event_json e)))) es) =
    (map event_json (until_final es), if \<exists>e \<in> set es. ev_final e then SubFinal else SubOpen)"
  using assms(1)
proof (induction es)
  case (Cons e es)
  obtain d where d: "event_json e = JObj d" "d = [(''type'', JStr (ev_type e)), (''data'', ev_data e), (''final'', JBool (ev_final e))]"
    by (simp add: event_json_def)
  from Cons.prems have "loads (dumps (event_json e)) = Some (JObj d)"
    using loads_event [of e] d(1) by simp
  with Cons assms(2) show ?case
    using event_final [of "ev_type e" "ev_data e" "ev_final e"] d
    by (simp del: dumps.simps)
qed simp

text \<open>A subscriber of an invocation that is listening before its deadline yields, in order and
unchanged, the events published for that invocation up to and including the first final one, whatever is published for other
invocations meanwhile; with a final event it stops there, without one it keeps waiting.\<close>

theorem bus_delivers_until_final:
  assumes w: "redis_wf r" and sub: "bus_subscribe i r = (ps, r1)"
    and wf: "\<forall>(j, e) \<in> set pubs. json_wf (ev_data e)"
    and r2: "r2 = fold (\<lambda>(j, e) r. bus_publish j (ev_type e) (ev_data e) (ev_final e) r) pubs r1"
    and es: "es = map snd (filter (\<lambda>p. fst p = i) pubs)"
    and now: "now < deadline"
  shows "sub_loop deadline (map (\<lambda>m. (now, Message m)) (queue_of r2 (ps_queue ps)))
     = (map event_json (until_final es), if \<exists>e \<in> set es. ev_final e then SubFinal else SubOpen)"
proof -
  obtain ps0 r0 where p0: "redis_pubsub r = (ps0, r0)" by fastforce
  let ?c = "key_invocation_events i"
  let ?msgs = "map (\<lambda>(j, e). (key_invocation_events j, dumps (event_json e))) pubs"
  have s: "ps_subscribe ?c ps0 r0 = (ps, r1)"
    using sub p0 by (simp add: bus_subscribe_def)
  then have q: "ps_queue ps = ps_queue ps0" by (auto simp: ps_subscribe_def)
  have "fold (\<lambda>(j, e) r. bus_publish j (ev_type e) (ev_data e) (ev_final e) r) ps x
      = fold (\<lambda>(ch, m) r. snd (redis_publish ch m r))
          (map (\<lambda>(j, e). (key_invocation_events j, dumps (event_json e))) ps) x" for ps x
    by (induction ps arbitrary: x) (auto simp: bus_publish_def Let_def event_json_def)
  then have "r2 = fold (\<lambda>(ch, m) r. snd (redis_publish ch m r)) ?msgs r1" using r2 by simp
  then have "queue_of r2 (ps_queue ps0) = map snd (filter (\<lambda>p. fst p = ?c) ?msgs)"
    using subscription_facts [OF w p0 s _ prod.collapse [symmetric]] by simp
  also have "\<dots> = map (\<lambda>e. dumps (event_json e)) es"
    unfolding es by (induction pubs) (auto simp: key_invocation_events_inj)
  finally have "map (\<lambda>m. (now, Message m)) (queue_of r2 (ps_queue ps))
      = map (\<lambda>e. (now, Message (dumps (event_json e)))) es"
    by (simp add: q)
  moreover have "json_wf (ev_data e)" if "e \<in> set es" for e
    using that wf es by auto
  ultimately show ?thesis using sub_loop_events [OF _ now] by simp
qed

text \<open>C19.  The generator stops: once a pass of the loop starts at or after the deadline, it has ended,
by the time-out, a final event or a malformed event, and it yields nothing from that pass on.\<close>

theorem sub_loop_stops:
  assumes "\<exists>(t, p) \<in> set polls. deadline \<le> t"
  shows "snd (sub_loop deadline polls) \<noteq> SubOpen
    \<and> length (fst (sub_loop deadline polls)) \<le> length (takeWhile (\<lambda>tp. fst tp < deadline) polls)"
  using assms
proof (induction polls)
  case (Cons tp polls)
  obtain t p where tp: "tp = (t, p)" by (cases tp)
  show ?case
  proof (cases "t < deadline")
    case True
    with Cons.prems tp have "\<exists>(t, p) \<in> set polls. deadline \<le> t" by auto
    from Cons.IH [OF this] True tp show ?thesis
      by (auto split: poll.splits option.splits json.splits prod.splits)
  qed (simp add: tp)
qed simp

theorem bus_delivers_until_final_witness:
  "sub_loop 300 (map (\<lambda>m. (0, Message m)) (queue_of
      (fold (\<lambda>(j, e) r. bus_publish j (ev_type e) (ev_data e) (ev_final e) r)
        [(''1'', \<lparr>ev_type = ''log'', ev_data = JNull, ev_final = False\<rparr>),
         (''2'', \<lparr>ev_type = ''log'', ev_data = JNull, ev_final = False\<rparr>),
         (''1'', \<lparr>ev_type = ''result'', ev_data = JInt 3, ev_final = True\<rparr>),
         (''1'', \<lparr>ev_type = ''log'', ev_data = JNull, ev_final = False\<rparr>)]
        (snd (bus_subscribe ''1'' redis_init)))
      (ps_queue (fst (bus_subscribe ''1'' redis_init)))))
   = ([event_json \<lparr>ev_type = ''log'', ev_data = JNull, ev_final = False\<rparr>,
       event_json \<lparr>ev_type = ''result'', ev_data = JInt 3, ev_final = True\<rparr>], SubFinal)"
  by (subst bus_delivers_until_final [OF redis_wf_init prod.collapse [symmetric] _ refl refl]) simp_all

theorem sub_loop_stops_witness:
  "snd (sub_loop 300 [(299, NoMessage), (304, NoMessage)]) \<noteq> SubOpen"
  using sub_loop_stops [of "[(299, NoMessage), (304, NoMessage)]" 300] by simp

end
