(* ===== verification/Mcp_Client.thy ===== *)
theory Mcp_Client
  imports Mcp_Errors
begin

text \<open>
  Outbound calls, \<open>asyncio.wait_for\<close>, and the client of remote MCP servers,
  \<open>app/core/protocol/mcp_client.py\<close>.  The network is outside the service: the record \<open>net_env\<close>
  gives, for the \<open>n\<close>-th outbound operation, how long it takes and how it ends, so that the same
  request may end differently each time.  The world records every operation that was started, the
  clock, and the deadlines of the \<open>wait_for\<close> calls the running coroutine is inside of, innermost
  first.  An operation that would end after the earliest pending deadline is cut off there by a
  cancellation, once: a deadline that has fired is replaced by \<open>None\<close>, so that clean-up code runs on
  as it does after a cancellation was delivered.  An environment may also end any operation with \<open>CancelledError\<close>, which is how a task is cancelled
  from outside.  The functions are polymorphic in the fields later theories add to the world.
\<close>

section \<open>Outbound operations\<close>

record http_req =
  rq_method :: string
  rq_url :: string
  rq_headers :: "(string, string) dict"
  rq_json :: "json option"

record http_resp =
  rp_status :: int
  rp_json :: "json option"
  rp_text :: string

record sdk_session =
  ss_id :: nat
  ss_name :: string
  ss_version :: string
  ss_capabilities :: "jdict option"

record sdk_tool =
  st_name :: string
  st_description :: "string option"
  st_schema :: json

record sdk_result =
  sr_content :: "(string \<times> string) list"
  sr_is_error :: "bool option"

datatype netop =
    NOpen string string
  | NSessionCall nat string jdict
  | NSessionList nat
  | NSessionClose nat
  | NHttp http_req
  | NThread string
  | NSandbox string nat
  | NSleep seconds
  | NWebSocket string

record net_env =
  ne_open :: "nat \<Rightarrow> string \<Rightarrow> string \<Rightarrow> seconds \<times> (exc + sdk_session)"
  ne_call :: "nat \<Rightarrow> nat \<Rightarrow> string \<Rightarrow> jdict \<Rightarrow> seconds \<times> (exc + sdk_result)"
  ne_list :: "nat \<Rightarrow> nat \<Rightarrow> seconds \<times> (exc + sdk_tool list)"
  ne_close :: "nat \<Rightarrow> nat \<Rightarrow> seconds \<times> (exc + unit)"
  ne_http :: "nat \<Rightarrow> http_req \<Rightarrow> seconds \<times> (exc + http_resp)"

record net_world =
  nw_log :: "netop list"
  nw_now :: seconds
  nw_deadlines :: "seconds option list"

definition cancelled_exc :: exc where
  "cancelled_exc = Exc CancelledErr []"

fun earliest :: "seconds option list \<Rightarrow> seconds option" where
  "earliest [] = None"
| "earliest (None # ds) = earliest ds"
| "earliest (Some d # ds) = (case earliest ds of None \<Rightarrow> Some d | Some e \<Rightarrow> Some (min d e))"

fun fire :: "seconds \<Rightarrow> seconds option list \<Rightarrow> seconds option list" where
  "fire d [] = []"
| "fire d (x # ds) = (if x = Some d then None # ds else x # fire d ds)"

definition net_op :: "netop \<Rightarrow> seconds \<times> (exc + 'a) \<Rightarrow> ('w net_world_scheme, exc, 'a) pm" where
  "net_op op res w =
     (let t = nw_now w + fst res; w' = w\<lparr>nw_log := nw_log w @ [op]\<rparr>; go = (snd res, w'\<lparr>nw_now := t\<rparr>) in
      case earliest (nw_deadlines w) of
        Some dl \<Rightarrow>
          if dl < t then (Inl cancelled_exc, w'\<lparr>nw_now := max (nw_now w) dl, nw_deadlines := fire dl (nw_deadlines w)\<rparr>)
          else go
      | None \<Rightarrow> go)"

definition net_tick :: "'w net_world_scheme \<Rightarrow> nat" where
  "net_tick w = length (nw_log w)"

definition do_http :: "net_env \<Rightarrow> http_req \<Rightarrow> ('w net_world_scheme, exc, http_resp) pm" where
  "do_http env req w = net_op (NHttp req) (ne_http env (net_tick w) req) w"

definition http_get :: "net_env \<Rightarrow> string \<Rightarrow> (string, string) dict \<Rightarrow> ('w net_world_scheme, exc, http_resp) pm" where
  "http_get env url hs = do_http env \<lparr>rq_method = ''GET'', rq_url = url, rq_headers = hs, rq_json = None\<rparr>"

definition http_post :: "net_env \<Rightarrow> string \<Rightarrow> (string, string) dict \<Rightarrow> json \<Rightarrow> ('w net_world_scheme, exc, http_resp) pm" where
  "http_post env url hs body = do_http env \<lparr>rq_method = ''POST'', rq_url = url, rq_headers = hs, rq_json = Some body\<rparr>"

text \<open>\<open>resp.raise_for_status()\<close> raises for every status that is not a success.\<close>

definition raise_for_status :: "http_resp \<Rightarrow> ('w, exc, unit) pm" where
  "raise_for_status r =
     (if 200 \<le> rp_status r \<and> rp_status r < 300 then pm_return ()
      else pm_raise (Exc (OtherErr ''HTTPStatusError'') (''HTTP status '' @ int_str (rp_status r))))"

definition resp_json :: "http_resp \<Rightarrow> ('w, exc, json) pm" where
  "resp_json r = (case rp_json r of None \<Rightarrow> pm_raise (Exc ValueErr ''Expecting value'') | Some j \<Rightarrow> pm_return j)"

text \<open>\<open>data.get(k, default)\<close> on a decoded body, which need not be an object.\<close>

definition body_get :: "json \<Rightarrow> string \<Rightarrow> json \<Rightarrow> ('w, exc, json) pm" where
  "body_get j k d =
     (case j of
        JObj kvs \<Rightarrow> pm_return (dict_get_or kvs k d)
      | _ \<Rightarrow> pm_raise (Exc AttributeErr ''object has no attribute get''))"

section \<open>Waiting with a timeout\<close>

definition timeout_exc :: exc where
  "timeout_exc = Exc TimeoutErr []"

text \<open>
  \<open>asyncio.wait_for(coro, timeout)\<close>.  A timeout that is not positive cancels the coroutine before it
  starts.  A cancellation that gets out after the own deadline fired is turned into \<open>TimeoutError\<close>;
  one with another cause, such as an earlier deadline of a caller, is passed on.
\<close>

definition wait_for :: "seconds \<Rightarrow> ('w net_world_scheme, exc, 'a) pm \<Rightarrow> ('w net_world_scheme, exc, 'a) pm" where
  "wait_for t m w =
     (if t \<le> 0 then (Inl timeout_exc, w)
      else
        (case m (w\<lparr>nw_deadlines := Some (nw_now w + t) # nw_deadlines w\<rparr>) of
           (r, w') \<Rightarrow>
             (case r of
                Inl e \<Rightarrow> if is_cancelled_exc e \<and> hd (nw_deadlines w') = None then Inl timeout_exc else r
              | Inr x \<Rightarrow> r,
              w'\<lparr>nw_deadlines := tl (nw_deadlines w')\<rparr>)))"

section \<open>The client wrapper\<close>

record wrapper =
  mw_url :: string
  mw_transport :: string
  mw_session :: "nat option"

definition new_wrapper :: "string \<Rightarrow> string \<Rightarrow> wrapper" where
  "new_wrapper url transport = \<lparr>mw_url = url, mw_transport = transport, mw_session = None\<rparr>"

definition capabilities_obj :: "string \<Rightarrow> string \<Rightarrow> jdict \<Rightarrow> json" where
  "capabilities_obj n v caps = JObj [(''name'', JStr n), (''version'', JStr v), (''capabilities'', JObj caps)]"

definition http_probe :: "net_env \<Rightarrow> wrapper \<Rightarrow> ('w net_world_scheme, exc, json) pm" where
  "http_probe env m =
     (let unknown = JObj [(''name'', JStr ''unknown''), (''version'', JStr ''?''), (''capabilities'', JObj [])] in
      pm_catch
        (pm_bind (http_get env (mw_url m @ ''/'') []) (\<lambda>r.
           if rp_status r < 300 then
             pm_bind (resp_json r) (\<lambda>data.
               pm_bind (body_get data ''service'' (JStr ''unknown'')) (\<lambda>n.
                 pm_return (JObj [(''name'', n), (''version'', JStr ''?''), (''capabilities'', JObj [])])))
           else pm_return unknown))
        (\<lambda>e. if is_exception e then pm_return unknown else pm_raise e))"

definition http_list_tools :: "net_env \<Rightarrow> wrapper \<Rightarrow> ('w net_world_scheme, exc, json) pm" where
  "http_list_tools env m =
     pm_bind (http_get env (mw_url m @ ''/api/tools'') []) (\<lambda>r.
       pm_then (raise_for_status r)
         (pm_bind (resp_json r) (\<lambda>data. body_get data ''tools'' (JList []))))"

definition http_call_tool :: "net_env \<Rightarrow> wrapper \<Rightarrow> string \<Rightarrow> jdict \<Rightarrow> ('w net_world_scheme, exc, json) pm" where
  "http_call_tool env m name args =
     pm_bind (http_post env (mw_url m @ ''/api/tools/'' @ name) [] (JObj [(''arguments'', JObj args)])) (\<lambda>r.
       pm_then (raise_for_status r) (resp_json r))"

text \<open>
  \<open>connect\<close>: the wrapper with the session it stores, and the reported capabilities.  A missing SDK
  (\<open>ImportError\<close>) leads to the HTTP probe, every other exception is wrapped in \<open>ConnectionError\<close>.
\<close>

definition mw_connect :: "net_env \<Rightarrow> wrapper \<Rightarrow> ('w net_world_scheme, exc, wrapper \<times> json) pm" where
  "mw_connect env m w =
     (case net_op (NOpen (mw_url m) (mw_transport m)) (ne_open env (net_tick w) (mw_url m) (mw_transport m)) w of
        (Inr s, w') \<Rightarrow>
          (Inr (m\<lparr>mw_session := Some (ss_id s)\<rparr>,
                capabilities_obj (ss_name s) (ss_version s) (case ss_capabilities s of None \<Rightarrow> [] | Some c \<Rightarrow> c)), w')
      | (Inl e, w') \<Rightarrow>
          if isinstance e [ImportErr] then pm_bind (http_probe env m) (\<lambda>j. pm_return (m, j)) w'
          else if is_exception e then
            (Inl (Exc ConnectionErr (''Failed to connect to MCP server '' @ mw_url m @ '': '' @ exc_msg e)), w')
          else (Inl e, w'))"

definition sdk_tool_json :: "sdk_tool \<Rightarrow> json" where
  "sdk_tool_json t =
     JObj [(''name'', JStr (st_name t)), (''description'', JStr (case st_description t of None \<Rightarrow> [] | Some d \<Rightarrow> d)),
       (''input_schema'', if is_obj (st_schema t) then st_schema t else JObj [])]"

definition mw_list_tools :: "net_env \<Rightarrow> wrapper \<Rightarrow> ('w net_world_scheme, exc, json) pm" where
  "mw_list_tools env m w =
     (case mw_session m of
        None \<Rightarrow> http_list_tools env m w
      | Some sid \<Rightarrow>
          (case net_op (NSessionList sid) (ne_list env (net_tick w) sid) w of
             (Inr ts, w') \<Rightarrow> (Inr (JList (map sdk_tool_json ts)), w')
           | (Inl e, w') \<Rightarrow> if is_exception e then http_list_tools env m w' else (Inl e, w')))"

definition sdk_result_json :: "sdk_result \<Rightarrow> json" where
  "sdk_result_json r =
     JObj [(''content'', JList (map (\<lambda>(ty, tx). JObj [(''type'', JStr ty), (''text'', JStr tx)]) (sr_content r))),
       (''isError'', JBool (case sr_is_error r of None \<Rightarrow> False | Some b \<Rightarrow> b))]"

definition mw_call_tool :: "net_env \<Rightarrow> wrapper \<Rightarrow> string \<Rightarrow> jdict \<Rightarrow> ('w net_world_scheme, exc, json) pm" where
  "mw_call_tool env m name args w =
     (case mw_session m of
        None \<Rightarrow> http_call_tool env m name args w
      | Some sid \<Rightarrow>
          (case net_op (NSessionCall sid name args) (ne_call env (net_tick w) sid name args) w of
             (Inr r, w') \<Rightarrow> (Inr (sdk_result_json r), w')
           | (Inl e, w') \<Rightarrow> if is_exception e then http_call_tool env m name args w' else (Inl e, w')))"

text \<open>\<open>disconnect\<close>: the session is forgotten in any case, only a cancellation gets out.\<close>

definition mw_disconnect :: "net_env \<Rightarrow> wrapper \<Rightarrow> 'w net_world_scheme \<Rightarrow> (exc + unit) \<times> wrapper \<times> 'w net_world_scheme" where
  "mw_disconnect env m w =
     (case mw_session m of
        None \<Rightarrow> (Inr (), m, w)
      | Some sid \<Rightarrow>
          (case net_op (NSessionClose sid) (ne_close env (net_tick w) sid) w of
             (r, w') \<Rightarrow>
               (case r of Inr _ \<Rightarrow> Inr () | Inl e \<Rightarrow> if is_exception e then Inr () else Inl e,
                m\<lparr>mw_session := None\<rparr>, w')))"

section \<open>Timeliness\<close>

lemma net_op_log [simp]: "nw_log (snd (net_op op res w)) = nw_log w @ [op]"
  by (auto simp: net_op_def Let_def split: option.split)

lemma net_op_cases: "fst (net_op op res w) = snd res \<or> fst (net_op op res w) = Inl cancelled_exc"
  by (auto simp: net_op_def Let_def split: option.split)

lemma length_fire [simp]: "length (fire d ds) = length ds"
  by (induction ds) auto

text \<open>
  A computation is timely when, started before the earliest deadline, it either ends by that deadline with
  no deadline fired, or is cancelled at it.  Everything built from outbound operations whose handlers let a
  cancellation through is.
\<close>

named_theorems timely_intros \<open>introduction rules for timely computations\<close>

definition timely_at :: "'w net_world_scheme \<Rightarrow> (exc + 'a) \<times> 'w net_world_scheme \<Rightarrow> bool" where
  "timely_at w res \<longleftrightarrow> (\<forall>d. earliest (nw_deadlines w) = Some d \<longrightarrow> nw_now w \<le> d \<longrightarrow>
     nw_now (snd res) \<le> d
     \<and> (nw_deadlines (snd res) = nw_deadlines w
        \<or> nw_deadlines (snd res) = fire d (nw_deadlines w) \<and> (\<exists>e. fst res = Inl e \<and> is_cancelled_exc e)))"

definition timely :: "('w net_world_scheme, exc, 'a) pm \<Rightarrow> bool" where
  "timely m \<longleftrightarrow> (\<forall>w. timely_at w (m w))"

lemma cancelled_exc_cancelled [simp]: "is_cancelled_exc cancelled_exc"
  by (simp add: is_cancelled_iff cancelled_exc_def)

lemma cancelled_not_exception [simp]: "is_cancelled_exc e \<Longrightarrow> \<not> is_exception e"
  by (simp add: is_cancelled_iff is_exception_iff)

lemma timely_net_op: "timely_at w (net_op op res w)"
  by (auto simp: timely_at_def net_op_def Let_def)

lemma timely_return [timely_intros]: "timely (pm_return x)" and timely_raise [timely_intros]: "timely (pm_raise e)"
  by (simp_all add: timely_def timely_at_def pm_return_def pm_raise_def)

text \<open>Sequencing: after an outcome that is no cancellation the deadlines are as before.\<close>

lemma timely_at_next:
  assumes "timely_at w (r, w')" and "timely_at w' (s, w'')" and "\<And>e. r = Inl e \<Longrightarrow> \<not> is_cancelled_exc e"
  shows "timely_at w (s, w'')"
  using assms unfolding timely_at_def by (metis (no_types, lifting) fst_conv snd_conv)

lemma timely_bind [timely_intros]:
  assumes "timely m" "\<And>x. timely (f x)"
  shows "timely (pm_bind m f)"
  unfolding timely_def
proof
  fix w
  obtain r w' where m: "m w = (r, w')" by (cases "m w")
  have 1: "timely_at w (r, w')" using assms(1) m unfolding timely_def by metis
  show "timely_at w (pm_bind m f w)"
  proof (cases r)
    case (Inl e)
    then show ?thesis using m 1 by (simp add: pm_bind_def timely_at_def)
  next
    case (Inr x)
    have "timely_at w' (f x w')" using assms(2) unfolding timely_def by blast
    then have "timely_at w (fst (f x w'), snd (f x w'))"
      using 1 Inr by - (rule timely_at_next [of w r w'], auto)
    then show ?thesis using m Inr by (simp add: pm_bind_def)
  qed
qed

lemma timely_then [timely_intros]: "timely m \<Longrightarrow> timely k \<Longrightarrow> timely (pm_then m k)"
  using timely_bind [of m "\<lambda>_. k"] by (simp add: pm_bind_def [abs_def] pm_then_def [abs_def])

lemma timely_catch [timely_intros]:
  assumes "timely m" "\<And>e. timely (h e)" "\<And>e. is_cancelled_exc e \<Longrightarrow> h e = pm_raise e"
  shows "timely (pm_catch m h)"
  unfolding timely_def
proof
  fix w
  obtain r w' where m: "m w = (r, w')" by (cases "m w")
  have 1: "timely_at w (r, w')" using assms(1) m unfolding timely_def by metis
  show "timely_at w (pm_catch m h w)"
  proof (cases r)
    case (Inr x)
    then show ?thesis using m 1 by (simp add: pm_catch_def)
  next
    case (Inl e)
    show ?thesis
    proof (cases "is_cancelled_exc e")
      case True
      then show ?thesis using m 1 Inl assms(3) by (simp add: pm_catch_def pm_raise_def)
    next
      case False
      have "timely_at w' (h e w')" using assms(2) unfolding timely_def by blast
      then have "timely_at w (fst (h e w'), snd (h e w'))"
        using 1 Inl False by - (rule timely_at_next [of w r w'], auto)
      then show ?thesis using m Inl by (simp add: pm_catch_def)
    qed
  qed
qed

lemma timely_http [timely_intros]: "timely (do_http env req)" "timely (http_get env url hs)" "timely (http_post env url hs b)"
  by (simp_all add: timely_def http_get_def http_post_def do_http_def timely_net_op)

lemma timely_if [timely_intros]: "timely a \<Longrightarrow> timely b \<Longrightarrow> timely (if c then a else b)"
  by simp

lemma timely_resp [timely_intros]: "timely (raise_for_status r)" "timely (resp_json r)" "timely (body_get j k d)"
  by (auto simp: raise_for_status_def resp_json_def body_get_def intro: timely_intros split: option.split json.split)

lemma timely_http_tools [timely_intros]:
  "timely (http_probe env m)" "timely (http_list_tools env m)" "timely (http_call_tool env m name args)"
  unfolding http_probe_def http_list_tools_def http_call_tool_def Let_def by (intro timely_intros; simp)+

text \<open>An outbound operation followed by a timely continuation for each of its outcomes.\<close>

lemma timely_op_case:
  assumes "\<And>r. timely (f r)" "\<And>e. is_cancelled_exc e \<Longrightarrow> f (Inl e) = pm_raise e"
  shows "timely (\<lambda>w. case net_op op (res w) w of (r, w') \<Rightarrow> f r w')"
  unfolding timely_def
proof
  fix w
  obtain r w' where o: "net_op op (res w) w = (r, w')" by (cases "net_op op (res w) w")
  have 1: "timely_at w (r, w')" using timely_net_op [of w op "res w"] o by simp
  show "timely_at w (case net_op op (res w) w of (r, w') \<Rightarrow> f r w')"
  proof (cases "\<exists>e. r = Inl e \<and> is_cancelled_exc e")
    case True
    then show ?thesis using o 1 assms(2) by (auto simp: pm_raise_def timely_at_def)
  next
    case False
    have "timely_at w' (f r w')" using assms(1) unfolding timely_def by blast
    then have "timely_at w (fst (f r w'), snd (f r w'))"
      using 1 False by - (rule timely_at_next [of w r w'], auto)
    then show ?thesis using o by simp
  qed
qed

lemma mw_call_tool_alt:
  "mw_call_tool env m name args =
     (case mw_session m of
        None \<Rightarrow> http_call_tool env m name args
      | Some sid \<Rightarrow> (\<lambda>w. case net_op (NSessionCall sid name args) (ne_call env (net_tick w) sid name args) w of
          (r, w') \<Rightarrow> (case r of Inr x \<Rightarrow> pm_return (sdk_result_json x)
             | Inl e \<Rightarrow> if is_exception e then http_call_tool env m name args else pm_raise e) w'))"
  by (auto simp: mw_call_tool_def fun_eq_iff pm_return_def pm_raise_def split: option.split prod.split sum.split)

lemma timely_call_tool [timely_intros]: "timely (mw_call_tool env m name args)"
  unfolding mw_call_tool_alt
  by (auto intro!: timely_op_case timely_intros simp: is_cancelled_iff is_exception_iff split: option.split sum.split)

lemma timely_disconnect:
  "timely_at w (fst (mw_disconnect env m w), snd (snd (mw_disconnect env m w)))"
proof (cases "mw_session m")
  case (Some sid)
  let ?o = "net_op (NSessionClose sid) (ne_close env (net_tick w) sid) w"
  have "timely_at w (fst ?o, snd ?o)" using timely_net_op by simp
  then show ?thesis
    using Some unfolding timely_at_def by (auto simp: mw_disconnect_def case_prod_beta split: sum.split)
qed (simp add: mw_disconnect_def timely_at_def)

lemma mw_connect_alt:
  "mw_connect env m = (\<lambda>w. case net_op (NOpen (mw_url m) (mw_transport m))
      (ne_open env (net_tick w) (mw_url m) (mw_transport m)) w of
      (r, w') \<Rightarrow> (case r of
          Inr s \<Rightarrow> pm_return (m\<lparr>mw_session := Some (ss_id s)\<rparr>,
              capabilities_obj (ss_name s) (ss_version s) (case ss_capabilities s of None \<Rightarrow> [] | Some c \<Rightarrow> c))
        | Inl e \<Rightarrow> if isinstance e [ImportErr] then pm_bind (http_probe env m) (\<lambda>j. pm_return (m, j))
            else if is_exception e then
              pm_raise (Exc ConnectionErr (''Failed to connect to MCP server '' @ mw_url m @ '': '' @ exc_msg e))
            else pm_raise e) w')"
  by (auto simp: mw_connect_def fun_eq_iff pm_return_def pm_raise_def split: prod.split sum.split)

lemma timely_connect [timely_intros]: "timely (mw_connect env m)"
  unfolding mw_connect_alt
  by (auto intro!: timely_op_case timely_intros simp: is_cancelled_iff is_exception_iff isinstance_def is_subclass.simps
      split: sum.split)

lemma earliest_push: "earliest (Some own # ds) = Some (case earliest ds of None \<Rightarrow> own | Some d \<Rightarrow> min own d)"
  by (simp split: option.split)

lemma wait_for_timely [timely_intros]:
  fixes m :: "('a net_world_scheme, exc, 'b) pm"
  assumes "timely m"
  shows "timely (wait_for t m)"
  unfolding timely_def timely_at_def
proof (intro allI impI)
  fix w :: "'a net_world_scheme" and d
  assume d: "earliest (nw_deadlines w) = Some d" "nw_now w \<le> d"
  define own where "own = nw_now w + t"
  define w1 where "w1 = w\<lparr>nw_deadlines := Some own # nw_deadlines w\<rparr>"
  obtain r w' where m: "m w1 = (r, w')" by (cases "m w1")
  show "nw_now (snd (wait_for t m w)) \<le> d \<and> (nw_deadlines (snd (wait_for t m w)) = nw_deadlines w
      \<or> nw_deadlines (snd (wait_for t m w)) = fire d (nw_deadlines w) \<and> (\<exists>e. fst (wait_for t m w) = Inl e \<and> is_cancelled_exc e))"
  proof (cases "t \<le> 0")
    case False
    have "earliest (nw_deadlines w1) = Some (min own d)" "nw_now w1 \<le> min own d"
      using d False by (simp_all add: w1_def own_def)
    with assms m have tm: "nw_now w' \<le> min own d"
      "nw_deadlines w' = Some own # nw_deadlines w
       \<or> nw_deadlines w' = fire (min own d) (Some own # nw_deadlines w) \<and> (\<exists>e. r = Inl e \<and> is_cancelled_exc e)"
      unfolding timely_def timely_at_def by (auto simp: w1_def dest!: spec [of _ w1])
    have "wait_for t m w = (case r of
         Inl e \<Rightarrow> if is_cancelled_exc e \<and> hd (nw_deadlines w') = None then Inl timeout_exc else r
       | Inr x \<Rightarrow> r, w'\<lparr>nw_deadlines := tl (nw_deadlines w')\<rparr>)"
      using m False by (simp add: wait_for_def w1_def own_def)
    with tm show ?thesis by (cases "own \<le> d") (auto simp: min_def split: sum.split if_splits)
  qed (use d in \<open>simp add: wait_for_def\<close>)
qed

lemma wait_for_bound:
  fixes m :: "('a net_world_scheme, exc, 'b) pm" and w :: "'a net_world_scheme"
  assumes "timely m" and "0 \<le> t" and "\<And>d. earliest (nw_deadlines w) = Some d \<Longrightarrow> nw_now w \<le> d"
  shows "nw_now (snd (wait_for t m w)) \<le> nw_now w + t"
proof (cases "t \<le> 0")
  case False
  define own where "own = nw_now w + t"
  define w1 where "w1 = w\<lparr>nw_deadlines := Some own # nw_deadlines w\<rparr>"
  obtain e where e: "earliest (nw_deadlines w1) = Some e" "e \<le> own" "nw_now w1 \<le> e"
    using assms(3) False by (cases "earliest (nw_deadlines w)") (auto simp: w1_def own_def min_def)
  then have "nw_now (snd (m w1)) \<le> e" using assms(1) unfolding timely_def timely_at_def by blast
  moreover have "nw_now (snd (wait_for t m w)) = nw_now (snd (m w1))"
    using False by (simp add: wait_for_def w1_def own_def case_prod_beta)
  ultimately show ?thesis using e(2) by (simp add: own_def)
qed (use assms(2) in \<open>simp add: wait_for_def\<close>)

text \<open>Outbound operations touch only the clock and the log, not what later theories add to the world.\<close>

named_theorems net_only_intros \<open>introduction rules for computations that touch only the network fields\<close>

definition net_only :: "('w net_world_scheme, exc, 'a) pm \<Rightarrow> bool" where
  "net_only m \<longleftrightarrow> (\<forall>w. net_world.more (snd (m w)) = net_world.more w \<and> prefix (nw_log w) (nw_log (snd (m w))))"

lemma net_op_more [simp]: "net_world.more (snd (net_op op res w)) = net_world.more w"
  by (auto simp: net_op_def Let_def split: option.split)

lemma net_only_return [net_only_intros]: "net_only (pm_return x)"
  and net_only_raise [net_only_intros]: "net_only (pm_raise e)"
  by (simp_all add: net_only_def pm_return_def pm_raise_def)

lemma net_only_bind [net_only_intros]: "net_only m \<Longrightarrow> (\<And>x. net_only (f x)) \<Longrightarrow> net_only (pm_bind m f)"
  unfolding net_only_def pm_bind_def by (auto split: prod.split sum.split) (metis snd_conv prefix_order.trans)+

lemma net_only_then [net_only_intros]: "net_only m \<Longrightarrow> net_only k \<Longrightarrow> net_only (pm_then m k)"
  unfolding net_only_def pm_then_def by (auto split: prod.split sum.split) (metis snd_conv prefix_order.trans)+

lemma net_only_catch [net_only_intros]: "net_only m \<Longrightarrow> (\<And>e. net_only (h e)) \<Longrightarrow> net_only (pm_catch m h)"
  unfolding net_only_def pm_catch_def by (auto split: prod.split sum.split) (metis snd_conv prefix_order.trans)+

lemma net_only_http [net_only_intros]:
  "net_only (do_http env req)" "net_only (http_get env url hs)" "net_only (http_post env url hs b)"
  by (simp_all add: net_only_def http_get_def http_post_def do_http_def)

lemma net_only_if [net_only_intros]: "net_only a \<Longrightarrow> net_only b \<Longrightarrow> net_only (if c then a else b)"
  by simp

lemma net_only_resp [net_only_intros]:
  "net_only (raise_for_status r)" "net_only (resp_json r)" "net_only (body_get j k d)"
  by (auto simp: raise_for_status_def resp_json_def body_get_def intro: net_only_intros split: option.split json.split)

lemma net_only_http_tools [net_only_intros]:
  "net_only (http_probe env m)" "net_only (http_list_tools env m)" "net_only (http_call_tool env m name args)"
  unfolding http_probe_def http_list_tools_def http_call_tool_def Let_def by (intro net_only_intros)+

lemma net_only_op_case:
  assumes "\<And>r. net_only (f r)"
  shows "net_only (\<lambda>w. case net_op op (res w) w of (r, w') \<Rightarrow> f r w')"
  unfolding net_only_def
proof
  fix w
  let ?o = "net_op op (res w) w"
  have "net_world.more (snd (f (fst ?o) (snd ?o))) = net_world.more (snd ?o)
      \<and> prefix (nw_log (snd ?o)) (nw_log (snd (f (fst ?o) (snd ?o))))"
    using assms unfolding net_only_def by blast
  then show "net_world.more (snd (case ?o of (r, w') \<Rightarrow> f r w')) = net_world.more w
      \<and> prefix (nw_log w) (nw_log (snd (case ?o of (r, w') \<Rightarrow> f r w')))"
    by (simp add: case_prod_beta) (meson prefixI prefix_order.trans)
qed

lemma net_only_call_tool [net_only_intros]: "net_only (mw_call_tool env m name args)"
  unfolding mw_call_tool_alt by (auto intro!: net_only_op_case net_only_intros split: option.split sum.split)

lemma net_only_connect [net_only_intros]: "net_only (mw_connect env m)"
  unfolding mw_connect_alt by (auto intro!: net_only_op_case net_only_intros split: sum.split)

lemma mw_list_tools_alt:
  "mw_list_tools env m =
     (case mw_session m of
        None \<Rightarrow> http_list_tools env m
      | Some sid \<Rightarrow> (\<lambda>w. case net_op (NSessionList sid) (ne_list env (net_tick w) sid) w of
          (r, w') \<Rightarrow> (case r of Inr ts \<Rightarrow> pm_return (JList (map sdk_tool_json ts))
             | Inl e \<Rightarrow> if is_exception e then http_list_tools env m else pm_raise e) w'))"
  by (auto simp: mw_list_tools_def fun_eq_iff pm_return_def pm_raise_def split: option.split prod.split sum.split)

lemma net_only_list_tools [net_only_intros]: "net_only (mw_list_tools env m)"
  unfolding mw_list_tools_alt by (auto intro!: net_only_op_case net_only_intros split: option.split sum.split)

lemma timely_list_tools [timely_intros]: "timely (mw_list_tools env m)"
  unfolding mw_list_tools_alt by (auto intro!: timely_op_case timely_intros simp: is_cancelled_iff is_exception_iff split: option.split sum.split)

lemma disconnect_more [simp]: "net_world.more (snd (snd (mw_disconnect env m w))) = net_world.more w"
  by (simp add: mw_disconnect_def case_prod_beta split: option.split)

lemma disconnect_wrapper:
  "mw_url (fst (snd (mw_disconnect env m w))) = mw_url m" "mw_transport (fst (snd (mw_disconnect env m w))) = mw_transport m"
  "mw_session (fst (snd (mw_disconnect env m w))) = None"
  by (simp_all add: mw_disconnect_def case_prod_beta split: option.split)

lemma connect_wrapper:
  "fst (mw_connect env m w) = Inr (m', j) \<Longrightarrow> mw_url m' = mw_url m \<and> mw_transport m' = mw_transport m"
  by (auto simp: mw_connect_def pm_bind_def pm_return_def split: prod.splits sum.splits if_splits)

end
