(* ===== verification/Connection_Pool.thy ===== *)
theory Connection_Pool
  imports Mcp_Client
begin

text \<open>
  The pool of remote connections, \<open>app/core/protocol/connection_pool.py\<close>.  The entries are a
  dictionary from endpoint and transport to the pooled wrapper; the lock of an entry is a flag that is
  set while a caller holds it.  An operation runs from the moment it gets the locks it takes.  The
  running loop, which loops are closed and the configured size are in \<open>pool_cfg\<close>.
\<close>

record entry =
  pe_wrapper :: wrapper
  pe_locked :: bool
  pe_loop :: "nat option"
  pe_connected :: bool
  pe_last_used :: seconds

type_synonym pool_key = "string \<times> string"

record pool_world = net_world +
  pw_entries :: "(pool_key, entry) dict"

record pool_cfg =
  pc_max_size :: nat
  pc_loop :: nat
  pc_closed :: "nat \<Rightarrow> bool"

definition RECONNECTABLE :: "exc_class list" where
  "RECONNECTABLE = [ConnectionErr, BrokenPipeErr, OSErr, RuntimeErr]"

definition set_entry :: "pool_key \<Rightarrow> entry \<Rightarrow> 'w pool_world_scheme \<Rightarrow> 'w pool_world_scheme" where
  "set_entry k e w = (if dict_get (pw_entries w) k = None then w else w\<lparr>pw_entries := dict_set k e (pw_entries w)\<rparr>)"

definition drop_entry :: "pool_key \<Rightarrow> 'w pool_world_scheme \<Rightarrow> 'w pool_world_scheme" where
  "drop_entry k w = w\<lparr>pw_entries := dict_pop k (pw_entries w)\<rparr>"

text \<open>\<open>_hard_close\<close>: a cancellation of the disconnect gets out before the flag is cleared.\<close>

definition hard_close :: "net_env \<Rightarrow> pool_key \<Rightarrow> entry \<Rightarrow> ('w pool_world_scheme, exc, entry) pm" where
  "hard_close env k e w =
     (if pe_connected e then
        (case mw_disconnect env (pe_wrapper e) w of
           (Inr _, m, w') \<Rightarrow>
             let e' = e\<lparr>pe_wrapper := m, pe_connected := False\<rparr> in (Inr e', set_entry k e' w')
         | (Inl x, m, w') \<Rightarrow> (Inl x, set_entry k (e\<lparr>pe_wrapper := m\<rparr>) w'))
      else (Inr e, w))"

definition prune_closed_loops :: "pool_cfg \<Rightarrow> 'w pool_world_scheme \<Rightarrow> 'w pool_world_scheme" where
  "prune_closed_loops cfg w =
     w\<lparr>pw_entries := filter (\<lambda>(k, e). \<not> (case pe_loop e of None \<Rightarrow> False | Some l \<Rightarrow> pc_closed cfg l)) (pw_entries w)\<rparr>"

text \<open>\<open>min(candidates, key=..)\<close>: the first of the least.\<close>

fun lru :: "(pool_key \<times> entry) list \<Rightarrow> (pool_key \<times> entry) option" where
  "lru [] = None"
| "lru (x # xs) =
     (case lru xs of
        None \<Rightarrow> Some x
      | Some y \<Rightarrow> if pe_last_used (snd y) < pe_last_used (snd x) then Some y else Some x)"

definition evict_to_capacity :: "pool_cfg \<Rightarrow> net_env \<Rightarrow> ('w pool_world_scheme, exc, unit) pm" where
  "evict_to_capacity cfg env w =
     (if length (pw_entries w) < pc_max_size cfg then (Inr (), w)
      else
        (case lru (filter (\<lambda>(k, e). \<not> pe_locked e) (pw_entries w)) of
           None \<Rightarrow> (Inr (), w)
         | Some (k, e) \<Rightarrow>
             (case hard_close env k e w of
                (Inl x, w') \<Rightarrow> (Inl x, w')
              | (Inr _, w') \<Rightarrow> (Inr (), drop_entry k w'))))"

definition get_entry :: "pool_cfg \<Rightarrow> net_env \<Rightarrow> string \<Rightarrow> string \<Rightarrow> ('w pool_world_scheme, exc, entry) pm" where
  "get_entry cfg env url transport w =
     (let k = (url, transport); w1 = prune_closed_loops cfg w in
      case dict_get (pw_entries w1) k of
        Some e \<Rightarrow> (Inr e, w1)
      | None \<Rightarrow>
          (case evict_to_capacity cfg env w1 of
             (Inl x, w2) \<Rightarrow> (Inl x, w2)
           | (Inr _, w2) \<Rightarrow>
               let e = \<lparr>pe_wrapper = new_wrapper url transport, pe_locked = False, pe_loop = None,
                        pe_connected = False, pe_last_used = nw_now w2\<rparr>
               in (Inr e, w2\<lparr>pw_entries := dict_set k e (pw_entries w2)\<rparr>)))"

definition unlock :: "pool_key \<Rightarrow> 'w pool_world_scheme \<Rightarrow> 'w pool_world_scheme" where
  "unlock k w = (case dict_get (pw_entries w) k of None \<Rightarrow> w | Some e \<Rightarrow> set_entry k (e\<lparr>pe_locked := False\<rparr>) w)"

text \<open>The part of \<open>acquire\<close> before the \<open>yield\<close>, run while the lock is held.\<close>

definition ensure_connected :: "pool_cfg \<Rightarrow> net_env \<Rightarrow> pool_key \<Rightarrow> entry \<Rightarrow> ('w pool_world_scheme, exc, entry) pm" where
  "ensure_connected cfg env k e0 =
     pm_bind (if pe_connected e0 \<and> pe_loop e0 \<noteq> Some (pc_loop cfg) then hard_close env k e0 else pm_return e0) (\<lambda>e1.
       pm_bind (if pe_connected e1 then pm_return e1
                else pm_bind (mw_connect env (pe_wrapper e1)) (\<lambda>(m, caps).
                       pm_return (e1\<lparr>pe_wrapper := m, pe_connected := True, pe_loop := Some (pc_loop cfg)\<rparr>))) (\<lambda>e2 w.
         let e3 = e2\<lparr>pe_last_used := nw_now w\<rparr> in (Inr e3, set_entry k e3 w)))"

text \<open>\<open>async with acquire(..) as wrapper\<close> around a body.\<close>

definition with_acquired ::
  "pool_cfg \<Rightarrow> net_env \<Rightarrow> string \<Rightarrow> string \<Rightarrow> (wrapper \<Rightarrow> ('w pool_world_scheme, exc, 'a) pm) \<Rightarrow> ('w pool_world_scheme, exc, 'a) pm" where
  "with_acquired cfg env url transport body =
     pm_bind (get_entry cfg env url transport) (\<lambda>e.
       let k = (url, transport); e' = e\<lparr>pe_locked := True\<rparr> in
       pm_then (pm_modify (set_entry k e'))
         (pm_finally
            (pm_bind (ensure_connected cfg env k e') (\<lambda>e''. body (pe_wrapper e'')))
            (unlock k)))"

definition mark_broken :: "net_env \<Rightarrow> string \<Rightarrow> string \<Rightarrow> ('w pool_world_scheme, exc, unit) pm" where
  "mark_broken env url transport w =
     (case dict_get (pw_entries w) (url, transport) of
        None \<Rightarrow> (Inr (), w)
      | Some e \<Rightarrow>
          (let k = (url, transport); e' = e\<lparr>pe_locked := True\<rparr> in
           case pm_finally (hard_close env k e') (unlock k) (set_entry k e' w) of
             (Inl x, w') \<Rightarrow> (Inl x, w')
           | (Inr _, w') \<Rightarrow> (Inr (), w')))"

definition with_reconnect ::
  "pool_cfg \<Rightarrow> net_env \<Rightarrow> string \<Rightarrow> string \<Rightarrow> (wrapper \<Rightarrow> ('w pool_world_scheme, exc, 'a) pm) \<Rightarrow> ('w pool_world_scheme, exc, 'a) pm" where
  "with_reconnect cfg env url transport body =
     pm_catch (with_acquired cfg env url transport body) (\<lambda>e.
       if isinstance e RECONNECTABLE then
         pm_then (mark_broken env url transport) (with_acquired cfg env url transport body)
       else pm_raise e)"

definition pool_call_tool ::
  "pool_cfg \<Rightarrow> net_env \<Rightarrow> string \<Rightarrow> string \<Rightarrow> string \<Rightarrow> jdict \<Rightarrow> ('w pool_world_scheme, exc, json) pm" where
  "pool_call_tool cfg env url transport name args =
     with_reconnect cfg env url transport (\<lambda>m. mw_call_tool env m name args)"

definition pool_list_tools :: "pool_cfg \<Rightarrow> net_env \<Rightarrow> string \<Rightarrow> string \<Rightarrow> ('w pool_world_scheme, exc, json) pm" where
  "pool_list_tools cfg env url transport = with_reconnect cfg env url transport (mw_list_tools env)"

fun close_and_drop :: "net_env \<Rightarrow> (pool_key \<times> entry) list \<Rightarrow> ('w pool_world_scheme, exc, unit) pm" where
  "close_and_drop env [] w = (Inr (), w)"
| "close_and_drop env ((k, e) # xs) w =
     (case hard_close env k e w of
        (Inl x, w') \<Rightarrow> (Inl x, w')
      | (Inr _, w') \<Rightarrow> close_and_drop env xs (drop_entry k w'))"

definition evict_idle :: "net_env \<Rightarrow> seconds \<Rightarrow> ('w pool_world_scheme, exc, unit) pm" where
  "evict_idle env max_idle w =
     close_and_drop env
       (filter (\<lambda>(k, e). nw_now w - pe_last_used e > max_idle \<and> \<not> pe_locked e) (pw_entries w)) w"

fun close_each :: "net_env \<Rightarrow> (pool_key \<times> entry) list \<Rightarrow> ('w pool_world_scheme, exc, unit) pm" where
  "close_each env [] w = (Inr (), w)"
| "close_each env ((k, e) # xs) w =
     (case hard_close env k e w of (Inl x, w') \<Rightarrow> (Inl x, w') | (Inr _, w') \<Rightarrow> close_each env xs w')"

definition aclose_all :: "net_env \<Rightarrow> ('w pool_world_scheme, exc, unit) pm" where
  "aclose_all env w =
     (case close_each env (pw_entries w) w of
        (Inl x, w') \<Rightarrow> (Inl x, w')
      | (Inr _, w') \<Rightarrow> (Inr (), w'\<lparr>pw_entries := []\<rparr>))"

section \<open>Well-formed pools\<close>

definition wkey :: "entry \<Rightarrow> pool_key" where
  "wkey e = (mw_url (pe_wrapper e), mw_transport (pe_wrapper e))"

text \<open>At most \<open>n\<close> entries, each under the key of its wrapper, and only those of \<open>L\<close> locked.\<close>

definition entries_ok :: "nat \<Rightarrow> pool_key set \<Rightarrow> (pool_key, entry) dict \<Rightarrow> bool" where
  "entries_ok n L es \<longleftrightarrow> dict_wf es \<and> length es \<le> n
     \<and> (\<forall>k e. dict_get es k = Some e \<longrightarrow> k = wkey e \<and> (pe_locked e \<longrightarrow> k \<in> L))"

lemma entries_frame: "net_world.more w' = net_world.more w \<Longrightarrow> pw_entries w' = pw_entries w"
  by (cases w; cases w') simp

lemma entries_set: "pw_entries (set_entry k e w) = (if dict_get (pw_entries w) k = None then pw_entries w else dict_set k e (pw_entries w))"
  by (simp add: set_entry_def)

lemma entries_ok_set_entry:
  "entries_ok n L (pw_entries w) \<Longrightarrow> k = wkey e \<Longrightarrow> (pe_locked e \<Longrightarrow> k \<in> L) \<Longrightarrow> entries_ok n L (pw_entries (set_entry k e w))"
  by (auto simp: entries_ok_def entries_set length_dict_set)

lemma entries_ok_mono: "entries_ok n L es \<Longrightarrow> L \<subseteq> M \<Longrightarrow> entries_ok n M es"
  unfolding entries_ok_def by blast

lemma entries_ok_filter: "entries_ok n L es \<Longrightarrow> entries_ok n L (filter P es)"
proof -
  assume ok: "entries_ok n L es"
  then have wf: "dict_wf (filter P es)"
    by (auto simp: entries_ok_def dict_wf_def distinct_map_filter)
  have sub: "dict_get es k = Some e" if "dict_get (filter P es) k = Some e" for k e
    using that wf ok by (auto simp: entries_ok_def dict_get_in_set [symmetric])
  have "length (filter P es) \<le> n" using ok le_trans [OF length_filter_le] by (auto simp: entries_ok_def)
  with ok wf sub show ?thesis unfolding entries_ok_def by blast
qed

lemma entries_ok_pop: "entries_ok n L es \<Longrightarrow> entries_ok n L (dict_pop k es)"
  using le_trans [OF length_dict_pop_le] by (auto simp: entries_ok_def split: if_splits)

lemma hard_close_ok:
  assumes "entries_ok n L (pw_entries w)" "k = wkey e" "pe_locked e \<Longrightarrow> k \<in> L"
  shows "entries_ok n L (pw_entries (snd (hard_close env k e w)))"
    and "length (pw_entries (snd (hard_close env k e w))) = length (pw_entries w)"
    and "dict_get (pw_entries (snd (hard_close env k e w))) k' = None \<longleftrightarrow> dict_get (pw_entries w) k' = None"
    and "fst (hard_close env k e w) = Inr e' \<Longrightarrow> wkey e' = k \<and> pe_locked e' = pe_locked e"
proof -
  obtain r m w' where d: "mw_disconnect env (pe_wrapper e) w = (r, m, w')" by (cases "mw_disconnect env (pe_wrapper e) w") auto
  have es: "pw_entries w' = pw_entries w"
    using disconnect_more [of env "pe_wrapper e" w] d by (intro entries_frame) simp
  have m: "mw_url m = mw_url (pe_wrapper e)" "mw_transport m = mw_transport (pe_wrapper e)"
    using disconnect_wrapper [of env "pe_wrapper e" w] d by auto
  have ok: "entries_ok n L (pw_entries (set_entry k e'' w'))" if "wkey e'' = wkey e" "pe_locked e'' = pe_locked e" for e''
    using assms es that by (intro entries_ok_set_entry) auto
  show "entries_ok n L (pw_entries (snd (hard_close env k e w)))"
    using assms(1) d m by (auto simp: hard_close_def Let_def wkey_def intro!: ok split: sum.split)
  show "length (pw_entries (snd (hard_close env k e w))) = length (pw_entries w)"
    "dict_get (pw_entries (snd (hard_close env k e w))) k' = None \<longleftrightarrow> dict_get (pw_entries w) k' = None"
    using d es by (auto simp: hard_close_def Let_def entries_set length_dict_set split: sum.split)
  show "wkey e' = k \<and> pe_locked e' = pe_locked e" if "fst (hard_close env k e w) = Inr e'"
    using that d m assms(2) by (auto simp: hard_close_def Let_def wkey_def split: sum.splits if_splits)
qed

lemma lru_Some: "xs \<noteq> [] \<Longrightarrow> \<exists>x. lru xs = Some x"
  by (cases xs) (auto split: option.split)

lemma lru_least: "lru xs = Some x \<Longrightarrow> x \<in> set xs \<and> (\<forall>y\<in>set xs. pe_last_used (snd x) \<le> pe_last_used (snd y))"
proof (induction xs arbitrary: x)
  case (Cons a xs)
  show ?case
  proof (cases "lru xs")
    case None
    then have "xs = []" using lru_Some by fastforce
    with Cons.prems show ?thesis by simp
  next
    case (Some y)
    with Cons.IH [OF Some] Cons.prems show ?thesis by (force split: if_splits)
  qed
qed simp

lemma evict_ok:
  assumes ok: "entries_ok n {} (pw_entries w)" and n: "n = pc_max_size cfg" "1 \<le> n"
  shows "entries_ok n {} (pw_entries (snd (evict_to_capacity cfg env w)))
    \<and> (fst (evict_to_capacity cfg env w) = Inr () \<longrightarrow> length (pw_entries (snd (evict_to_capacity cfg env w))) < n)"
proof (cases "length (pw_entries w) < n")
  case True
  then show ?thesis using ok n by (simp add: evict_to_capacity_def)
next
  case False
  have all: "filter (\<lambda>(k, e). \<not> pe_locked e) (pw_entries w) = pw_entries w"
    using ok by (auto simp: entries_ok_def filter_id_conv dict_get_in_set)
  obtain k e where l: "lru (pw_entries w) = Some (k, e)"
    using lru_Some [of "pw_entries w"] False n by fastforce
  have ke: "dict_get (pw_entries w) k = Some e"
    using lru_least [OF l] ok by (auto simp: entries_ok_def dict_get_in_set)
  note hc = hard_close_ok [OF ok, of k e env]
  have kw: "k = wkey e" "pe_locked e \<Longrightarrow> k \<in> {}" using ok ke unfolding entries_ok_def by blast+
  obtain r w' where h: "hard_close env k e w = (r, w')" by force
  have ok': "entries_ok n {} (pw_entries w')" and len: "length (pw_entries w') = length (pw_entries w)"
    and pres: "dict_get (pw_entries w') k \<noteq> None"
    using hc(1,2) hc(3) [of k] kw h ke by auto
  have "Suc (length (dict_pop k (pw_entries w'))) = length (pw_entries w')"
    using ok' pres by (intro length_dict_pop) (auto simp: entries_ok_def)
  then have "length (dict_pop k (pw_entries w')) < n" using ok' by (simp add: entries_ok_def)
  then show ?thesis
    using False n l h ok' entries_ok_pop [OF ok', of k]
    by (auto simp: evict_to_capacity_def all drop_entry_def split: sum.split)
qed

lemma get_entry_ok:
  assumes ok: "entries_ok n {} (pw_entries w)" and n: "n = pc_max_size cfg" "1 \<le> n"
  shows "entries_ok n {} (pw_entries (snd (get_entry cfg env url tr w)))
    \<and> (\<forall>e. fst (get_entry cfg env url tr w) = Inr e \<longrightarrow>
          dict_get (pw_entries (snd (get_entry cfg env url tr w))) (url, tr) = Some e \<and> wkey e = (url, tr))"
proof -
  let ?w = "prune_closed_loops cfg w"
  have ok1: "entries_ok n {} (pw_entries ?w)"
    using ok by (simp add: prune_closed_loops_def entries_ok_filter)
  show ?thesis
  proof (cases "dict_get (pw_entries ?w) (url, tr)")
    case (Some e)
    then show ?thesis using ok1 by (auto simp: get_entry_def Let_def entries_ok_def)
  next
    case None
    obtain r w2 where e: "evict_to_capacity cfg env ?w = (r, w2)" by force
    have "entries_ok n {} (pw_entries w2)" "r = Inr () \<longrightarrow> length (pw_entries w2) < n"
      using evict_ok [OF ok1 n, of env] e by auto
    with None e show ?thesis
      by (cases r) (auto simp: get_entry_def Let_def entries_ok_def length_dict_set wkey_def new_wrapper_def split: if_splits)
  qed
qed

lemma ensure_connected_ok:
  fixes w :: "'w pool_world_scheme"
  assumes "entries_ok n {k} (pw_entries w)" "wkey e = k" "pe_locked e"
  shows "entries_ok n {k} (pw_entries (snd (ensure_connected cfg env k e w)))"
proof -
  define A :: "('w pool_world_scheme, exc, entry) pm" where "A = (if pe_connected e \<and> pe_loop e \<noteq> Some (pc_loop cfg) then hard_close env k e else pm_return e)"
  obtain r w1 where A: "A w = (r, w1)" by force
  have ok1: "entries_ok n {k} (pw_entries w1)"
    using hard_close_ok(1) [OF assms(1), of k e env] A assms by (auto simp: A_def pm_return_def split: if_splits)
  have e1: "wkey e1 = k \<and> pe_locked e1" if "r = Inr e1" for e1
    using hard_close_ok(4) [OF assms(1), of k e env] A assms that by (auto simp: A_def pm_return_def split: if_splits)
  show ?thesis
  proof (cases r)
    case (Inl x)
    then show ?thesis using A ok1 by (simp add: ensure_connected_def pm_bind_def A_def [symmetric])
  next
    case (Inr e1)
    define B :: "('w pool_world_scheme, exc, entry) pm" where "B = (if pe_connected e1 then pm_return e1
        else pm_bind (mw_connect env (pe_wrapper e1)) (\<lambda>(m, caps).
          pm_return (e1\<lparr>pe_wrapper := m, pe_connected := True, pe_loop := Some (pc_loop cfg)\<rparr>)))"
    obtain r2 w2 where B: "B w1 = (r2, w2)" by force
    have "net_only B"
      unfolding B_def by (auto intro!: net_only_intros)
    then have es: "pw_entries w2 = pw_entries w1"
      using B unfolding net_only_def by (metis entries_frame snd_conv)
    have e2: "wkey e2 = k \<and> pe_locked e2" if "r2 = Inr e2" for e2
      using B that e1 [OF Inr] connect_wrapper [of env "pe_wrapper e1" w1]
      by (auto simp: B_def pm_bind_def pm_return_def wkey_def split: if_splits prod.splits sum.splits)
    have "entries_ok n {k} (pw_entries (set_entry k (e2\<lparr>pe_last_used := t\<rparr>) w2))" if "r2 = Inr e2" for e2 t
      using ok1 es e2 [OF that] by (intro entries_ok_set_entry) (auto simp: wkey_def)
    then show ?thesis
      using A B Inr ok1 es
      by (auto simp: ensure_connected_def pm_bind_def A_def [symmetric] B_def [symmetric] Let_def split: sum.split)
  qed
qed

lemma unlock_ok: "entries_ok n {k} (pw_entries w) \<Longrightarrow> entries_ok n {} (pw_entries (unlock k w))"
  by (auto simp: unlock_def entries_ok_def entries_set length_dict_set wkey_def split: option.split)

lemma with_acquired_ok:
  assumes ok: "entries_ok n {} (pw_entries w)" and n: "n = pc_max_size cfg" "1 \<le> n"
    and body: "\<And>m. net_only (body m)"
  shows "entries_ok n {} (pw_entries (snd (with_acquired cfg env url tr body w)))"
proof -
  let ?k = "(url, tr)"
  obtain r w1 where g: "get_entry cfg env url tr w = (r, w1)" by force
  note g' = get_entry_ok [OF ok n, of env url tr, unfolded g, simplified]
  show ?thesis
  proof (cases r)
    case (Inl x)
    then show ?thesis using g g' by (simp add: with_acquired_def pm_bind_def)
  next
    case (Inr e)
    let ?e = "e\<lparr>pe_locked := True\<rparr>"
    have ok1: "entries_ok n {?k} (pw_entries (set_entry ?k ?e w1))"
      using g' Inr entries_ok_mono by (intro entries_ok_set_entry) (auto simp: wkey_def)
    obtain r2 w2 where c: "ensure_connected cfg env ?k ?e (set_entry ?k ?e w1) = (r2, w2)" by force
    have ok2: "entries_ok n {?k} (pw_entries w2)"
      using ensure_connected_ok [OF ok1, of ?e cfg env] g' Inr c by (simp add: wkey_def)
    have "pw_entries (snd (body m w2)) = pw_entries w2" for m
      using body unfolding net_only_def by (metis entries_frame)
    then show ?thesis
      using g Inr c ok2 by (auto simp: with_acquired_def pm_defs Let_def case_prod_beta unlock_ok split: sum.split)
  qed
qed

lemma mark_broken_ok:
  assumes "entries_ok n {} (pw_entries w)"
  shows "entries_ok n {} (pw_entries (snd (mark_broken env url tr w)))"
proof (cases "dict_get (pw_entries w) (url, tr)")
  case (Some e)
  let ?k = "(url, tr)" and ?e = "e\<lparr>pe_locked := True\<rparr>"
  have k: "?k = wkey ?e" using assms Some unfolding entries_ok_def wkey_def by fastforce
  have "entries_ok n {?k} (pw_entries (set_entry ?k ?e w))"
    using assms entries_ok_mono k by (intro entries_ok_set_entry) auto
  then have "entries_ok n {?k} (pw_entries (snd (hard_close env ?k ?e (set_entry ?k ?e w))))"
    using k by (intro hard_close_ok(1)) auto
  then show ?thesis
    using Some by (auto simp: mark_broken_def pm_finally_def Let_def case_prod_beta intro: unlock_ok split: sum.split)
qed (use assms in \<open>simp add: mark_broken_def\<close>)

lemma with_reconnect_ok:
  assumes "entries_ok n {} (pw_entries w)" "n = pc_max_size cfg" "1 \<le> n" "\<And>m. net_only (body m)"
  shows "entries_ok n {} (pw_entries (snd (with_reconnect cfg env url tr body w)))"
proof -
  note a = with_acquired_ok [where body = body, OF _ assms(2,3,4)]
  obtain r w1 where w1: "with_acquired cfg env url tr body w = (r, w1)" by (cases "with_acquired cfg env url tr body w")
  have ok1: "entries_ok n {} (pw_entries w1)" using a [OF assms(1), of env url tr] w1 by simp
  obtain r2 w2 where w2: "mark_broken env url tr w1 = (r2, w2)" by (cases "mark_broken env url tr w1")
  have ok2: "entries_ok n {} (pw_entries w2)" using mark_broken_ok [OF ok1, of env url tr] w2 by simp
  show ?thesis
    using w1 w2 ok1 ok2 a [OF ok2, of env url tr]
    by (auto simp: with_reconnect_def pm_catch_def pm_then_def pm_raise_def split: sum.split)
qed

lemma close_and_drop_ok:
  "entries_ok n {} (pw_entries w) \<Longrightarrow> (\<forall>(k, e)\<in>set xs. k = wkey e \<and> \<not> pe_locked e) \<Longrightarrow>
   entries_ok n {} (pw_entries (snd (close_and_drop env xs w)))"
proof (induction xs arbitrary: w)
  case (Cons x xs)
  obtain k e where x: "x = (k, e)" by (cases x)
  have "entries_ok n {} (pw_entries (snd (hard_close env k e w)))"
    using Cons.prems x by (intro hard_close_ok(1)) auto
  then show ?case
    using Cons x by (auto simp: drop_entry_def entries_ok_pop split: sum.split prod.split)
qed simp

lemma close_each_ok:
  "entries_ok n {} (pw_entries w) \<Longrightarrow> (\<forall>(k, e)\<in>set xs. k = wkey e \<and> \<not> pe_locked e) \<Longrightarrow>
   entries_ok n {} (pw_entries (snd (close_each env xs w)))"
proof (induction xs arbitrary: w)
  case (Cons x xs)
  obtain k e where x: "x = (k, e)" by (cases x)
  have "entries_ok n {} (pw_entries (snd (hard_close env k e w)))"
    using Cons.prems x by (intro hard_close_ok(1)) auto
  then show ?case
    using Cons x by (auto split: sum.split prod.split)
qed simp

lemma entries_all: "entries_ok n {} es \<Longrightarrow> \<forall>(k, e)\<in>set es. k = wkey e \<and> \<not> pe_locked e"
  by (auto simp: entries_ok_def dict_get_in_set wkey_def)

datatype pool_op =
  PoolCall string string string jdict | PoolList string string | EvictIdle seconds | CloseAll

fun pool_step :: "pool_cfg \<Rightarrow> net_env \<Rightarrow> 'w pool_world_scheme \<Rightarrow> pool_op \<Rightarrow> 'w pool_world_scheme" where
  "pool_step cfg env w (PoolCall url tr name args) = snd (pool_call_tool cfg env url tr name args w)"
| "pool_step cfg env w (PoolList url tr) = snd (pool_list_tools cfg env url tr w)"
| "pool_step cfg env w (EvictIdle t) = snd (evict_idle env t w)"
| "pool_step cfg env w CloseAll = snd (aclose_all env w)"

lemma pool_step_ok:
  assumes "entries_ok (pc_max_size cfg) {} (pw_entries w)" "1 \<le> pc_max_size cfg"
  shows "entries_ok (pc_max_size cfg) {} (pw_entries (pool_step cfg env w x))"
proof (cases x)
  case (PoolCall url tr name args)
  then show ?thesis using assms by (auto simp: pool_call_tool_def intro!: with_reconnect_ok net_only_intros)
next
  case (PoolList url tr)
  then show ?thesis using assms by (auto simp: pool_list_tools_def intro!: with_reconnect_ok net_only_intros)
next
  case (EvictIdle t)
  then show ?thesis
    using assms(1) entries_all [OF assms(1)] by (auto simp: evict_idle_def intro!: close_and_drop_ok)
next
  case CloseAll
  then show ?thesis
    using close_each_ok [OF assms(1) entries_all [OF assms(1)], of env]
    by (auto simp: aclose_all_def entries_ok_def split: sum.split prod.split)
qed

interpretation pool_ops: op_invariant "pool_step cfg env"
  "\<lambda>w. 1 \<le> pc_max_size cfg \<and> entries_ok (pc_max_size cfg) {} (pw_entries w)" for cfg env
  by unfold_locales (auto intro: pool_step_ok)

text \<open>C9.  Operations that do not overlap keep the pool within its configured size: over any sequence of
calls, listings, idle evictions and closings, whatever the network does, the pool holds at most
\<open>remote_pool_max_size\<close> entries, one per endpoint and transport, each under the key of its wrapper, and
no lock stays held.\<close>

theorem pool_bounded:
  assumes "1 \<le> pc_max_size cfg" and "pw_entries w = []"
  shows "entries_ok (pc_max_size cfg) {} (pw_entries (foldl (pool_step cfg env) w ops))"
  using pool_ops.run_inv [of cfg w env ops] assms by (simp add: entries_ok_def)

definition dead_net :: net_env where
  "dead_net = \<lparr>ne_open = (\<lambda>_ _ _. (1, Inl (Exc OSErr ''refused''))), ne_call = (\<lambda>_ _ _ _. (1, Inl (Exc RuntimeErr ''cancel scope''))),
     ne_list = (\<lambda>_ _. (1, Inl (Exc RuntimeErr ''cancel scope''))), ne_close = (\<lambda>_ _. (0, Inr ())),
     ne_http = (\<lambda>_ _. (1, Inl (Exc (OtherErr ''ConnectError'') ''refused'')))\<rparr>"

theorem pool_bounded_witness:
  "entries_ok 1 {} (pw_entries (foldl (pool_step \<lparr>pc_max_size = 1, pc_loop = 0, pc_closed = (\<lambda>_. False)\<rparr> dead_net)
     \<lparr>nw_log = [], nw_now = 0, nw_deadlines = [], pw_entries = []\<rparr>
     [PoolCall ''a'' ''sse'' ''t'' [], PoolCall ''b'' ''sse'' ''t'' []]))"
  using pool_bounded [of "\<lparr>pc_max_size = 1, pc_loop = 0, pc_closed = (\<lambda>_. False)\<rparr>"
      "\<lparr>nw_log = [], nw_now = 0, nw_deadlines = [], pw_entries = []\<rparr>" dead_net
      "[PoolCall ''a'' ''sse'' ''t'' [], PoolCall ''b'' ''sse'' ''t'' []]"]
  by simp

text \<open>The size is not a bound once calls overlap: when the pool is full and every entry is locked by
a call in flight, asking for a further endpoint adds an entry beyond \<open>remote_pool_max_size\<close>; when some
entry is unlocked, the one that is dropped is a least recently used one of those, and no locked entry
is ever dropped.\<close>

theorem pool_eviction_policy:
  "(pc_max_size cfg \<le> length (pw_entries w) \<and> (\<forall>(k, e)\<in>set (pw_entries w). pe_locked e)
      \<and> (\<forall>(k, e)\<in>set (pw_entries w). \<forall>l. pe_loop e = Some l \<longrightarrow> \<not> pc_closed cfg l)
      \<and> dict_get (pw_entries w) (url, tr) = None
    \<longrightarrow> length (pw_entries (snd (get_entry cfg env url tr w))) = Suc (length (pw_entries w)))
   \<and> (\<forall>k e. lru (filter (\<lambda>(k, e). \<not> pe_locked e) (pw_entries w)) = Some (k, e) \<longrightarrow>
        \<not> pe_locked e \<and> (\<forall>k' e'. (k', e') \<in> set (pw_entries w) \<and> \<not> pe_locked e' \<longrightarrow> pe_last_used e \<le> pe_last_used e'))"
proof (intro conjI allI impI)
  assume h: "pc_max_size cfg \<le> length (pw_entries w) \<and> (\<forall>(k, e)\<in>set (pw_entries w). pe_locked e)
      \<and> (\<forall>(k, e)\<in>set (pw_entries w). \<forall>l. pe_loop e = Some l \<longrightarrow> \<not> pc_closed cfg l)
      \<and> dict_get (pw_entries w) (url, tr) = None"
  then have "filter (\<lambda>(k, e). \<not> (case pe_loop e of None \<Rightarrow> False | Some l \<Rightarrow> pc_closed cfg l)) (pw_entries w) = pw_entries w"
    by (auto simp: filter_id_conv split: option.split)
  then have p: "prune_closed_loops cfg w = w" by (simp add: prune_closed_loops_def)
  have "filter (\<lambda>(k, e). \<not> pe_locked e) (pw_entries w) = []"
    using h by (auto simp: filter_empty_conv)
  with h p show "length (pw_entries (snd (get_entry cfg env url tr w))) = Suc (length (pw_entries w))"
    by (simp add: get_entry_def evict_to_capacity_def Let_def length_dict_set)
next
  fix k e
  assume "lru (filter (\<lambda>(k, e). \<not> pe_locked e) (pw_entries w)) = Some (k, e)"
  note l = lru_least [OF this]
  show "\<not> pe_locked e" using l by auto
  fix k' e'
  assume "(k', e') \<in> set (pw_entries w) \<and> \<not> pe_locked e'"
  then have "(k', e') \<in> set (filter (\<lambda>(k, e). \<not> pe_locked e) (pw_entries w))" by simp
  with l show "pe_last_used e \<le> pe_last_used e'" by (metis snd_conv)
qed

theorem pool_eviction_policy_witness:
  "length (pw_entries (snd (get_entry \<lparr>pc_max_size = 1, pc_loop = 0, pc_closed = (\<lambda>_. False)\<rparr> dead_net ''b'' ''sse''
     \<lparr>nw_log = [], nw_now = 0, nw_deadlines = [], pw_entries = [((''a'', ''sse''),
        \<lparr>pe_wrapper = new_wrapper ''a'' ''sse'', pe_locked = True, pe_loop = Some 0, pe_connected = True, pe_last_used = 0\<rparr>)]\<rparr>))) = 2"
  using pool_eviction_policy [THEN conjunct1, of "\<lparr>pc_max_size = 1, pc_loop = 0, pc_closed = (\<lambda>_. False)\<rparr>"
      "\<lparr>nw_log = [], nw_now = 0, nw_deadlines = [], pw_entries = [((''a'', ''sse''),
        \<lparr>pe_wrapper = new_wrapper ''a'' ''sse'', pe_locked = True, pe_loop = Some 0, pe_connected = True, pe_last_used = 0\<rparr>)]\<rparr>"
      "''b''" "''sse''" dead_net]
  by simp

section \<open>How often a call goes out\<close>

definition op_count :: "(netop \<Rightarrow> bool) \<Rightarrow> 'w net_world_scheme \<Rightarrow> nat" where
  "op_count P w = length (filter P (nw_log w))"

abbreviation cost :: "(netop \<Rightarrow> bool) \<Rightarrow> nat \<Rightarrow> ('w net_world_scheme, exc, 'a) pm \<Rightarrow> bool" where
  "cost P \<equiv> grows (op_count P)"

definition op_cost :: "(netop \<Rightarrow> bool) \<Rightarrow> netop \<Rightarrow> nat" where
  "op_cost P x = (if P x then 1 else 0)"

lemma op_count_net_op [simp]: "op_count P (snd (net_op op res w)) = op_count P w + op_cost P op"
  by (simp add: op_count_def op_cost_def)

text \<open>The two kinds of operations counted: opening a session, and sending a tool call to the server.\<close>

fun is_open :: "netop \<Rightarrow> bool" where
  "is_open (NOpen _ _) = True"
| "is_open _ = False"

fun is_tool_request :: "netop \<Rightarrow> bool" where
  "is_tool_request (NSessionCall _ _ _) = True"
| "is_tool_request (NHttp rq) = (rq_method rq = ''POST'')"
| "is_tool_request _ = False"

lemma http_call_count:
  "op_count is_open (snd (http_call_tool env m name args w)) = op_count is_open w"
  "op_count is_tool_request (snd (http_call_tool env m name args w)) = op_count is_tool_request w + 1"
proof -
  have s: "snd (http_call_tool env m name args w) = snd (http_post env (mw_url m @ ''/api/tools/'' @ name) [] (JObj [(''arguments'', JObj args)]) w)"
    by (auto simp: http_call_tool_def pm_defs raise_for_status_def resp_json_def split: sum.split prod.split option.split)
  show "op_count is_open (snd (http_call_tool env m name args w)) = op_count is_open w"
    "op_count is_tool_request (snd (http_call_tool env m name args w)) = op_count is_tool_request w + 1"
    unfolding s by (simp_all add: http_post_def do_http_def op_cost_def)
qed

lemma call_tool_count:
  "op_count is_open (snd (mw_call_tool env m name args w)) = op_count is_open w"
  "op_count is_tool_request (snd (mw_call_tool env m name args w)) \<le> op_count is_tool_request w + 2"
proof -
  have "op_count is_open (snd (mw_call_tool env m name args w)) = op_count is_open w
      \<and> op_count is_tool_request (snd (mw_call_tool env m name args w)) \<le> op_count is_tool_request w + 2"
  proof (cases "mw_session m")
    case None
    then show ?thesis by (simp add: mw_call_tool_def http_call_count)
  next
    case (Some sid)
    let ?o = "net_op (NSessionCall sid name args) (ne_call env (net_tick w) sid name args) w"
    obtain r w' where o: "?o = (r, w')" by (cases ?o)
    have "op_count is_open w' = op_count is_open w" "op_count is_tool_request w' = op_count is_tool_request w + 1"
      using op_count_net_op [of _ "NSessionCall sid name args" "ne_call env (net_tick w) sid name args" w]
      unfolding o by (simp_all add: op_cost_def)
    with Some o show ?thesis by (cases r) (simp_all add: mw_call_tool_def http_call_count)
  qed
  then show "op_count is_open (snd (mw_call_tool env m name args w)) = op_count is_open w"
    "op_count is_tool_request (snd (mw_call_tool env m name args w)) \<le> op_count is_tool_request w + 2"
    by auto
qed

lemma cost_call_tool: "cost is_open 0 (mw_call_tool env m name args)" "cost is_tool_request 2 (mw_call_tool env m name args)"
  using call_tool_count(2) by (auto simp: grows_def call_tool_count(1))

lemma cost_probe: "op_count is_open (snd (http_probe env m w)) = op_count is_open w"
    "op_count is_tool_request (snd (http_probe env m w)) = op_count is_tool_request w"
proof -
  have "snd (http_probe env m w) = snd (http_get env (mw_url m @ ''/'') [] w)"
    by (auto simp: http_probe_def pm_defs resp_json_def body_get_def Let_def split: sum.split prod.split option.split json.split)
  then show "op_count is_open (snd (http_probe env m w)) = op_count is_open w"
    "op_count is_tool_request (snd (http_probe env m w)) = op_count is_tool_request w"
    by (simp_all add: http_get_def do_http_def op_cost_def)
qed

lemma connect_count:
  "op_count is_open (snd (mw_connect env m w)) = op_count is_open w + 1"
  "op_count is_tool_request (snd (mw_connect env m w)) = op_count is_tool_request w"
proof -
  let ?o = "net_op (NOpen (mw_url m) (mw_transport m)) (ne_open env (net_tick w) (mw_url m) (mw_transport m)) w"
  have "snd (mw_connect env m w) = snd ?o \<or> snd (mw_connect env m w) = snd (http_probe env m (snd ?o))"
    by (auto simp: mw_connect_def pm_bind_def pm_return_def split: sum.split prod.split)
  then show "op_count is_open (snd (mw_connect env m w)) = op_count is_open w + 1"
    "op_count is_tool_request (snd (mw_connect env m w)) = op_count is_tool_request w"
    by (auto simp: cost_probe op_cost_def)
qed

lemma cost_connect: "cost is_open 1 (mw_connect env m)" "cost is_tool_request 0 (mw_connect env m)"
  by (simp_all add: grows_def connect_count)

lemma set_entry_log [simp]: "nw_log (set_entry k e w) = nw_log w" "op_count P (set_entry k e w) = op_count P w"
  by (simp_all add: set_entry_def op_count_def)

lemma entries_update_log [simp]: "op_count P (w\<lparr>pw_entries := es\<rparr>) = op_count P w"
  by (simp add: op_count_def)

lemma unlock_log [simp]: "nw_log (unlock k w) = nw_log w" "op_count P (unlock k w) = op_count P w"
  by (simp_all add: unlock_def op_count_def split: option.split)

lemma disconnect_count:
  "(\<And>s. \<not> P (NSessionClose s)) \<Longrightarrow> op_count P (snd (snd (mw_disconnect env m w))) = op_count P w"
  by (simp add: mw_disconnect_def case_prod_beta op_cost_def split: option.split)

lemma hard_close_count: "(\<And>s. \<not> P (NSessionClose s)) \<Longrightarrow> op_count P (snd (hard_close env k e w)) = op_count P w"
  using disconnect_count [of P env "pe_wrapper e" w]
  by (auto simp: hard_close_def Let_def split: prod.split sum.split)

lemma get_entry_count:
  assumes "\<And>s. \<not> P (NSessionClose s)"
  shows "op_count P (snd (get_entry cfg env url tr w)) = op_count P w"
proof -
  have pr: "op_count P (prune_closed_loops cfg w) = op_count P w" for w :: "'a pool_world_scheme"
    by (simp add: prune_closed_loops_def op_count_def)
  have hc: "op_count P w' = op_count P w" if "hard_close env k e w = (r, w')" for k e w w' and r :: "exc + entry"
    using hard_close_count [of P env k e w] assms that by simp
  have ev: "op_count P w' = op_count P w" if "evict_to_capacity cfg env w = (r, w')" for w w' r
    using that by (auto simp: evict_to_capacity_def drop_entry_def split: if_splits option.splits prod.splits sum.splits dest!: hc)
  show ?thesis
    using pr by (auto simp: get_entry_def Let_def ev
        split: option.split prod.split sum.split)
qed

lemma ensure_connected_cost:
  assumes "\<And>s. \<not> P (NSessionClose s)" "\<And>m. cost P c (mw_connect env m :: ('w pool_world_scheme, exc, wrapper \<times> json) pm)"
  shows "cost P c (ensure_connected cfg env k e :: ('w pool_world_scheme, exc, entry) pm)"
proof -
  have 1: "cost P 0 (if pe_connected e \<and> pe_loop e \<noteq> Some (pc_loop cfg) then hard_close env k e else pm_return e
      :: ('w pool_world_scheme, exc, entry) pm)"
    by (simp add: grows_def pm_return_def hard_close_count [of P, OF assms(1)])
  have 2: "cost P c (if pe_connected e1 then pm_return e1
      else pm_bind (mw_connect env (pe_wrapper e1)) (\<lambda>(m, caps).
         pm_return (e1\<lparr>pe_wrapper := m, pe_connected := True, pe_loop := Some (pc_loop cfg)\<rparr>))
      :: ('w pool_world_scheme, exc, entry) pm)" for e1
    using grows_bind [OF assms(2), of 0 "\<lambda>(m, caps). pm_return (e1\<lparr>pe_wrapper := m, pe_connected := True, pe_loop := Some (pc_loop cfg)\<rparr>)" "pe_wrapper e1"]
    by (auto intro: grows_weaken [OF grows_pure(1)] grows_pure(1))
  have 3: "cost P 0 (\<lambda>w. let e3 = e2\<lparr>pe_last_used := nw_now w\<rparr> in (Inr e3, set_entry k e3 w)
      :: (exc + entry) \<times> 'w pool_world_scheme)" for e2
    by (simp add: grows_def Let_def)
  show ?thesis
    using grows_bind [OF 1, of "c + 0"] grows_bind [OF 2 3] unfolding ensure_connected_def by fastforce
qed

lemma with_acquired_cost:
  assumes "\<And>s. \<not> P (NSessionClose s)"
    and "\<And>m. cost P c (mw_connect env m :: ('w pool_world_scheme, exc, wrapper \<times> json) pm)"
    and "\<And>m. cost P b (body m :: ('w pool_world_scheme, exc, 'a) pm)"
  shows "cost P (c + b) (with_acquired cfg env url tr body)"
proof -
  have g: "cost P 0 (get_entry cfg env url tr :: ('w pool_world_scheme, exc, entry) pm)"
    by (simp add: grows_def get_entry_count [of P, OF assms(1)])
  have f: "cost P n (pm_finally m (unlock k))" if "cost P n m" for n k and m :: "('w pool_world_scheme, exc, 'a) pm"
    using that by (simp add: grows_def pm_finally_def case_prod_beta)
  have s: "cost P 0 (pm_modify (set_entry k e) :: ('w pool_world_scheme, exc, unit) pm)" for k e
    by (simp add: grows_def pm_modify_def)
  have "cost P (0 + (0 + (c + b))) (with_acquired cfg env url tr body)"
    unfolding with_acquired_def Let_def
    by (intro grows_bind grows_then g s f ensure_connected_cost assms)
  then show ?thesis by simp
qed

lemma with_reconnect_cost:
  assumes "\<And>s. \<not> P (NSessionClose s)"
    and "\<And>m. cost P c (mw_connect env m :: ('w pool_world_scheme, exc, wrapper \<times> json) pm)"
    and "\<And>m. cost P b (body m :: ('w pool_world_scheme, exc, 'a) pm)"
  shows "cost P (2 * (c + b)) (with_reconnect cfg env url tr body)"
proof -
  have mb: "cost P 0 (mark_broken env url tr :: ('w pool_world_scheme, exc, unit) pm)"
    by (auto simp: hard_close_count [of P, OF assms(1)] grows_def mark_broken_def pm_finally_def Let_def case_prod_beta split: option.split sum.split)
  have h: "cost P (c + b) (if isinstance e RECONNECTABLE
      then pm_then (mark_broken env url tr) (with_acquired cfg env url tr body) else pm_raise e)" for e
    using grows_then [OF mb with_acquired_cost [OF assms]] by (auto intro: grows_weaken [OF grows_pure(2)])
  show ?thesis
    unfolding with_reconnect_def mult_2 by (intro grows_catch with_acquired_cost assms h)
qed

text \<open>One pooled tool call opens at most two sessions and, whatever goes wrong on the way, sends the
tool call to the remote server at most four times: on the session and by the HTTP fallback, each
before and after the reconnect.\<close>

theorem pool_call_bounds:
  fixes w :: "'w pool_world_scheme"
  shows "op_count is_open (snd (pool_call_tool cfg env url tr name args w)) \<le> op_count is_open w + 2
   \<and> op_count is_tool_request (snd (pool_call_tool cfg env url tr name args w)) \<le> op_count is_tool_request w + 4"
proof -
  let ?b = "\<lambda>m. mw_call_tool env m name args :: ('w pool_world_scheme, exc, json) pm"
  have "cost is_open (2 * (1 + 0)) (with_reconnect cfg env url tr ?b)"
    by (rule with_reconnect_cost; (rule cost_connect cost_call_tool)?) simp
  moreover have "cost is_tool_request (2 * (0 + 2)) (with_reconnect cfg env url tr ?b)"
    by (rule with_reconnect_cost; (rule cost_connect cost_call_tool)?) simp
  ultimately show ?thesis unfolding pool_call_tool_def grows_def by simp
qed

section \<open>Reuse of sessions\<close>

definition live_entry :: "pool_cfg \<Rightarrow> pool_key \<Rightarrow> nat \<Rightarrow> 'w pool_world_scheme \<Rightarrow> bool" where
  "live_entry cfg k sid w \<longleftrightarrow> (\<exists>e. dict_get (pw_entries w) k = Some e \<and> pe_connected e
     \<and> pe_loop e = Some (pc_loop cfg) \<and> mw_session (pe_wrapper e) = Some sid)"

lemma with_acquired_live:
  assumes live: "live_entry cfg (url, tr) sid w" and loop: "\<not> pc_closed cfg (pc_loop cfg)"
    and wf: "dict_wf (pw_entries w)" and body: "\<And>m. net_only (body m)"
  shows "\<exists>m w1. mw_session m = Some sid \<and> nw_log w1 = nw_log w \<and> nw_now w1 = nw_now w \<and> nw_deadlines w1 = nw_deadlines w
    \<and> fst (with_acquired cfg env url tr body w) = fst (body m w1)
    \<and> nw_log (snd (with_acquired cfg env url tr body w)) = nw_log (snd (body m w1))
    \<and> live_entry cfg (url, tr) sid (snd (with_acquired cfg env url tr body w))
    \<and> dict_wf (pw_entries (snd (with_acquired cfg env url tr body w)))"
proof -
  let ?k = "(url, tr)"
  let ?P = "\<lambda>(k, e). \<not> (case pe_loop e of None \<Rightarrow> False | Some l \<Rightarrow> pc_closed cfg l)"
  obtain e where e: "dict_get (pw_entries w) ?k = Some e" "pe_connected e" "pe_loop e = Some (pc_loop cfg)"
    "mw_session (pe_wrapper e) = Some sid"
    using live by (auto simp: live_entry_def)
  define p where "p = prune_closed_loops cfg w"
  have pwf: "dict_wf (pw_entries p)"
    using wf by (auto simp: p_def prune_closed_loops_def dict_wf_def distinct_map_filter)
  have "(?k, e) \<in> set (filter ?P (pw_entries w))"
    using e loop wf by (auto simp: dict_get_in_set)
  then have pe: "dict_get (pw_entries p) ?k = Some e"
    using dict_get_in_set [OF pwf, of ?k e] by (simp add: p_def prune_closed_loops_def)
  have g: "get_entry cfg env url tr w = (Inr e, p)" using pe by (simp add: get_entry_def Let_def p_def)
  define e3 where "e3 = e\<lparr>pe_locked := True, pe_last_used := nw_now w\<rparr>"
  define w1 where "w1 = set_entry ?k e3 (set_entry ?k (e\<lparr>pe_locked := True\<rparr>) p)"
  have now: "nw_now w1 = nw_now w" "nw_log w1 = nw_log w" "nw_deadlines w1 = nw_deadlines w"
    by (simp_all add: w1_def set_entry_def p_def prune_closed_loops_def)
  have c: "ensure_connected cfg env ?k (e\<lparr>pe_locked := True\<rparr>) (set_entry ?k (e\<lparr>pe_locked := True\<rparr>) p) = (Inr e3, w1)"
    using e by (simp add: ensure_connected_def pm_bind_def pm_return_def Let_def w1_def e3_def set_entry_def p_def
        prune_closed_loops_def)
  have w1e: "dict_get (pw_entries w1) ?k = Some e3" "dict_wf (pw_entries w1)"
    using pe pwf by (simp_all add: w1_def entries_set)
  let ?b = "body (pe_wrapper e3) w1"
  have eq: "with_acquired cfg env url tr body w = (fst ?b, unlock ?k (snd ?b))"
    using g c by (simp add: with_acquired_def pm_defs Let_def case_prod_beta)
  have be: "pw_entries (snd ?b) = pw_entries w1" using body unfolding net_only_def by (metis entries_frame)
  have "live_entry cfg ?k sid (unlock ?k (snd ?b)) \<and> dict_wf (pw_entries (unlock ?k (snd ?b)))"
    using be w1e e by (auto simp: unlock_def live_entry_def entries_set e3_def)
  then show ?thesis
    using eq now e by (intro exI [of _ "pe_wrapper e3"] exI [of _ w1]) (simp add: e3_def)
qed

text \<open>A pooled session is reused: once an endpoint has a live entry on the running loop, using it again
opens no session and keeps the entry, whatever the use returns.\<close>

theorem pool_reuses_session:
  fixes w :: "'w pool_world_scheme"
  assumes "live_entry cfg (url, tr) sid w" and "\<not> pc_closed cfg (pc_loop cfg)" and "dict_wf (pw_entries w)"
  shows "op_count is_open (snd (with_acquired cfg env url tr (\<lambda>m. mw_call_tool env m name args) w)) = op_count is_open w
    \<and> live_entry cfg (url, tr) sid (snd (with_acquired cfg env url tr (\<lambda>m. mw_call_tool env m name args) w))"
proof -
  obtain m and w1 :: "'w pool_world_scheme" where "nw_log w1 = nw_log w"
    "nw_log (snd (with_acquired cfg env url tr (\<lambda>m. mw_call_tool env m name args) w)) = nw_log (snd (mw_call_tool env m name args w1))"
    "live_entry cfg (url, tr) sid (snd (with_acquired cfg env url tr (\<lambda>m. mw_call_tool env m name args) w))"
    using with_acquired_live [where body = "\<lambda>m. mw_call_tool env m name args", OF assms net_only_call_tool, of env] by blast
  then show ?thesis using call_tool_count(1) [of env m name args w1] by (simp add: op_count_def)
qed

definition demo_pool :: "pool_world" where
  "demo_pool = \<lparr>nw_log = [], nw_now = 0, nw_deadlines = [], pw_entries = [((''a'', ''sse''),
     \<lparr>pe_wrapper = \<lparr>mw_url = ''a'', mw_transport = ''sse'', mw_session = Some 7\<rparr>, pe_locked = False, pe_loop = Some 0,
      pe_connected = True, pe_last_used = 0\<rparr>)]\<rparr>"

definition demo_cfg :: pool_cfg where
  "demo_cfg = \<lparr>pc_max_size = 50, pc_loop = 0, pc_closed = (\<lambda>_. False)\<rparr>"

lemma demo_live: "live_entry demo_cfg (''a'', ''sse'') 7 demo_pool" "\<not> pc_closed demo_cfg (pc_loop demo_cfg)"
    "dict_wf (pw_entries demo_pool)"
  by (simp_all add: live_entry_def demo_pool_def demo_cfg_def dict_wf_def)

theorem pool_reuses_session_witness:
  "op_count is_open (snd (with_acquired demo_cfg dead_net ''a'' ''sse'' (\<lambda>m. mw_call_tool dead_net m ''t'' []) demo_pool)) = 0"
  using pool_reuses_session [OF demo_live, of dead_net "''t''" "[]"] by (simp add: op_count_def demo_pool_def)

lemma reconnectable_iff: "isinstance e RECONNECTABLE \<longleftrightarrow> exc_class e \<in>
    {OSErr, TimeoutErr, ConnectionErr, BrokenPipeErr, FileNotFoundErr, IsADirectoryErr, RuntimeErr}"
  by (cases "exc_class e") (simp_all add: isinstance_def RECONNECTABLE_def is_subclass.simps)

text \<open>The HTTP client raises exceptions of its own, which are neither operating system errors nor
  \<open>RuntimeError\<close>s.\<close>

definition http_errors_own :: "net_env \<Rightarrow> bool" where
  "http_errors_own env \<longleftrightarrow> (\<forall>n rq x. snd (ne_http env n rq) = Inl x \<longrightarrow> \<not> isinstance x RECONNECTABLE)"

lemma http_call_not_reconnectable:
  assumes "http_errors_own env" and "fst (http_call_tool env m name args w) = Inl x"
  shows "\<not> isinstance x RECONNECTABLE"
proof -
  let ?rq = "\<lparr>rq_method = ''POST'', rq_url = mw_url m @ ''/api/tools/'' @ name, rq_headers = [],
    rq_json = Some (JObj [(''arguments'', JObj args)])\<rparr>"
  have c: "\<not> isinstance cancelled_exc RECONNECTABLE" by (simp add: cancelled_exc_def reconnectable_iff)
  have h: "\<not> isinstance y RECONNECTABLE" if "fst (do_http env ?rq w) = Inl y" for y
    using that net_op_cases [of "NHttp ?rq" "ne_http env (net_tick w) ?rq" w] assms(1) c
    by (auto simp: do_http_def http_errors_own_def)
  obtain r w' where d: "do_http env ?rq w = (r, w')" by (cases "do_http env ?rq w")
  show ?thesis
    using assms(2) h d
    by (cases r) (auto simp: http_call_tool_def http_post_def pm_defs raise_for_status_def resp_json_def reconnectable_iff
        split: if_splits option.splits)
qed

lemma call_tool_not_reconnectable:
  assumes "http_errors_own env" and "fst (mw_call_tool env m name args w) = Inl x"
  shows "\<not> isinstance x RECONNECTABLE"
proof (cases "mw_session m")
  case None
  then show ?thesis using assms http_call_not_reconnectable [of env m name args w x] by (simp add: mw_call_tool_def)
next
  case (Some sid)
  let ?o = "net_op (NSessionCall sid name args) (ne_call env (net_tick w) sid name args) w"
  obtain r w' where o: "?o = (r, w')" by (cases ?o)
  have "is_exception x" if "isinstance x RECONNECTABLE"
    using that by (auto simp: reconnectable_iff is_exception_iff)
  then show ?thesis
    using assms(2) Some o http_call_not_reconnectable [OF assms(1), of m name args w' x]
    by (auto simp: mw_call_tool_def split: sum.splits if_splits)
qed

text \<open>C21.  A broken session is never replaced: the wrapper answers every failure of a session by the HTTP
fallback, and as long as the HTTP client raises its own exceptions rather than operating system errors,
no tool call on a live entry ends with one of the errors the pool reconnects for; it opens no session
and keeps the entry with the session it had.\<close>

theorem broken_session_kept:
  fixes w :: "'w pool_world_scheme"
  assumes "live_entry cfg (url, tr) sid w" and "\<not> pc_closed cfg (pc_loop cfg)" and "dict_wf (pw_entries w)"
    and "http_errors_own env"
  shows "op_count is_open (snd (pool_call_tool cfg env url tr name args w)) = op_count is_open w
    \<and> live_entry cfg (url, tr) sid (snd (pool_call_tool cfg env url tr name args w))"
proof -
  let ?a = "with_acquired cfg env url tr (\<lambda>m. mw_call_tool env m name args)"
  obtain m and w1 :: "'w pool_world_scheme" where m: "nw_log w1 = nw_log w" "fst (?a w) = fst (mw_call_tool env m name args w1)"
    "nw_log (snd (?a w)) = nw_log (snd (mw_call_tool env m name args w1))" "live_entry cfg (url, tr) sid (snd (?a w))"
    using with_acquired_live [where body = "\<lambda>m. mw_call_tool env m name args", OF assms(1-3) net_only_call_tool, of env] by blast
  have "\<not> isinstance x RECONNECTABLE" if "fst (?a w) = Inl x" for x
    using call_tool_not_reconnectable [OF assms(4), of m name args w1 x] m(2) that by simp
  then have "snd (pool_call_tool cfg env url tr name args w) = snd (?a w)"
    by (simp add: pool_call_tool_def with_reconnect_def pm_catch_def pm_raise_def split: prod.split sum.split)
  then show ?thesis using m call_tool_count(1) [of env m name args w1] by (simp add: op_count_def)
qed

theorem broken_session_kept_witness:
  "live_entry demo_cfg (''a'', ''sse'') 7 (snd (pool_call_tool demo_cfg dead_net ''a'' ''sse'' ''t'' [] demo_pool))"
  using broken_session_kept [OF demo_live, of dead_net "''t''" "[]"]
  by (simp add: http_errors_own_def dead_net_def reconnectable_iff)

end
