(* ===== verification/Integrations.thy ===== *)
theory Integrations
  imports Event_Bus Connection_Pool
begin

text \<open>
  The backends a tool call is routed to besides local plugins and pooled remote servers:
  \<open>app/integrations/composio/client.py\<close> and \<open>auth.py\<close>, \<open>app/integrations/devices/client.py\<close>, and
  the sandboxes of \<open>app/integrations/e2b/executor.py\<close>.  The world gains the in-process Redis the event
  bus publishes to.  The settings the clients read are in \<open>backend_cfg\<close>.
\<close>

record bus_world = pool_world +
  bw_redis :: redis
  bw_events :: "(string \<times> event) list"

text \<open>Publishing an event; \<open>bw_events\<close> records what was published, for which invocation.\<close>

definition emit_event :: "string \<Rightarrow> event \<Rightarrow> 'w bus_world_scheme \<Rightarrow> 'w bus_world_scheme" where
  "emit_event i e w =
     w\<lparr>bw_redis := bus_publish i (ev_type e) (ev_data e) (ev_final e) (bw_redis w), bw_events := bw_events w @ [(i, e)]\<rparr>"

definition log_event :: "string \<Rightarrow> string \<Rightarrow> event" where
  "log_event level message = \<lparr>ev_type = ''log'', ev_data = log_data level message, ev_final = False\<rparr>"

definition result_event :: "json \<Rightarrow> event" where
  "result_event result = \<lparr>ev_type = ''result'', ev_data = result, ev_final = True\<rparr>"

definition error_event :: "string \<Rightarrow> event" where
  "error_event message = \<lparr>ev_type = ''error'', ev_data = JObj [(''error'', JStr message)], ev_final = True\<rparr>"

lemma emit_is_publish:
  "bw_redis (emit_event i (log_event l m) w) = publish_log i l m (bw_redis w)"
  "bw_redis (emit_event i (log_event l m) w) = audit_log i l m (bw_redis w)"
  "bw_redis (emit_event i (result_event r) w) = publish_result i r (bw_redis w)"
  "bw_redis (emit_event i (error_event m) w) = publish_error i m (bw_redis w)"
  by (simp_all add: emit_event_def log_event_def result_event_def error_event_def publish_log_def audit_log_def
      publish_result_def publish_error_def)

record backend_cfg =
  bc_devices_url :: string
  bc_backend_url :: string
  bc_internal_key :: string
  bc_composio_key :: "string option"

definition service_headers :: "backend_cfg \<Rightarrow> (string, string) dict" where
  "service_headers cfg = [(''X-Internal-Service-Key'', bc_internal_key cfg)]"

section \<open>Composio\<close>

text \<open>
  The configuration of a server is a JSON object; its endpoint, transport and key are taken to be
  strings, as the columns they are read from.
\<close>

definition cfg_str :: "jdict \<Rightarrow> string \<Rightarrow> string option" where
  "cfg_str c k = (case dict_get c k of Some (JStr s) \<Rightarrow> Some s | _ \<Rightarrow> None)"

definition composio_api_key :: "backend_cfg \<Rightarrow> jdict \<Rightarrow> string option" where
  "composio_api_key cfg c = str_or (cfg_str c ''api_key'') (bc_composio_key cfg)"

definition composio_endpoint :: "jdict \<Rightarrow> string" where
  "composio_endpoint c = (case cfg_str c ''endpoint_url'' of None \<Rightarrow> ''https://mcp.composio.dev'' | Some u \<Rightarrow> u)"

definition composio_transport :: "jdict \<Rightarrow> string" where
  "composio_transport c = (case cfg_str c ''transport'' of None \<Rightarrow> ''sse'' | Some t \<Rightarrow> t)"

text \<open>\<open>connect\<close>, the use of the client, \<open>disconnect\<close>: an exception of the first two skips the last.\<close>

definition composio_sdk ::
  "net_env \<Rightarrow> jdict \<Rightarrow> (wrapper \<Rightarrow> ('w net_world_scheme, exc, json) pm) \<Rightarrow> ('w net_world_scheme, exc, json) pm" where
  "composio_sdk env c use =
     pm_bind (mw_connect env (new_wrapper (composio_endpoint c) (composio_transport c))) (\<lambda>(m, caps).
       pm_bind (use m) (\<lambda>r w.
         case mw_disconnect env m w of (Inr _, m', w') \<Rightarrow> (Inr r, w') | (Inl e, m', w') \<Rightarrow> (Inl e, w')))"

definition composio_key_missing :: exc where
  "composio_key_missing = Exc ValueErr ''Composio API key not configured''"

fun json_map_get :: "json list \<Rightarrow> (jdict \<Rightarrow> json) \<Rightarrow> exc + json list" where
  "json_map_get [] f = Inr []"
| "json_map_get (x # xs) f =
     (case x of
        JObj d \<Rightarrow> (case json_map_get xs f of Inl e \<Rightarrow> Inl e | Inr ys \<Rightarrow> Inr (f d # ys))
      | _ \<Rightarrow> Inl (Exc AttributeErr ''object has no attribute get''))"

definition composio_item :: "jdict \<Rightarrow> json" where
  "composio_item d = JObj [(''name'', dict_get_or d ''name'' (JStr [])),
     (''description'', dict_get_or d ''description'' (JStr [])), (''input_schema'', dict_get_or d ''parameters'' (JObj []))]"

definition composio_rest_list :: "net_env \<Rightarrow> string option \<Rightarrow> ('w net_world_scheme, exc, json) pm" where
  "composio_rest_list env key =
     (if \<not> str_truthy key then pm_raise composio_key_missing
      else
        pm_bind (http_get env ''https://backend.composio.dev/api/v2/actions?limit=100'' [(''x-api-key'', the key)]) (\<lambda>r.
          pm_then (raise_for_status r)
            (pm_bind (resp_json r) (\<lambda>data.
              pm_bind (body_get data ''items'' (JList [])) (\<lambda>items.
                case items of
                  JList xs \<Rightarrow> pm_bind (pm_lift (json_map_get xs composio_item)) (\<lambda>ys. pm_return (JList ys))
                | _ \<Rightarrow> pm_raise (Exc TypeErr ''object is not iterable''))))))"

definition composio_output :: "jdict \<Rightarrow> json" where
  "composio_output d =
     (let output = (if truthy (jget d ''response'') then py_str (jget d ''response'')
                    else if truthy (jget d ''output'') then py_str (jget d ''output'')
                    else py_str (JObj d))
      in JObj [(''content'', JList [text_item output]), (''isError'', JBool (jget d ''error'' \<noteq> JNull))])"

definition composio_rest_call ::
  "net_env \<Rightarrow> string option \<Rightarrow> string \<Rightarrow> jdict \<Rightarrow> ('w net_world_scheme, exc, json) pm" where
  "composio_rest_call env key name args =
     (if \<not> str_truthy key then pm_raise composio_key_missing
      else
        pm_bind (http_post env (''https://backend.composio.dev/api/v2/actions/'' @ name @ ''/execute'')
            [(''x-api-key'', the key), (''Content-Type'', ''application/json'')] (JObj [(''input'', JObj args)])) (\<lambda>r.
          pm_then (raise_for_status r)
            (pm_bind (resp_json r) (\<lambda>data.
              case data of
                JObj d \<Rightarrow> pm_return (composio_output d)
              | _ \<Rightarrow> pm_raise (Exc AttributeErr ''object has no attribute get'')))))"

definition sdk_or_rest :: "('w, exc, 'a) pm \<Rightarrow> ('w, exc, 'a) pm \<Rightarrow> ('w, exc, 'a) pm" where
  "sdk_or_rest sdk rest = pm_catch sdk (\<lambda>e. if is_exception e then rest else pm_raise e)"

definition composio_list_tools :: "backend_cfg \<Rightarrow> net_env \<Rightarrow> jdict \<Rightarrow> ('w net_world_scheme, exc, json) pm" where
  "composio_list_tools cfg env c =
     sdk_or_rest (composio_sdk env c (mw_list_tools env)) (composio_rest_list env (composio_api_key cfg c))"

definition composio_call_tool ::
  "backend_cfg \<Rightarrow> net_env \<Rightarrow> jdict \<Rightarrow> string \<Rightarrow> jdict \<Rightarrow> ('w net_world_scheme, exc, json) pm" where
  "composio_call_tool cfg env c name args =
     sdk_or_rest (composio_sdk env c (\<lambda>m. mw_call_tool env m name args))
       (composio_rest_call env (composio_api_key cfg c) name args)"

definition initiate_oauth ::
  "backend_cfg \<Rightarrow> net_env \<Rightarrow> string \<Rightarrow> string \<Rightarrow> string \<Rightarrow> string \<Rightarrow> ('w net_world_scheme, exc, json) pm" where
  "initiate_oauth cfg env provider org user redirect =
     (if \<not> str_truthy (bc_composio_key cfg) then pm_raise (Exc ValueErr ''COMPOSIO_API_KEY not configured'')
      else
        pm_bind (http_post env ''https://backend.composio.dev/api/v1/connectedAccounts''
            [(''x-api-key'', the (bc_composio_key cfg)), (''Content-Type'', ''application/json'')]
            (JObj [(''appName'', JStr provider), (''userUuid'', JStr (org @ '':'' @ user)),
                   (''redirectUri'', JStr redirect), (''authMode'', JStr ''OAUTH2'')])) (\<lambda>r.
          pm_then (raise_for_status r)
            (pm_bind (resp_json r) (\<lambda>data.
              pm_bind (body_get data ''connectedAccountId'' JNull) (\<lambda>cid.
                pm_bind (body_get data ''redirectUrl'' JNull) (\<lambda>url.
                  pm_return (JObj [(''connection_id'', cid), (''redirect_url'', url), (''provider'', JStr provider)])))))))"

definition notify_backend_of_connection ::
  "backend_cfg \<Rightarrow> net_env \<Rightarrow> string \<Rightarrow> string \<Rightarrow> string \<Rightarrow> ('w net_world_scheme, exc, unit) pm" where
  "notify_backend_of_connection cfg env org provider cid =
     pm_catch
       (pm_bind (http_post env (bc_backend_url cfg @ ''/internal/mcp/composio/connected'') (service_headers cfg)
           (JObj [(''org_id'', JStr org), (''provider'', JStr provider), (''connection_id'', JStr cid)])) raise_for_status)
       (\<lambda>e. if is_exception e then pm_return () else pm_raise e)"

section \<open>Devices\<close>

definition devices_call_tool ::
  "backend_cfg \<Rightarrow> net_env \<Rightarrow> string \<Rightarrow> jdict \<Rightarrow> jdict option \<Rightarrow> string option \<Rightarrow> ('w net_world_scheme, exc, json) pm" where
  "devices_call_tool cfg env name args config iv =
     (let payload = [(''tool'', JStr name), (''arguments'', JObj args),
            (''config'', JObj (case config of None \<Rightarrow> [] | Some c \<Rightarrow> c))]
            @ (if str_truthy iv then [(''invocation_id'', JStr (the iv))] else [])
      in pm_bind (http_post env (bc_devices_url cfg @ ''/internal/tools/call'') (service_headers cfg) (JObj payload)) (\<lambda>r.
           if rp_status r \<ge> 400 then
             pm_return (tool_error (''Device tool error ('' @ int_str (rp_status r) @ ''): '' @ rp_text r) [])
           else resp_json r))"

definition devices_list_tools :: "backend_cfg \<Rightarrow> net_env \<Rightarrow> ('w net_world_scheme, exc, json) pm" where
  "devices_list_tools cfg env =
     pm_catch
       (pm_bind (http_get env (bc_devices_url cfg @ ''/internal/tools'') (service_headers cfg)) (\<lambda>r.
          pm_then (raise_for_status r)
            (pm_bind (resp_json r) (\<lambda>data. body_get data ''tools'' (JList [])))))
       (\<lambda>e. if is_exception e then pm_return (JList []) else pm_raise e)"

definition devices_send_command ::
  "backend_cfg \<Rightarrow> net_env \<Rightarrow> string \<Rightarrow> string \<Rightarrow> jdict option \<Rightarrow> ('w net_world_scheme, exc, json) pm" where
  "devices_send_command cfg env dev cmd payload =
     pm_bind (http_post env (bc_devices_url cfg @ ''/internal/devices/'' @ dev @ ''/command'') (service_headers cfg)
         (JObj [(''command'', JStr cmd), (''payload'', JObj (case payload of None \<Rightarrow> [] | Some p \<Rightarrow> p))])) (\<lambda>r.
       pm_then (raise_for_status r) (resp_json r))"

section \<open>Sandboxes\<close>

text \<open>
  What running code in a sandbox does: the chunks it writes, in order, and how the notebook call ends.
  A missing notebook interface raises \<open>AttributeError\<close>, and a process is started instead.
\<close>

datatype chunk = StdOut string | StdErr string

record cell_result =
  cr_texts :: "string option list"
  cr_error :: "string option"

record sandbox_env =
  sb_create :: "nat \<Rightarrow> seconds \<times> (exc + nat)"
  sb_cell :: "nat \<Rightarrow> nat \<Rightarrow> string \<Rightarrow> chunk list \<times> seconds \<times> (exc + cell_result)"
  sb_process :: "nat \<Rightarrow> nat \<Rightarrow> string \<Rightarrow> chunk list \<times> seconds \<times> (exc + int option)"
  sb_close :: "nat \<Rightarrow> nat \<Rightarrow> seconds \<times> (exc + unit)"

fun publish_chunks :: "string \<Rightarrow> chunk list \<Rightarrow> 'w bus_world_scheme \<Rightarrow> 'w bus_world_scheme" where
  "publish_chunks iv [] w = w"
| "publish_chunks iv (StdOut t # cs) w = publish_chunks iv cs (emit_event iv (log_event ''stdout'' t) w)"
| "publish_chunks iv (StdErr t # cs) w = publish_chunks iv cs (emit_event iv (log_event ''stderr'' t) w)"

definition stdout_of :: "chunk list \<Rightarrow> string" where
  "stdout_of cs = concat (map (\<lambda>c. case c of StdOut t \<Rightarrow> t | StdErr _ \<Rightarrow> []) cs)"

definition stderr_of :: "chunk list \<Rightarrow> string" where
  "stderr_of cs = concat (map (\<lambda>c. case c of StdErr t \<Rightarrow> t | StdOut _ \<Rightarrow> []) cs)"

record run_result =
  rr_output :: string
  rr_stdout :: string
  rr_stderr :: string
  rr_exit :: int
  rr_error :: bool

text \<open>
  \<open>_run_in_sandbox\<close>.  The chunks of a failed notebook call stay in the lists the fallback appends to.
  The error text of a cell is added to a local variable only: the returned \<open>stderr\<close> does not have it.
\<close>

definition run_in_sandbox :: "sandbox_env \<Rightarrow> nat \<Rightarrow> string \<Rightarrow> string \<Rightarrow> ('w bus_world_scheme, exc, run_result) pm" where
  "run_in_sandbox sb sid code iv w =
     (case sb_cell sb (net_tick w) sid code of (cs, res) \<Rightarrow>
      case net_op (NSandbox ''exec_cell'' sid) res (publish_chunks iv cs w) of
        (Inr x, w') \<Rightarrow>
          (Inr \<lparr>rr_output = stdout_of cs @ concat (map (\<lambda>t. case t of None \<Rightarrow> [] | Some s \<Rightarrow> s) (cr_texts x)),
             rr_stdout = stdout_of cs, rr_stderr = stderr_of cs, rr_exit = 0, rr_error = str_truthy (cr_error x)\<rparr>, w')
      | (Inl e, w') \<Rightarrow>
          if isinstance e [AttributeErr] then
            (case sb_process sb (net_tick w') sid (''python3 -c '' @ [CHR 0x22] @ code @ [CHR 0x22]) of (cs', res') \<Rightarrow>
             case net_op (NSandbox ''process'' sid) res' (publish_chunks iv cs' w') of
               (Inl e', w'') \<Rightarrow> (Inl e', w'')
             | (Inr ec, w'') \<Rightarrow>
                 (let all = cs @ cs'; x = (case ec of None \<Rightarrow> 0 | Some n \<Rightarrow> n)
                  in (Inr \<lparr>rr_output = (if stdout_of all \<noteq> [] then stdout_of all else stderr_of all),
                        rr_stdout = stdout_of all, rr_stderr = stderr_of all, rr_exit = x, rr_error = (x \<noteq> 0)\<rparr>, w'')))
          else (Inl e, w'))"

definition has_newline :: "string \<Rightarrow> bool" where
  "has_newline s \<longleftrightarrow> CHR 0x0A \<in> set s"

definition build_code_from_arguments :: "jdict \<Rightarrow> string" where
  "build_code_from_arguments args =
     join_str [CHR 0x0A]
       ([''# Auto-generated execution from tool arguments'']
        @ concat (map (\<lambda>(k, v). case v of
             JStr s \<Rightarrow> if has_newline s then [''# '' @ k @ '':'', s] else [k @ '' = '' @ py_repr v]
           | _ \<Rightarrow> [k @ '' = '' @ py_repr v]) args)
        @ [''print('' @ [CHR 0x27] @ ''Done'' @ [CHR 0x27] @ '')''])"

definition run_result_json :: "run_result \<Rightarrow> json" where
  "run_result_json r =
     JObj [(''content'', JList [text_item (rr_output r)]), (''isError'', JBool (rr_error r)),
       (''diagnostics'', JObj [(''stdout'', JStr (rr_stdout r)), (''stderr'', JStr (rr_stderr r)), (''exit_code'', JInt (rr_exit r))])]"

text \<open>
  \<open>destroy_sandbox\<close> swallows the exceptions of \<open>close\<close>; the wait for it is bounded by ten seconds, and
  the clean-up handler swallows the time-out.
\<close>

definition destroy_sandbox :: "sandbox_env \<Rightarrow> nat \<Rightarrow> ('w net_world_scheme, exc, unit) pm" where
  "destroy_sandbox sb sid w =
     pm_catch (\<lambda>w. net_op (NSandbox ''close'' sid) (sb_close sb (net_tick w) sid) w)
       (\<lambda>e. if is_exception e then pm_return () else pm_raise e) w"

definition create_ephemeral_sandbox :: "sandbox_env \<Rightarrow> ('w net_world_scheme, exc, nat) pm" where
  "create_ephemeral_sandbox sb = wait_for 30 (\<lambda>w. net_op (NSandbox ''create'' 0) (sb_create sb (net_tick w)) w)"

text \<open>\<open>execute\<close> as the router calls it: without a database, so that the sandbox is always ephemeral.\<close>

definition e2b_execute :: "sandbox_env \<Rightarrow> string \<Rightarrow> jdict \<Rightarrow> string \<Rightarrow> ('w bus_world_scheme, exc, json) pm" where
  "e2b_execute sb code0 args iv w =
     (let code = (if code0 = [] then build_code_from_arguments args else code0);
          handler = (\<lambda>e w. if is_exception e
             then (Inr (tool_error (exc_msg e) []), emit_event iv (log_event ''error'' (''Sandbox error: '' @ exc_msg e)) w)
             else (Inl e, w))
      in case create_ephemeral_sandbox sb w of
           (Inl e, w1) \<Rightarrow> handler e w1
         | (Inr sid, w1) \<Rightarrow>
             (case (case run_in_sandbox sb sid code iv w1 of
                      (Inr r, w2) \<Rightarrow> (Inr (run_result_json r), w2)
                    | (Inl e, w2) \<Rightarrow> handler e w2) of
                (res, w3) \<Rightarrow>
                  (case wait_for 10 (destroy_sandbox sb sid) w3 of
                     (Inr _, w4) \<Rightarrow> (res, w4)
                   | (Inl e, w4) \<Rightarrow> (if is_exception e then res else Inl e, w4))))"

section \<open>Properties\<close>

lemma wait_for_log [simp]:
  "nw_log (snd (wait_for t m w)) =
     (if t \<le> 0 then nw_log w else nw_log (snd (m (w\<lparr>nw_deadlines := Some (nw_now w + t) # nw_deadlines w\<rparr>))))"
  by (simp add: wait_for_def case_prod_beta)

lemma destroy_log: "nw_log (snd (wait_for 10 (destroy_sandbox sb sid) w)) = nw_log w @ [NSandbox ''close'' sid]"
  by (simp add: destroy_sandbox_def pm_catch_def pm_return_def pm_raise_def case_prod_beta split: sum.split)

lemma e2b_after_create:
  assumes "create_ephemeral_sandbox sb w = (Inr sid, w1)"
  shows "\<exists>w3. snd (e2b_execute sb code args iv w) = snd (wait_for 10 (destroy_sandbox sb sid) w3)"
  using assms by (simp add: e2b_execute_def Let_def case_prod_beta split: sum.split) blast

text \<open>C20.  No sandbox is left behind: once the sandbox of an execution has been created, the last thing the
execution does is to ask for its removal, whether the code succeeded, failed, timed out or was
cancelled; and an execution whose sandbox cannot be created reports the reason as an error result.\<close>

theorem e2b_sandbox_destroyed:
  "(\<forall>sid w1. create_ephemeral_sandbox sb w = (Inr sid, w1) \<longrightarrow>
      last (nw_log (snd (e2b_execute sb code args iv w))) = NSandbox ''close'' sid)
   \<and> (\<forall>e w1. create_ephemeral_sandbox sb w = (Inl e, w1) \<and> is_exception e \<longrightarrow>
      fst (e2b_execute sb code args iv w) = Inr (tool_error (exc_msg e) []))"
proof (intro conjI allI impI)
  fix sid w1
  assume "create_ephemeral_sandbox sb w = (Inr sid, w1)"
  from e2b_after_create [OF this, of code args iv]
  show "last (nw_log (snd (e2b_execute sb code args iv w))) = NSandbox ''close'' sid"
    using destroy_log by (metis last_snoc)
qed (simp add: e2b_execute_def Let_def)

definition demo_sandbox :: "string \<Rightarrow> sandbox_env" where
  "demo_sandbox e = \<lparr>sb_create = (\<lambda>_. (1, Inr 3)),
     sb_cell = (\<lambda>_ _ _. ([StdOut ''a''], 1, Inr \<lparr>cr_texts = [], cr_error = Some e\<rparr>)),
     sb_process = (\<lambda>_ _ _. ([], 1, Inr None)), sb_close = (\<lambda>_ _. (1, Inr ()))\<rparr>"

definition demo_bus :: bus_world where
  "demo_bus = \<lparr>nw_log = [], nw_now = 0, nw_deadlines = [], pw_entries = [], bw_redis = redis_init, bw_events = []\<rparr>"

theorem e2b_sandbox_destroyed_witness:
  "last (nw_log (snd (e2b_execute (demo_sandbox ''x'') ''1/0'' [] ''i'' demo_bus))) = NSandbox ''close'' 3"
proof -
  have "create_ephemeral_sandbox (demo_sandbox ''x'') demo_bus
      = (Inr 3, demo_bus\<lparr>nw_log := [NSandbox ''create'' 0], nw_now := 1\<rparr>)"
    by (simp add: create_ephemeral_sandbox_def wait_for_def net_op_def demo_sandbox_def demo_bus_def)
  then show ?thesis
    using e2b_sandbox_destroyed [THEN conjunct1, of "demo_sandbox ''x''" demo_bus "''1/0''" "[]" "''i''"] by blast
qed

text \<open>The text of the error a notebook cell ended with is lost: two runs that differ only in that text
return the same result, although the code appends it to a variable named \<open>stderr\<close>.\<close>

theorem e2b_error_text_lost:
  assumes "sb_cell sb (net_tick w) sid code = (cs, t, Inr \<lparr>cr_texts = ts, cr_error = Some (c # e)\<rparr>)"
    and "sb_cell sb' (net_tick w) sid code = (cs, t, Inr \<lparr>cr_texts = ts, cr_error = Some (c' # e')\<rparr>)"
  shows "run_in_sandbox sb sid code iv w = run_in_sandbox sb' sid code iv w"
proof -
  have n: "net_tick (publish_chunks iv cs w) = net_tick w \<and> earliest (nw_deadlines (publish_chunks iv cs w)) = earliest (nw_deadlines w)"
    by (induction iv cs w rule: publish_chunks.induct) (simp_all add: net_tick_def emit_event_def)
  show ?thesis
    using assms n
    by (auto simp: run_in_sandbox_def net_op_def Let_def isinstance_def cancelled_exc_def is_subclass.simps split: option.split)
qed

theorem e2b_error_text_lost_witness:
  "run_in_sandbox (demo_sandbox ''x'') 3 ''1/0'' ''i'' demo_bus = run_in_sandbox (demo_sandbox ''y'') 3 ''1/0'' ''i'' demo_bus"
  by (rule e2b_error_text_lost) (simp_all add: demo_sandbox_def)

end
