(* ===== verification/Plugin_Registry.thy ===== *)
theory Plugin_Registry
  imports Mcp_Errors
begin

text \<open>
  The plugin registries and the loader of \<open>app/core/runtime/plugin_loader.py\<close>.  A callable is an
  opaque number.  A plugin file is user code: what compiling and executing its source does is the
  argument \<open>pl\<close>, whose \<open>pl_exec\<close> gives the calls of \<open>register_tool\<close>, \<open>register_resource\<close> and
  \<open>register_prompt\<close> a module makes, in order, and the exception it ends with, if any.  The part of
  the disk that is scanned is a tree; reading a file or listing a directory may fail.
\<close>

section \<open>The registries\<close>

type_synonym func = nat

record tool_info =
  ti_func :: func
  ti_name :: string
  ti_description :: string
  ti_schema :: json
  ti_username :: "string option"
  ti_project :: "string option"
  ti_category :: "string option"

record resource_info =
  rs_name :: string
  rs_description :: string
  rs_mime :: string
  rs_uri :: string
  rs_content :: string

record prompt_info =
  pr_func :: func
  pr_description :: string
  pr_arguments :: "json list"

record registry =
  TOOLS :: "(string, tool_info) dict"
  NAME_INDEX :: "(string, string list) dict"
  RESOURCES :: "(string, resource_info) dict"
  PROMPTS :: "(string, prompt_info) dict"
  PLUGIN_ERRORS :: "(string \<times> string) list"
  plugins_loaded :: bool
  sys_modules :: "string list"

definition registry_init :: registry where
  "registry_init = \<lparr>TOOLS = [], NAME_INDEX = [], RESOURCES = [], PROMPTS = [], PLUGIN_ERRORS = [],
     plugins_loaded = False, sys_modules = []\<rparr>"

definition tool_key :: "string option \<Rightarrow> string option \<Rightarrow> string option \<Rightarrow> string \<Rightarrow> string" where
  "tool_key username project category name =
     (if str_truthy username \<and> str_truthy project \<and> str_truthy category
      then the username @ ''/'' @ the project @ ''/'' @ the category @ ''/'' @ name
      else if str_truthy username \<and> str_truthy project
      then the username @ ''/'' @ the project @ ''/'' @ name
      else name)"

definition register_tool ::
  "string \<Rightarrow> string \<Rightarrow> json \<Rightarrow> string option \<Rightarrow> string option \<Rightarrow> string option \<Rightarrow> func \<Rightarrow> registry \<Rightarrow> registry" where
  "register_tool name description schema username project category f g =
     (let key = tool_key username project category name;
          keys = dict_get_or (NAME_INDEX g) name []
      in g\<lparr>TOOLS := dict_set key
              \<lparr>ti_func = f, ti_name = name, ti_description = description, ti_schema = schema,
               ti_username = username, ti_project = project, ti_category = category\<rparr> (TOOLS g),
           NAME_INDEX := dict_set name (if key \<in> set keys then keys else keys @ [key]) (NAME_INDEX g)\<rparr>)"

definition register_resource :: "string \<Rightarrow> string \<Rightarrow> string \<Rightarrow> string \<Rightarrow> string \<Rightarrow> registry \<Rightarrow> registry" where
  "register_resource uri name description mime content g =
     g\<lparr>RESOURCES := dict_set uri \<lparr>rs_name = name, rs_description = description, rs_mime = mime,
        rs_uri = uri, rs_content = content\<rparr> (RESOURCES g)\<rparr>"

definition register_prompt :: "string \<Rightarrow> string \<Rightarrow> json list option \<Rightarrow> func \<Rightarrow> registry \<Rightarrow> registry" where
  "register_prompt name description arguments f g =
     g\<lparr>PROMPTS := dict_set name \<lparr>pr_func = f, pr_description = description,
        pr_arguments = (case arguments of None \<Rightarrow> [] | Some a \<Rightarrow> a)\<rparr> (PROMPTS g)\<rparr>"

section \<open>Modules\<close>

type_synonym owner = "string option \<times> string option \<times> string option"

text \<open>
  A call a plugin module makes.  \<open>RegTool\<close> carries the owner arguments the module passes itself, if
  it passes any; the decorator a namespaced plugin is given takes none, so passing them raises
  \<open>TypeError\<close>, which ends the module.
\<close>

datatype plugin_act =
    RegTool string string json "owner option" func
  | RegResource string string string string string
  | RegPrompt string string "json list option" func

record plugin_lang =
  pl_compile :: "string \<Rightarrow> exc option"
  pl_exec :: "string \<Rightarrow> string \<Rightarrow> plugin_act list \<times> exc option"

definition owner_arg_error :: exc where
  "owner_arg_error = Exc TypeErr ''_rt() got an unexpected keyword argument''"

fun run_acts :: "owner option \<Rightarrow> plugin_act list \<Rightarrow> exc option \<Rightarrow> (registry, exc, unit) pm" where
  "run_acts ns [] e g = (case e of None \<Rightarrow> (Inr (), g) | Some x \<Rightarrow> (Inl x, g))"
| "run_acts ns (RegTool name d s ow f # acts) e g =
     (case ns of
        Some (u, p, c) \<Rightarrow>
          (case ow of
             Some _ \<Rightarrow> (Inl owner_arg_error, g)
           | None \<Rightarrow> run_acts ns acts e (register_tool name d s u p c f g))
      | None \<Rightarrow>
          (case ow of
             Some (u, p, c) \<Rightarrow> run_acts ns acts e (register_tool name d s u p c f g)
           | None \<Rightarrow> run_acts ns acts e (register_tool name d s None None None f g)))"
| "run_acts ns (RegResource u n d m c # acts) e g = run_acts ns acts e (register_resource u n d m c g)"
| "run_acts ns (RegPrompt n d a f # acts) e g = run_acts ns acts e (register_prompt n d a f g)"

section \<open>Loading\<close>

datatype fsnode = FFile "exc + string" | FDir "exc + (string \<times> fsnode) list"

fun is_dir :: "fsnode \<Rightarrow> bool" where
  "is_dir (FDir _) = True"
| "is_dir (FFile _) = False"

text \<open>\<open>iterdir\<close> raises for a file and for a directory that cannot be listed.\<close>

fun iterdir :: "fsnode \<Rightarrow> exc + (string \<times> fsnode) list" where
  "iterdir (FDir r) = r"
| "iterdir (FFile _) = Inl (Exc OSErr ''Not a directory'')"

definition subdirs :: "fsnode \<Rightarrow> exc + (string \<times> fsnode) list" where
  "subdirs d = map_sum id (filter (\<lambda>(n, x). is_dir x \<and> \<not> startswith n ''.'')) (iterdir d)"

definition fs_child :: "fsnode \<Rightarrow> string \<Rightarrow> fsnode option" where
  "fs_child d n = (case d of FDir (Inr es) \<Rightarrow> dict_get es n | _ \<Rightarrow> None)"

text \<open>\<open>base.glob("*.py")\<close> without the names that begin with an underscore; \<open>glob\<close> does not raise.\<close>

definition py_files :: "fsnode \<Rightarrow> (string \<times> fsnode) list" where
  "py_files d =
     (case iterdir d of
        Inl _ \<Rightarrow> []
      | Inr es \<Rightarrow> filter (\<lambda>(n, x). endswith n ''.py'' \<and> \<not> startswith n ''_'') es)"

definition py_stem :: "string \<Rightarrow> string" where
  "py_stem n = (if n = ''.py'' then n else take (length n - 3) n)"

fun read_text :: "fsnode \<Rightarrow> exc + string" where
  "read_text (FFile r) = r"
| "read_text (FDir _) = Inl (Exc IsADirectoryErr ''Is a directory'')"

definition opt_str :: "string option \<Rightarrow> string list" where
  "opt_str s = (if str_truthy s then [the s] else [])"

definition mod_name :: "owner \<Rightarrow> string \<Rightarrow> string" where
  "mod_name ow stem = (case ow of (u, p, c) \<Rightarrow> join_str ''.'' (opt_str u @ opt_str p @ opt_str c @ [stem]))"

definition namespaced :: "owner \<Rightarrow> owner option" where
  "namespaced ow = (case ow of (u, p, c) \<Rightarrow>
     if str_truthy u \<and> str_truthy p \<and> str_truthy c then Some ow else None)"

definition add_error :: "string \<Rightarrow> string \<Rightarrow> registry \<Rightarrow> registry" where
  "add_error f e g = g\<lparr>PLUGIN_ERRORS := PLUGIN_ERRORS g @ [(f, e)]\<rparr>"

text \<open>
  One pass of the loop of \<open>_load_directory\<close>: the number of modules it adds to \<open>tools_found\<close>, or the
  exception that leaves the loop.  Reading or compiling a file may raise something other than
  \<open>SyntaxError\<close>, which is not caught here.
\<close>

definition load_file ::
  "plugin_lang \<Rightarrow> owner \<Rightarrow> string \<Rightarrow> string \<times> fsnode \<Rightarrow> (registry, exc, nat) pm" where
  "load_file pl ow path entry g =
     (case entry of (n, x) \<Rightarrow>
      let file = path @ ''/'' @ n in
      case (case read_text x of
              Inl e \<Rightarrow> Inl e
            | Inr src \<Rightarrow> (case pl_compile pl src of Some e \<Rightarrow> Inl e | None \<Rightarrow> Inr src)) of
        Inl e \<Rightarrow> if isinstance e [SyntaxErr] then (Inr 0, add_error file (exc_msg e) g) else (Inl e, g)
      | Inr src \<Rightarrow>
          (case pl_exec pl (mod_name ow (py_stem n)) src of
             (acts, e) \<Rightarrow>
               (case run_acts (namespaced ow) acts e g of
                  (Inr _, g') \<Rightarrow> (Inr 1, g')
                | (Inl x, g') \<Rightarrow>
                    if is_exception x then (Inr 0, add_error file (exc_msg x) g') else (Inl x, g'))))"

fun load_files ::
  "plugin_lang \<Rightarrow> owner \<Rightarrow> string \<Rightarrow> (string \<times> fsnode) list \<Rightarrow> (registry, exc, nat) pm" where
  "load_files pl ow path [] g = (Inr 0, g)"
| "load_files pl ow path (f # fs) g =
     (case load_file pl ow path f g of
        (Inl e, g') \<Rightarrow> (Inl e, g')
      | (Inr n, g') \<Rightarrow>
          (case load_files pl ow path fs g' of
             (Inl e, g'') \<Rightarrow> (Inl e, g'')
           | (Inr m, g'') \<Rightarrow> (Inr (n + m), g'')))"

definition load_directory :: "plugin_lang \<Rightarrow> owner \<Rightarrow> string \<Rightarrow> fsnode \<Rightarrow> (registry, exc, nat) pm" where
  "load_directory pl ow path d = load_files pl ow path (py_files d)"

text \<open>The nested loops of \<open>load_plugins\<close>: a loop over entries that adds up the counts.\<close>

fun for_sum :: "('a \<Rightarrow> (registry, exc, nat) pm) \<Rightarrow> 'a list \<Rightarrow> (registry, exc, nat) pm" where
  "for_sum f [] g = (Inr 0, g)"
| "for_sum f (x # xs) g =
     (case f x g of
        (Inl e, g') \<Rightarrow> (Inl e, g')
      | (Inr n, g') \<Rightarrow>
          (case for_sum f xs g' of
             (Inl e, g'') \<Rightarrow> (Inl e, g'')
           | (Inr m, g'') \<Rightarrow> (Inr (n + m), g'')))"

definition for_subdirs ::
  "fsnode \<Rightarrow> (string \<times> fsnode \<Rightarrow> (registry, exc, nat) pm) \<Rightarrow> (registry, exc, nat) pm" where
  "for_subdirs d f g = (case subdirs d of Inl e \<Rightarrow> (Inl e, g) | Inr es \<Rightarrow> for_sum f es g)"

definition load_tool_dir ::
  "plugin_lang \<Rightarrow> string \<Rightarrow> string \<Rightarrow> string \<Rightarrow> string \<times> fsnode \<Rightarrow> (registry, exc, nat) pm" where
  "load_tool_dir pl u p c t g =
     (case fs_child (snd t) ''references'' of
        None \<Rightarrow> (Inr 0, g)
      | Some refs \<Rightarrow>
          load_directory pl (Some u, Some p, Some c)
            (join_str ''/'' [''data'', u, p, ''tools'', c, fst t, ''references'']) refs g)"

definition load_user_dir :: "plugin_lang \<Rightarrow> string \<times> fsnode \<Rightarrow> (registry, exc, nat) pm" where
  "load_user_dir pl user =
     for_subdirs (snd user) (\<lambda>project g.
       case fs_child (snd project) ''tools'' of
         None \<Rightarrow> (Inr 0, g)
       | Some tools \<Rightarrow>
           for_subdirs tools (\<lambda>category.
             for_subdirs (snd category) (load_tool_dir pl (fst user) (fst project) (fst category))) g)"

record disk =
  tools_root :: "fsnode option"
  data_root :: "fsnode option"

text \<open>
  \<open>load_plugins\<close>; a missing data directory is created empty, and a data directory that cannot be
  listed ends the function without an error.  The result is the total that the code logs.
\<close>

definition load_system_tools :: "plugin_lang \<Rightarrow> disk \<Rightarrow> (registry, exc, nat) pm" where
  "load_system_tools pl d g =
     (case tools_root d of
        None \<Rightarrow> (Inr 0, g)
      | Some t \<Rightarrow> load_directory pl (None, None, None) ''tools'' t g)"

definition load_plugins :: "plugin_lang \<Rightarrow> disk \<Rightarrow> (registry, exc, nat) pm" where
  "load_plugins pl d g =
     (case load_system_tools pl d g of
        (Inl e, g') \<Rightarrow> (Inl e, g')
      | (Inr n, g') \<Rightarrow>
          (case subdirs (case data_root d of None \<Rightarrow> FDir (Inr []) | Some r \<Rightarrow> r) of
             Inl e \<Rightarrow> if is_exception e then (Inr n, g') else (Inl e, g')
           | Inr users \<Rightarrow>
               (case for_sum (load_user_dir pl) users g' of
                  (Inl e, g'') \<Rightarrow> (Inl e, g'')
                | (Inr m, g'') \<Rightarrow> (Inr (n + m), g''))))"

definition SKIP :: "string list" where
  "SKIP = [''google.'', ''vertexai.'', ''grpc.'', ''proto.'', ''boto'', ''botocore.'', ''flask.'',
     ''werkzeug.'', ''jinja2.'', ''requests.'', ''urllib3.'', ''pydantic.'', ''fastapi.'', ''uvicorn.'',
     ''starlette.'', ''anyio.'', ''sniffio.'', ''jwt.'', ''cryptography.'', ''stripe.'', ''httpx.'',
     ''httpcore.'', ''app.'']"

definition purged_module :: "string \<Rightarrow> bool" where
  "purged_module m \<longleftrightarrow> CHR ''.'' \<in> set m \<and> \<not> startswith m ''_'' \<and> \<not> list_ex (startswith m) SKIP
     \<and> 3 \<le> length (split_char (CHR ''.'') m)"

text \<open>
  The removal of the \<open>__pycache__\<close> directories below the data root; \<open>ok\<close> says whether a directory can
  be removed, a failure is ignored.
\<close>

fun drop_pycache :: "(fsnode \<Rightarrow> bool) \<Rightarrow> fsnode \<Rightarrow> fsnode" where
  "drop_pycache ok (FFile r) = FFile r"
| "drop_pycache ok (FDir (Inl e)) = FDir (Inl e)"
| "drop_pycache ok (FDir (Inr es)) =
     FDir (Inr (map (\<lambda>(n, x). (n, drop_pycache ok x))
       (filter (\<lambda>(n, x). \<not> (n = ''__pycache__'' \<and> is_dir x \<and> ok x)) es)))"

definition clear_registries :: "registry \<Rightarrow> registry" where
  "clear_registries g =
     g\<lparr>plugins_loaded := False, TOOLS := [], NAME_INDEX := [], RESOURCES := [], PROMPTS := [], PLUGIN_ERRORS := []\<rparr>"

definition reload_plugins ::
  "plugin_lang \<Rightarrow> (fsnode \<Rightarrow> bool) \<Rightarrow> disk \<Rightarrow> (registry, exc, nat \<times> nat \<times> nat \<times> nat) pm" where
  "reload_plugins pl ok d g =
     (let g1 = clear_registries g;
          g2 = g1\<lparr>sys_modules := filter (\<lambda>m. \<not> purged_module m) (sys_modules g1)\<rparr>;
          d' = d\<lparr>data_root := map_option (drop_pycache ok) (data_root d)\<rparr>
      in case load_plugins pl d' g2 of
           (Inl e, g3) \<Rightarrow> (Inl e, g3)
         | (Inr _, g3) \<Rightarrow>
             (Inr (length (TOOLS g3), length (RESOURCES g3), length (PROMPTS g3), length (PLUGIN_ERRORS g3)),
              g3\<lparr>plugins_loaded := True\<rparr>))"

text \<open>The thread of \<open>start_plugin_loader\<close>: an exception is logged, and the event is set in any case.\<close>

definition start_plugin_loader :: "plugin_lang \<Rightarrow> disk \<Rightarrow> (registry, exc, unit) pm" where
  "start_plugin_loader pl d g =
     (case load_plugins pl d g of
        (Inl e, g') \<Rightarrow> (if is_exception e then Inr () else Inl e, g'\<lparr>plugins_loaded := True\<rparr>)
      | (Inr _, g') \<Rightarrow> (Inr (), g'\<lparr>plugins_loaded := True\<rparr>))"

section \<open>Invariants of the loader\<close>

text \<open>
  The contract between the registration functions and the loader: a property of the registries that
  every registration of an admissible tool name keeps, and that does not speak of the error list, holds
  after any load.  \<open>ok_name\<close> restricts the names plugins register.
\<close>

definition names_ok :: "(string \<Rightarrow> bool) \<Rightarrow> plugin_act list \<Rightarrow> bool" where
  "names_ok ok acts \<longleftrightarrow> list_all (\<lambda>a. case a of RegTool n d s ow f \<Rightarrow> ok n | _ \<Rightarrow> True) acts"

lemma names_ok_simps [simp]:
  "names_ok ok []" "names_ok ok (RegTool n d s ow f # acts) \<longleftrightarrow> ok n \<and> names_ok ok acts"
  "names_ok ok (RegResource u m d i c # acts) \<longleftrightarrow> names_ok ok acts"
  "names_ok ok (RegPrompt m d' a f # acts) \<longleftrightarrow> names_ok ok acts"
  by (simp_all add: names_ok_def)

definition plugin_names_ok :: "(string \<Rightarrow> bool) \<Rightarrow> plugin_lang \<Rightarrow> bool" where
  "plugin_names_ok ok pl \<longleftrightarrow> (\<forall>m src. names_ok ok (fst (pl_exec pl m src)))"

lemma plugin_names_True [simp]: "plugin_names_ok (\<lambda>_. True) pl"
  by (simp add: plugin_names_ok_def names_ok_def list_all_iff split: plugin_act.split)

locale registry_inv =
  fixes inv :: "registry \<Rightarrow> bool"
    and ok_name :: "string \<Rightarrow> bool"
  assumes inv_tool: "inv g \<Longrightarrow> ok_name n \<Longrightarrow> inv (register_tool n d s u p c f g)"
    and inv_resource: "inv g \<Longrightarrow> inv (register_resource ur n d m ct g)"
    and inv_prompt: "inv g \<Longrightarrow> inv (register_prompt n d a f g)"
    and inv_error: "inv g \<Longrightarrow> inv (add_error file e g)"
begin

lemma run_acts_inv: "inv g \<Longrightarrow> names_ok ok_name acts \<Longrightarrow> inv (snd (run_acts ns acts e g))"
  by (induction ns acts e g rule: run_acts.induct)
    (auto simp: inv_tool inv_resource inv_prompt split: option.splits prod.splits)

lemma load_file_inv:
  assumes "inv g" "plugin_names_ok ok_name pl"
  shows "inv (snd (load_file pl ow path x g))"
proof -
  have "inv (snd (run_acts ns (fst (pl_exec pl m src)) e g))" for ns m src e
    using assms by (simp add: run_acts_inv plugin_names_ok_def)
  then have "inv g'" if "pl_exec pl m src = (acts, e)" "run_acts ns acts e g = (r, g')" for ns m src acts e r g'
    using that by (metis fst_conv snd_conv)
  with assms(1) show ?thesis
    by (auto simp: load_file_def Let_def inv_error split: prod.split sum.split option.split)
qed

lemma load_files_inv:
  "inv g \<Longrightarrow> plugin_names_ok ok_name pl \<Longrightarrow> inv (snd (load_files pl ow path fs g))"
proof (induction fs arbitrary: g)
  case (Cons f fs)
  then show ?case
    using load_file_inv [of g pl ow path f] by (auto split: prod.split sum.split) (metis snd_conv)+
qed simp

lemma for_sum_inv: "(\<And>x g. inv g \<Longrightarrow> inv (snd (f x g))) \<Longrightarrow> inv g \<Longrightarrow> inv (snd (for_sum f xs g))"
proof (induction xs arbitrary: g)
  case (Cons x xs)
  then show ?case by (auto split: prod.split sum.split) (metis snd_conv)+
qed simp

lemma for_subdirs_inv: "(\<And>x g. inv g \<Longrightarrow> inv (snd (f x g))) \<Longrightarrow> inv g \<Longrightarrow> inv (snd (for_subdirs d f g))"
  by (auto simp: for_subdirs_def for_sum_inv split: sum.split)

lemma load_user_dir_inv: "inv g \<Longrightarrow> plugin_names_ok ok_name pl \<Longrightarrow> inv (snd (load_user_dir pl u g))"
  unfolding load_user_dir_def
  by (auto intro!: for_subdirs_inv simp: load_tool_dir_def load_directory_def load_files_inv split: option.split)

lemma load_plugins_inv:
  assumes "inv g" "plugin_names_ok ok_name pl"
  shows "inv (snd (load_plugins pl d g))"
proof -
  have 1: "inv (snd (load_system_tools pl d g))"
    using assms by (simp add: load_system_tools_def load_directory_def load_files_inv split: option.split)
  have 2: "inv (snd (for_sum (load_user_dir pl) us g'))" if "inv g'" for us g'
    using that assms(2) by (intro for_sum_inv) (auto intro: load_user_dir_inv)
  show ?thesis
    using 1 2 unfolding load_plugins_def by (auto split: prod.split sum.split) (metis snd_conv)+
qed

end

section \<open>The name index\<close>

definition index_of :: "registry \<Rightarrow> string \<Rightarrow> string list" where
  "index_of g n = dict_get_or (NAME_INDEX g) n []"

text \<open>The reference the index stands for: the keys of the tools of that name, found by a full scan.\<close>

definition scan_names :: "registry \<Rightarrow> string \<Rightarrow> string list" where
  "scan_names g n = map fst (filter (\<lambda>(k, i). ti_name i = n) (TOOLS g))"

definition registry_wf :: "registry \<Rightarrow> bool" where
  "registry_wf g \<longleftrightarrow> dict_wf (TOOLS g) \<and> dict_wf (NAME_INDEX g)
     \<and> (\<forall>n. distinct (index_of g n))
     \<and> (\<forall>k i. dict_get (TOOLS g) k = Some i \<longrightarrow> k \<in> set (index_of g (ti_name i)))
     \<and> (\<forall>n k. k \<in> set (index_of g n) \<longrightarrow> dict_get (TOOLS g) k \<noteq> None)
     \<and> (\<forall>k i. dict_get (TOOLS g) k = Some i \<longrightarrow> k = tool_key (ti_username i) (ti_project i) (ti_category i) (ti_name i))"

definition no_slash :: "string \<Rightarrow> bool" where
  "no_slash n \<longleftrightarrow> CHR ''/'' \<notin> set n"

definition index_exact :: "registry \<Rightarrow> bool" where
  "index_exact g \<longleftrightarrow> dict_wf (TOOLS g) \<and> (\<forall>n. index_of g n = scan_names g n)
     \<and> (\<forall>k i. dict_get (TOOLS g) k = Some i \<longrightarrow> last (split_char (CHR ''/'') k) = ti_name i)"

lemma index_of_register:
  "index_of (register_tool n d s u p c f g) m =
     (let k = tool_key u p c n; ks = index_of g n
      in if m = n then (if k \<in> set ks then ks else ks @ [k]) else index_of g m)"
  by (simp add: index_of_def register_tool_def Let_def dict_get_or_def)

lemma TOOLS_register:
  "TOOLS (register_tool n d s u p c f g) = dict_set (tool_key u p c n)
     \<lparr>ti_func = f, ti_name = n, ti_description = d, ti_schema = s, ti_username = u, ti_project = p, ti_category = c\<rparr>
     (TOOLS g)"
  by (simp add: register_tool_def Let_def)

lemma other_ops_frame [simp]:
  "TOOLS (register_resource ur n d m ct g) = TOOLS g" "TOOLS (register_prompt n d a f g) = TOOLS g"
  "TOOLS (add_error file e g) = TOOLS g"
  "NAME_INDEX (register_resource ur n d m ct g) = NAME_INDEX g" "NAME_INDEX (register_prompt n d a f g) = NAME_INDEX g"
  "NAME_INDEX (add_error file e g) = NAME_INDEX g"
  "index_of (register_resource ur n d m ct g) = index_of g" "index_of (register_prompt n d a f g) = index_of g"
  "index_of (add_error file e g) = index_of g"
  "scan_names (register_resource ur n d m ct g) = scan_names g" "scan_names (register_prompt n d a f g) = scan_names g"
  "scan_names (add_error file e g) = scan_names g"
  by (auto simp: register_resource_def register_prompt_def add_error_def index_of_def scan_names_def)

lemma registry_wf_register: "registry_wf g \<Longrightarrow> registry_wf (register_tool n d s u p c f g)"
  unfolding registry_wf_def index_of_register TOOLS_register Let_def
  by (auto simp: register_tool_def Let_def)

interpretation wf_inv: registry_inv registry_wf "\<lambda>_. True"
  by unfold_locales (auto simp: registry_wf_register, auto simp: registry_wf_def)

lemma split_char_last: "no_slash n \<Longrightarrow> last (split_char (CHR ''/'') (a @ CHR ''/'' # n)) = n"
  unfolding no_slash_def
proof (induction a)
  case (Cons x a)
  obtain w ws where "split_char (CHR ''/'') (a @ CHR ''/'' # n) = w # ws"
    by (cases "split_char (CHR ''/'') (a @ CHR ''/'' # n)") auto
  moreover have "1 < length (split_char (CHR ''/'') (a @ CHR ''/'' # n))"
    by (rule split_quote_second) simp
  ultimately show ?case using Cons by (cases ws) auto
qed (simp add: split_char_id)

lemma tool_key_last: "no_slash n \<Longrightarrow> last (split_char (CHR ''/'') (tool_key u p c n)) = n"
  using split_char_last [of n "the u @ ''/'' @ the p @ ''/'' @ the c"] split_char_last [of n "the u @ ''/'' @ the p"]
  by (auto simp: tool_key_def split_char_id no_slash_def)

lemma scan_dict_set:
  assumes "dict_wf t" and "\<And>i. dict_get t k = Some i \<Longrightarrow> ti_name i = ti_name v"
  shows "map fst (filter (\<lambda>(k, i). ti_name i = n) (dict_set k v t)) =
    map fst (filter (\<lambda>(k, i). ti_name i = n) t) @ (if dict_get t k = None \<and> ti_name v = n then [k] else [])"
proof (cases "dict_get t k")
  case None
  then show ?thesis by (simp add: dict_set_fresh)
next
  case (Some i)
  from assms show ?thesis
  proof (induction t)
    case (Cons x t)
    obtain k' v' where x: "x = (k', v')" by force
    show ?case
    proof (cases "k' = k")
      case True
      with Cons.prems x show ?thesis by simp
    next
      case False
      with Cons x show ?thesis by (simp add: dict_wf_def)
    qed
  qed simp
qed

lemma index_exact_register:
  assumes g: "index_exact g" and n: "no_slash n"
  shows "index_exact (register_tool n d s u p c f g)"
proof -
  let ?k = "tool_key u p c n"
  let ?v = "\<lparr>ti_func = f, ti_name = n, ti_description = d, ti_schema = s, ti_username = u, ti_project = p, ti_category = c\<rparr>"
  have same: "ti_name i = ti_name ?v" if "dict_get (TOOLS g) ?k = Some i" for i
    using g that tool_key_last [OF n, of u p c] by (auto simp: index_exact_def)
  have mem: "?k \<in> set (scan_names g n) \<longleftrightarrow> dict_get (TOOLS g) ?k \<noteq> None"
  proof (cases "dict_get (TOOLS g) ?k")
    case None
    then have "?k \<notin> fst ` set (TOOLS g)" using dict_get_None_iff by metis
    then have "?k \<notin> set (scan_names g n)" unfolding scan_names_def by auto
    with None show ?thesis by simp
  next
    case (Some i)
    then have "(?k, i) \<in> set (TOOLS g)" by (rule map_of_SomeD)
    moreover have "ti_name i = n" using same [OF Some] by simp
    ultimately have "?k \<in> set (scan_names g n)" unfolding scan_names_def by force
    then show ?thesis using Some by simp
  qed
  have "scan_names (register_tool n d s u p c f g) m =
      scan_names g m @ (if dict_get (TOOLS g) ?k = None \<and> n = m then [?k] else [])" for m
    using scan_dict_set [of "TOOLS g" ?k ?v m] g same
    by (simp add: scan_names_def TOOLS_register index_exact_def)
  then show ?thesis
    using g mem tool_key_last [OF n, of u p c]
    by (auto simp: index_exact_def index_of_register Let_def TOOLS_register)
qed

interpretation exact_inv: registry_inv index_exact no_slash
  by unfold_locales (auto simp: index_exact_register, auto simp: index_exact_def)

section \<open>Properties of loading\<close>

lemma cleared_ok: "registry_wf (clear_registries g)" "index_exact (clear_registries g)"
  by (simp_all add: clear_registries_def registry_wf_def index_exact_def index_of_def scan_names_def dict_get_or_def)

definition clear_all :: "registry \<Rightarrow> registry" where
  "clear_all g = (clear_registries g)\<lparr>sys_modules := filter (\<lambda>m. \<not> purged_module m) (sys_modules g)\<rparr>"

lemma clear_all_ok: "registry_wf (clear_all g)" "index_exact (clear_all g)"
  by (simp_all add: clear_all_def clear_registries_def registry_wf_def index_exact_def index_of_def
      scan_names_def dict_get_or_def)

lemma reload_state:
  "snd (reload_plugins pl ok d g) =
     (let r = load_plugins pl (d\<lparr>data_root := map_option (drop_pycache ok) (data_root d)\<rparr>) (clear_all g)
      in (case fst r of Inl e \<Rightarrow> snd r | Inr n \<Rightarrow> (snd r)\<lparr>plugins_loaded := True\<rparr>))"
  by (auto simp: reload_plugins_def clear_all_def clear_registries_def Let_def split: prod.split sum.split)

lemma loaded_frame [simp]:
  "registry_wf (g\<lparr>plugins_loaded := b\<rparr>) = registry_wf g" "index_of (g\<lparr>plugins_loaded := b\<rparr>) = index_of g"
  "scan_names (g\<lparr>plugins_loaded := b\<rparr>) = scan_names g"
  by (auto simp: registry_wf_def index_of_def scan_names_def)

text \<open>C12.  Whatever the plugins on disk do and whether or not the reload raises, after a reload the
registries are consistent: keys are unique, every tool is stored under the key made of its owner and its
name and is listed in the index under its name, and every key of the index names a stored tool.\<close>

theorem reload_registry_wf: "registry_wf (snd (reload_plugins pl ok d g))"
  by (simp add: reload_state Let_def wf_inv.load_plugins_inv clear_all_ok split: sum.split)

text \<open>C11.  When no plugin registers a name with a slash in it, then after a reload the index lookup by
display name returns the very list of keys, in the same order, that a full scan of the tools returns.\<close>

theorem name_index_is_scan:
  assumes "plugin_names_ok no_slash pl"
  shows "index_of (snd (reload_plugins pl ok d g)) n = scan_names (snd (reload_plugins pl ok d g)) n"
proof -
  have "index_exact (snd (load_plugins pl d' (clear_all g)))" for d'
    by (rule exact_inv.load_plugins_inv [OF clear_all_ok(2) assms])
  then show ?thesis by (simp add: reload_state Let_def index_exact_def split: sum.split)
qed

definition demo_lang :: plugin_lang where
  "demo_lang = \<lparr>pl_compile = (\<lambda>src. if src = ''!'' then Some (Exc SyntaxErr ''invalid syntax'') else None),
     pl_exec = (\<lambda>m src. ([RegTool ''add'' src (JObj []) None (length src)], None))\<rparr>"

definition demo_disk :: disk where
  "demo_disk = \<lparr>tools_root = Some (FDir (Inr [(''a.py'', FFile (Inr ''x'')), (''b.py'', FFile (Inr ''!''))])),
     data_root = Some (FDir (Inr [(''u'', FDir (Inr [(''p'', FDir (Inr [(''tools'', FDir (Inr [(''c'',
       FDir (Inr [(''t'', FDir (Inr [(''references'', FDir (Inr [(''t.py'', FFile (Inr ''yy''))]))]))]))]))]))]))]))\<rparr>"

theorem name_index_is_scan_witness:
  "scan_names (snd (reload_plugins demo_lang (\<lambda>_. True) demo_disk registry_init)) ''add''
   = index_of (snd (reload_plugins demo_lang (\<lambda>_. True) demo_disk registry_init)) ''add''
   \<and> index_of (snd (reload_plugins demo_lang (\<lambda>_. True) demo_disk registry_init)) ''add'' = [''add'', ''u/p/c/add'']"
proof
  show "scan_names (snd (reload_plugins demo_lang (\<lambda>_. True) demo_disk registry_init)) ''add''
      = index_of (snd (reload_plugins demo_lang (\<lambda>_. True) demo_disk registry_init)) ''add''"
    by (rule name_index_is_scan [symmetric]) (simp add: plugin_names_ok_def demo_lang_def no_slash_def)
  show "index_of (snd (reload_plugins demo_lang (\<lambda>_. True) demo_disk registry_init)) ''add''
      = [''add'', ''u/p/c/add'']"
    by code_simp
qed

text \<open>Loading reads and writes neither \<open>sys.modules\<close> nor the loaded flag.\<close>

definition set_env :: "bool \<Rightarrow> string list \<Rightarrow> registry \<Rightarrow> registry" where
  "set_env b ms g = g\<lparr>plugins_loaded := b, sys_modules := ms\<rparr>"

lemma set_env_ops [simp]:
  "register_tool n d s u p c f (set_env b ms g) = set_env b ms (register_tool n d s u p c f g)"
  "register_resource ur n d m ct (set_env b ms g) = set_env b ms (register_resource ur n d m ct g)"
  "register_prompt n d a f (set_env b ms g) = set_env b ms (register_prompt n d a f g)"
  "add_error file e (set_env b ms g) = set_env b ms (add_error file e g)"
  by (simp_all add: set_env_def register_tool_def register_resource_def register_prompt_def add_error_def Let_def)

lemma run_acts_env [simp]: "run_acts ns acts e (set_env b ms g) = map_prod id (set_env b ms) (run_acts ns acts e g)"
  by (induction ns acts e g rule: run_acts.induct) (auto split: option.split)

lemma load_file_env [simp]: "load_file pl ow path x (set_env b ms g) = map_prod id (set_env b ms) (load_file pl ow path x g)"
  by (simp add: load_file_def Let_def map_prod_def split: prod.split sum.split option.split)

lemma load_files_env [simp]:
  "load_files pl ow path fs (set_env b ms g) = map_prod id (set_env b ms) (load_files pl ow path fs g)"
  by (induction fs arbitrary: g) (simp_all add: map_prod_def split: prod.split sum.split)

lemma for_sum_env:
  "(\<And>x g. f x (set_env b ms g) = map_prod id (set_env b ms) (f x g)) \<Longrightarrow>
   for_sum f xs (set_env b ms g) = map_prod id (set_env b ms) (for_sum f xs g)"
  by (induction xs arbitrary: g) (simp_all add: map_prod_def split: prod.split sum.split)

lemma for_subdirs_env:
  "(\<And>x g. f x (set_env b ms g) = map_prod id (set_env b ms) (f x g)) \<Longrightarrow>
   for_subdirs d f (set_env b ms g) = map_prod id (set_env b ms) (for_subdirs d f g)"
  by (simp add: for_subdirs_def for_sum_env split: sum.split)

lemma load_user_dir_env: "load_user_dir pl u (set_env b ms g) = map_prod id (set_env b ms) (load_user_dir pl u g)"
  unfolding load_user_dir_def
  by (auto intro!: for_subdirs_env simp: load_tool_dir_def load_directory_def split: option.split)

lemma load_plugins_env: "load_plugins pl d (set_env b ms g) = map_prod id (set_env b ms) (load_plugins pl d g)"
proof -
  have A: "load_system_tools pl d (set_env b ms g) = map_prod id (set_env b ms) (load_system_tools pl d g)"
    by (simp add: load_system_tools_def load_directory_def split: option.split)
  note F = for_sum_env [of "load_user_dir pl", OF load_user_dir_env]
  obtain r g' where "load_system_tools pl d g = (r, g')" by force
  with A show ?thesis
    unfolding load_plugins_def
    by (cases r) (auto simp: F split: sum.split prod.split)
qed

text \<open>A reload forgets: its result and the registries it leaves are those of a first load of the
same disk, whatever was registered before.\<close>

theorem reload_is_fresh:
  "fst (reload_plugins pl ok d g) = fst (reload_plugins pl ok d registry_init)
   \<and> set_env b [] (snd (reload_plugins pl ok d g)) = set_env b [] (snd (reload_plugins pl ok d registry_init))"
proof -
  define d' where "d' = d\<lparr>data_root := map_option (drop_pycache ok) (data_root d)\<rparr>"
  obtain ms where "clear_all g = set_env False ms (clear_all registry_init)"
    by (rule that [of "sys_modules (clear_all g)"])
      (cases g, simp add: clear_all_def clear_registries_def set_env_def registry_init_def)
  then have "load_plugins pl d' (clear_all g) = map_prod id (set_env False ms) (load_plugins pl d' (clear_all registry_init))"
    by (simp add: load_plugins_env)
  moreover have "reload_plugins pl ok d h = (let r = load_plugins pl d' (clear_all h) in
      (map_sum id (\<lambda>_. (length (TOOLS (snd r)), length (RESOURCES (snd r)), length (PROMPTS (snd r)),
          length (PLUGIN_ERRORS (snd r)))) (fst r),
       case fst r of Inl e \<Rightarrow> snd r | Inr n \<Rightarrow> (snd r)\<lparr>plugins_loaded := True\<rparr>))" for h
    by (auto simp: reload_plugins_def clear_all_def clear_registries_def d'_def Let_def split: prod.split sum.split)
  ultimately show ?thesis
    by (auto simp: Let_def set_env_def split: sum.split)
qed

section \<open>Failing plugins\<close>

definition plugin_readable :: "plugin_lang \<Rightarrow> fsnode \<Rightarrow> bool" where
  "plugin_readable pl x =
     (case read_text x of
        Inl e \<Rightarrow> isinstance e [SyntaxErr]
      | Inr src \<Rightarrow> (case pl_compile pl src of None \<Rightarrow> True | Some e \<Rightarrow> isinstance e [SyntaxErr]))"

definition plugin_raises_exceptions :: "plugin_lang \<Rightarrow> bool" where
  "plugin_raises_exceptions pl \<longleftrightarrow> (\<forall>m src. pred_option is_exception (snd (pl_exec pl m src)))"

lemma run_acts_raises:
  "pred_option is_exception e \<Longrightarrow> fst (run_acts ns acts e g) = Inl x \<Longrightarrow> is_exception x"
  by (induction ns acts e g rule: run_acts.induct)
    (auto simp: owner_arg_error_def is_exception_iff split: option.splits prod.splits)

lemma run_acts_errors [simp]: "PLUGIN_ERRORS (snd (run_acts ns acts e g)) = PLUGIN_ERRORS g"
  by (induction ns acts e g rule: run_acts.induct)
    (auto simp: register_tool_def register_resource_def register_prompt_def Let_def split: option.split)

lemma load_file_accounts:
  assumes "plugin_readable pl x" "plugin_raises_exceptions pl"
  shows "\<exists>c. fst (load_file pl ow path (n, x) g) = Inr c
    \<and> c + length (PLUGIN_ERRORS (snd (load_file pl ow path (n, x) g))) = Suc (length (PLUGIN_ERRORS g))"
proof -
  have errs: "PLUGIN_ERRORS g' = PLUGIN_ERRORS g" if "run_acts ns acts e g = (r, g')" for ns acts e r g'
    using that by (metis run_acts_errors snd_conv)
  have exc: "is_exception y"
    if "pl_exec pl m src = (acts, e)" "run_acts ns acts e g = (Inl y, g')" for ns acts e m src y g'
  proof -
    have "pred_option is_exception e"
      using assms(2) that(1) unfolding plugin_raises_exceptions_def by (metis snd_conv)
    with that(2) show ?thesis by (metis run_acts_raises fst_conv)
  qed
  show ?thesis
    using assms(1)
    by (auto simp: load_file_def Let_def plugin_readable_def add_error_def errs
        split: sum.splits option.splits prod.split dest: exc)
qed

lemma load_files_accounts:
  assumes "\<forall>f\<in>set fs. plugin_readable pl (snd f)" "plugin_raises_exceptions pl"
  shows "\<exists>c. fst (load_files pl ow path fs g) = Inr c
    \<and> c + length (PLUGIN_ERRORS (snd (load_files pl ow path fs g))) = length (PLUGIN_ERRORS g) + length fs"
  using assms(1)
proof (induction fs arbitrary: g)
  case (Cons f fs)
  obtain n x where f: "f = (n, x)" by force
  obtain c g' where 1: "load_file pl ow path f g = (Inr c, g')"
    and c: "c + length (PLUGIN_ERRORS g') = Suc (length (PLUGIN_ERRORS g))"
    using load_file_accounts [OF _ assms(2), of x ow path n g] Cons.prems f
    by (cases "load_file pl ow path f g") auto
  obtain m g'' where 2: "load_files pl ow path fs g' = (Inr m, g'')"
    and m: "m + length (PLUGIN_ERRORS g'') = length (PLUGIN_ERRORS g') + length fs"
    using Cons.IH [of g'] Cons.prems by (cases "load_files pl ow path fs g'") auto
  from 1 2 c m show ?case by simp
qed simp

text \<open>One broken plugin does not stop the others: when every file of a directory can be read and
compiles or fails with a syntax error, and module bodies raise only subclasses of \<open>Exception\<close>, the
directory is loaded to its end and each of its files is counted once, as a loaded module or as an entry
of the error list.\<close>

theorem load_directory_accounts:
  assumes "\<forall>f\<in>set (py_files d). plugin_readable pl (snd f)" and "plugin_raises_exceptions pl"
  shows "\<exists>c. fst (load_directory pl ow path d g) = Inr c
    \<and> c + length (PLUGIN_ERRORS (snd (load_directory pl ow path d g)))
        = length (PLUGIN_ERRORS g) + length (py_files d)"
  unfolding load_directory_def by (rule load_files_accounts [OF assms])

theorem load_directory_accounts_witness:
  "\<exists>c. fst (load_directory demo_lang (None, None, None) ''tools'' (the (tools_root demo_disk)) registry_init) = Inr c
    \<and> c + length (PLUGIN_ERRORS (snd (load_directory demo_lang (None, None, None) ''tools''
        (the (tools_root demo_disk)) registry_init))) = 2"
proof -
  have "py_files (the (tools_root demo_disk)) = [(''a.py'', FFile (Inr ''x'')), (''b.py'', FFile (Inr ''!''))]"
    by (simp add: demo_disk_def py_files_def endswith_def startswith_def)
  then show ?thesis
    using load_directory_accounts [of "the (tools_root demo_disk)" demo_lang "(None, None, None)" "''tools''" registry_init]
    by (simp add: plugin_readable_def plugin_raises_exceptions_def demo_lang_def isinstance_def registry_init_def
        numeral_2_eq_2)
qed

text \<open>A system plugin file that cannot be decoded is not contained like a syntax error: it ends the
reload with that exception, after the registries were cleared, so that no tool is left; and the reload,
unlike the start-up loader, then leaves the \<open>plugins_loaded\<close> event unset.\<close>

theorem undecodable_plugin_wipes_registry:
  assumes "tools_root d = Some (FDir (Inr ((n, FFile (Inl (Exc ValueErr m))) # rest)))"
    and "endswith n ''.py'' \<and> \<not> startswith n ''_''"
  shows "fst (reload_plugins pl ok d g) = Inl (Exc ValueErr m)
    \<and> TOOLS (snd (reload_plugins pl ok d g)) = []
    \<and> \<not> plugins_loaded (snd (reload_plugins pl ok d g))
    \<and> plugins_loaded (snd (start_plugin_loader pl d g))"
  using assms
  by (simp add: reload_plugins_def load_plugins_def load_system_tools_def load_directory_def py_files_def
      load_file_def isinstance_def is_subclass.simps clear_registries_def start_plugin_loader_def Let_def)

theorem undecodable_plugin_wipes_registry_witness:
  "TOOLS (snd (reload_plugins demo_lang (\<lambda>_. True)
     (demo_disk\<lparr>tools_root := Some (FDir (Inr [(''a.py'', FFile (Inl (Exc ValueErr ''bad'')))]))\<rparr>) registry_init)) = []"
  using undecodable_plugin_wipes_registry [of "demo_disk\<lparr>tools_root := Some (FDir (Inr [(''a.py'', FFile (Inl (Exc ValueErr ''bad'')))]))\<rparr>"
      "''a.py''" "''bad''" "[]"]
  by (simp add: endswith_def startswith_def)

end
