(* ===== verification/Tool_Executor.thy ===== *)
theory Tool_Executor
  imports Plugin_Registry "HOL-Library.List_Lexorder" "HOL-Library.Char_ord"
begin

text \<open>
  In-process tool lookup and execution, \<open>app/core/runtime/tool_executor.py\<close>, and the output port files
  of \<open>app/core/runtime/output_files.py\<close>.  The record \<open>tool_env\<close> collects what is outside the service:
  the tool functions (\<open>te_call\<close>: outcome and warnings of a call), the plugin language, the file
  system (\<open>te_node\<close>, indexed by normalised paths) and the texts Python makes of an exception.  The
  state is the registry together with the functions called so far.
\<close>

section \<open>Paths\<close>

definition path_parts :: "string \<Rightarrow> string list" where
  "path_parts p = filter (\<lambda>w. w \<noteq> [] \<and> w \<noteq> ''.'') (split_char (CHR ''/'') p)"

definition path_is_absolute :: "string \<Rightarrow> bool" where
  "path_is_absolute p \<longleftrightarrow> startswith p ''/''"

text \<open>\<open>str(Path(p))\<close>: POSIX keeps exactly two leading slashes.\<close>

definition path_root :: "string \<Rightarrow> string" where
  "path_root p =
     (if startswith p ''//'' \<and> \<not> startswith p ''///'' then ''//''
      else if startswith p ''/'' then ''/'' else [])"

definition path_str :: "string \<Rightarrow> string" where
  "path_str p =
     (let s = path_root p @ join_str ''/'' (path_parts p) in if s = [] then ''.'' else s)"

definition path_join :: "string \<Rightarrow> string \<Rightarrow> string" where
  "path_join a b = (if path_is_absolute b then path_str b else path_str (a @ ''/'' @ b))"

definition path_name :: "string \<Rightarrow> string" where
  "path_name p = (case path_parts p of [] \<Rightarrow> [] | ws \<Rightarrow> last ws)"

definition path_parent :: "string \<Rightarrow> string" where
  "path_parent p = path_str (path_root p @ join_str ''/'' (butlast (path_parts p)))"

text \<open>\<open>Path(p).suffix\<close>: from the last dot of the name, unless it is the first or the last character.\<close>

definition path_suffix :: "string \<Rightarrow> string" where
  "path_suffix p =
     (let n = path_name p; ext = takeWhile (\<lambda>c. c \<noteq> CHR ''.'') (rev n)
      in if ext \<noteq> [] \<and> length ext + 1 < length n then CHR ''.'' # rev ext else [])"

definition replace_backslash :: "string \<Rightarrow> string" where
  "replace_backslash = replace_char (CHR 0x5C) (CHR ''/'')"

section \<open>The environment\<close>

record warn =
  w_filename :: string
  w_lineno :: int
  w_category :: string
  w_deprecation :: bool
  w_message :: string

record syntax_info =
  se_offset :: "int option"
  se_filename :: "string option"
  se_lineno :: "int option"
  se_msg :: string
  se_text :: "string option"

record tool_env =
  te_lang :: plugin_lang
  te_call :: "func \<Rightarrow> jdict \<Rightarrow> (exc + json) \<times> warn list"
  te_callable :: "func \<Rightarrow> bool"
  te_resolve :: "string \<Rightarrow> string"
  te_node :: "string \<Rightarrow> fsnode option"
  te_root :: string
  te_traceback :: "exc \<Rightarrow> string"
  te_syntax :: "exc \<Rightarrow> syntax_info"

record tool_state =
  ts_reg :: registry
  ts_calls :: "func list"

definition call_func :: "tool_env \<Rightarrow> func \<Rightarrow> jdict \<Rightarrow> tool_state \<Rightarrow> ((exc + json) \<times> warn list) \<times> tool_state" where
  "call_func env f args s = (te_call env f args, s\<lparr>ts_calls := ts_calls s @ [f]\<rparr>)"

definition env_is_file :: "tool_env \<Rightarrow> string \<Rightarrow> bool" where
  "env_is_file env p = (case te_node env p of Some (FFile _) \<Rightarrow> True | _ \<Rightarrow> False)"

definition env_read :: "tool_env \<Rightarrow> string \<Rightarrow> exc + string" where
  "env_read env p =
     (case te_node env p of
        None \<Rightarrow> Inl (Exc FileNotFoundErr ''No such file or directory'')
      | Some x \<Rightarrow> read_text x)"

section \<open>Arguments\<close>

fun infer_category_from_arguments :: "jdict \<Rightarrow> string option" where
  "infer_category_from_arguments [] = None"
| "infer_category_from_arguments ((k, v) # args) =
     (case v of
        JStr s \<Rightarrow>
          (case split_once ''/tools/'' (replace_backslash s) of
             None \<Rightarrow> infer_category_from_arguments args
           | Some (a, rest) \<Rightarrow>
               (let parts = split_char (CHR ''/'') rest
                in if 2 \<le> length parts then Some (parts ! 0) else infer_category_from_arguments args))
      | _ \<Rightarrow> infer_category_from_arguments args)"

definition resolve_editable_path :: "tool_env \<Rightarrow> jdict \<Rightarrow> string option" where
  "resolve_editable_path env args =
     (case dict_get args ''code'' of
        Some (JStr raw) \<Rightarrow>
          if str_strip raw = [] then None
          else (let c1 = path_str (replace_backslash raw);
                    c2 = (if \<not> path_is_absolute c1 \<and> startswith c1 ''data/'' then path_join (te_root env) c1 else c1);
                    c3 = te_resolve env c2
                in if env_is_file env c3 then Some c3 else None)
      | _ \<Rightarrow> None)"

text \<open>
  The registrations of an editable file: tools are captured, resources and prompts go to the registries.
\<close>

fun capture_acts :: "plugin_act list \<Rightarrow> exc option \<Rightarrow> func option \<Rightarrow> registry \<Rightarrow> (exc + func option) \<times> registry" where
  "capture_acts [] e cap g = (case e of None \<Rightarrow> (Inr cap, g) | Some x \<Rightarrow> (Inl x, g))"
| "capture_acts (RegTool n d s ow f # acts) e cap g =
     (case ow of Some _ \<Rightarrow> (Inl owner_arg_error, g) | None \<Rightarrow> capture_acts acts e (Some f) g)"
| "capture_acts (RegResource u n d m c # acts) e cap g = capture_acts acts e cap (register_resource u n d m c g)"
| "capture_acts (RegPrompt n d a f # acts) e cap g = capture_acts acts e cap (register_prompt n d a f g)"

definition not_mcp_format :: exc where
  "not_mcp_format = Exc ValueErr (''Tool code is not in the required MCP format: it must define a function ''
     @ ''decorated with @register_tool(name=..., description=..., input_schema=...). ''
     @ ''Regenerate the tool to produce a correctly-formatted file.'')"

definition load_editable_func ::
  "tool_env \<Rightarrow> string \<Rightarrow> jdict \<Rightarrow> registry \<Rightarrow> (exc + func option) \<times> registry" where
  "load_editable_func env name args g =
     (case resolve_editable_path env args of
        None \<Rightarrow> (Inr None, g)
      | Some path \<Rightarrow>
          (case env_read env path of
             Inl e \<Rightarrow> (Inl e, g)
           | Inr src \<Rightarrow>
               (case pl_compile (te_lang env) src of
                  Some e \<Rightarrow> (Inl e, g)
                | None \<Rightarrow>
                    (case pl_exec (te_lang env) (''_editable_'' @ name) src of
                       (acts, e) \<Rightarrow>
                         (case capture_acts acts e None g of
                            (Inl x, g') \<Rightarrow> (Inl x, g')
                          | (Inr None, g') \<Rightarrow> (Inl not_mcp_format, g')
                          | (Inr (Some f), g') \<Rightarrow>
                              if te_callable env f then (Inr (Some f), g') else (Inl not_mcp_format, g'))))))"

section \<open>Resolution of a tool name\<close>

definition has_owner :: "string option \<Rightarrow> string option \<Rightarrow> bool" where
  "has_owner u p \<longleftrightarrow> str_truthy u \<and> str_truthy p"

definition candidate_keys :: "string \<Rightarrow> string option \<Rightarrow> string option \<Rightarrow> string option \<Rightarrow> string list" where
  "candidate_keys name u p c =
     (if has_owner u p
      then (if str_truthy c then [the u @ ''/'' @ the p @ ''/'' @ the c @ ''/'' @ name] else [])
           @ [the u @ ''/'' @ the p @ ''/'' @ name]
      else [])"

fun first_key :: "(string, tool_info) dict \<Rightarrow> string list \<Rightarrow> (string \<times> tool_info) option" where
  "first_key t [] = None"
| "first_key t (k # ks) = (case dict_get t k of Some i \<Rightarrow> Some (k, i) | None \<Rightarrow> first_key t ks)"

definition owner_match :: "string option \<Rightarrow> string option \<Rightarrow> string option \<Rightarrow> tool_info \<Rightarrow> bool" where
  "owner_match u p c i \<longleftrightarrow>
     (if has_owner u p
      then ti_username i = u \<and> ti_project i = p \<and> \<not> (str_truthy c \<and> ti_category i \<noteq> c)
      else True)"

fun by_display_name ::
  "(string, tool_info) dict \<Rightarrow> (tool_info \<Rightarrow> bool) \<Rightarrow> string list \<Rightarrow> (string \<times> tool_info) option" where
  "by_display_name t ok [] = None"
| "by_display_name t ok (k # ks) =
     (case dict_get t k of
        None \<Rightarrow> by_display_name t ok ks
      | Some i \<Rightarrow> if ok i then Some (k, i) else by_display_name t ok ks)"

definition resolve_tool ::
  "string \<Rightarrow> string option \<Rightarrow> string option \<Rightarrow> string option \<Rightarrow> registry \<Rightarrow> (string \<times> tool_info) option" where
  "resolve_tool name u p c g =
     (case first_key (TOOLS g) (candidate_keys name u p c) of
        Some (k # ks, i) \<Rightarrow> Some (k # ks, i)
      | _ \<Rightarrow>
          (case dict_get (TOOLS g) name of
             Some i \<Rightarrow> if name \<noteq> [] then Some (name, i) else None
           | None \<Rightarrow>
               (case by_display_name (TOOLS g) (owner_match u p c) (dict_get_or (NAME_INDEX g) name []) of
                  Some (k # ks, i) \<Rightarrow> Some (k # ks, i)
                | _ \<Rightarrow> None)))"

section \<open>Execution\<close>

definition shape_result :: "json \<Rightarrow> json" where
  "shape_result r =
     (case r of
        JObj d \<Rightarrow> if dict_get d ''content'' \<noteq> None then r else tool_text (py_str r)
      | _ \<Rightarrow> tool_text (py_str r))"

definition warn_text :: "warn \<Rightarrow> string" where
  "warn_text w =
     (if w_filename w = [] then ''code'' else path_name (w_filename w)) @ '':'' @ int_str (w_lineno w) @ '': ''
     @ w_category w @ '': '' @ w_message w"

text \<open>\<open>result.setdefault("diagnostics", {})["warnings"] = ..\<close> raises for diagnostics that are no dictionary.\<close>

definition add_warnings :: "warn list \<Rightarrow> json \<Rightarrow> exc + json" where
  "add_warnings ws r =
     (case map warn_text (filter (\<lambda>w. \<not> w_deprecation w) ws) of
        [] \<Rightarrow> Inr r
      | ts \<Rightarrow>
          (case r of
             JObj d \<Rightarrow>
               (case dict_get d ''diagnostics'' of
                  None \<Rightarrow> Inr (JObj (dict_set ''diagnostics'' (JObj [(''warnings'', JStr (join_str [CHR 0x0A] ts))]) d))
                | Some (JObj dd) \<Rightarrow>
                    Inr (JObj (dict_set ''diagnostics'' (JObj (dict_set ''warnings'' (JStr (join_str [CHR 0x0A] ts)) dd)) d))
                | Some _ \<Rightarrow> Inl (Exc TypeErr ''object does not support item assignment''))
           | _ \<Rightarrow> Inr r))"

definition str_rstrip :: "string \<Rightarrow> string" where
  "str_rstrip s = rev (dropWhile is_space (rev s))"

definition opt_int_str :: "int option \<Rightarrow> string" where
  "opt_int_str n = (case n of None \<Rightarrow> ''None'' | Some i \<Rightarrow> int_str i)"

definition syntax_error_text :: "tool_env \<Rightarrow> exc \<Rightarrow> string" where
  "syntax_error_text env e =
     (let se = te_syntax env e;
          off = (case se_offset se of None \<Rightarrow> 1 | Some n \<Rightarrow> if n = 0 then 1 else n);
          pointer = replicate (nat (max (off - 1) 0)) (CHR '' '') @ ''^'';
          head = (if str_truthy (se_filename se) then path_name (the (se_filename se)) else ''code'') @ '':''
                 @ opt_int_str (se_lineno se) @ '': SyntaxError: '' @ se_msg se;
          body = (if str_truthy (se_text se)
                  then [''    '' @ str_rstrip (the (se_text se)), ''    '' @ pointer] else [])
      in join_str [CHR 0x0A] ([head] @ body @ [te_traceback env e]))"

text \<open>The handler \<open>except Exception\<close>; \<open>suggest_fix\<close> may itself raise.\<close>

definition failure_result :: "tool_env \<Rightarrow> exc \<Rightarrow> exc + json" where
  "failure_result env e =
     (if is_exception e
      then (case suggest_fix e of
              Inl e' \<Rightarrow> Inl e'
            | Inr hint \<Rightarrow> Inr (tool_error (te_traceback env e) [(''improvements'', JStr hint)]))
      else Inl e)"

definition run_fallback :: "tool_env \<Rightarrow> string \<Rightarrow> jdict \<Rightarrow> (tool_state, exc, json) pm" where
  "run_fallback env name args s =
     (let unknown = Inl (Exc ValueErr (''Unknown tool: '' @ name)) in
      if resolve_editable_path env args = None then (unknown, s)
      else
        (case load_editable_func env name args (ts_reg s) of
           (Inl e, g) \<Rightarrow>
             if is_exception e then
               (if exc_msg e \<noteq> [] then
                  (Inr (tool_error (exc_msg e) [(''improvements'',
                     JStr ''Regenerate the tool so its code includes the @register_tool decorator.'')]), s\<lparr>ts_reg := g\<rparr>)
                else (unknown, s\<lparr>ts_reg := g\<rparr>))
             else (Inl e, s\<lparr>ts_reg := g\<rparr>)
         | (Inr None, g) \<Rightarrow> (unknown, s\<lparr>ts_reg := g\<rparr>)
         | (Inr (Some f), g) \<Rightarrow>
             (case call_func env f args (s\<lparr>ts_reg := g\<rparr>) of
                ((Inr r, _), s') \<Rightarrow> (Inr (shape_result r), s')
              | ((Inl e, _), s') \<Rightarrow> (failure_result env e, s'))))"

definition run_tool :: "tool_env \<Rightarrow> tool_info \<Rightarrow> jdict \<Rightarrow> (tool_state, exc, json) pm" where
  "run_tool env i args s =
     (case load_editable_func env (ti_name i) args (ts_reg s) of
        (Inl e, g) \<Rightarrow> (Inl e, s\<lparr>ts_reg := g\<rparr>)
      | (Inr ef, g) \<Rightarrow>
          (case call_func env (case ef of Some f \<Rightarrow> f | None \<Rightarrow> ti_func i) args (s\<lparr>ts_reg := g\<rparr>) of
             ((Inl e, _), s') \<Rightarrow> (Inl e, s')
           | ((Inr r, ws), s') \<Rightarrow> (add_warnings ws (shape_result r), s')))"

definition authorised :: "tool_info \<Rightarrow> string option \<Rightarrow> string option \<Rightarrow> bool" where
  "authorised i u p \<longleftrightarrow> (has_owner (ti_username i) (ti_project i) \<longrightarrow> ti_username i = u \<and> ti_project i = p)"

definition call_tool_direct ::
  "tool_env \<Rightarrow> string \<Rightarrow> jdict \<Rightarrow> string option \<Rightarrow> string option \<Rightarrow> string option \<Rightarrow> (tool_state, exc, json) pm" where
  "call_tool_direct env name args u p c s =
     (case resolve_tool name u p c (ts_reg s) of
        None \<Rightarrow> run_fallback env name args s
      | Some (k, i) \<Rightarrow>
          if has_owner (ti_username i) (ti_project i) \<and> \<not> has_owner u p then
            (Inl (Exc ValueErr ''Missing username/project for namespaced tool''), s)
          else if has_owner (ti_username i) (ti_project i) \<and> (ti_username i \<noteq> u \<or> ti_project i \<noteq> p) then
            (Inl (Exc ValueErr (''Unauthorized: tool '' @ [CHR 0x27] @ name @ [CHR 0x27] @ '' belongs to ''
               @ the (ti_username i) @ ''/'' @ the (ti_project i))), s)
          else
            (case run_tool env i args s of
               (Inr r, s') \<Rightarrow> (Inr r, s')
             | (Inl e, s') \<Rightarrow>
                 if isinstance e [SyntaxErr] then
                   (Inr (tool_error (syntax_error_text env e)
                      [(''improvements'', JStr ''Fix syntax error at indicated line.'')]), s')
                 else (failure_result env e, s')))"

definition opt_json :: "string option \<Rightarrow> json" where
  "opt_json s = (case s of None \<Rightarrow> JNull | Some t \<Rightarrow> JStr t)"

definition list_local_tools :: "registry \<Rightarrow> json list" where
  "list_local_tools g =
     map (\<lambda>(k, i). JObj [(''name'', JStr (ti_name i)), (''description'', JStr (ti_description i)),
        (''inputSchema'', ti_schema i), (''category'', opt_json (ti_category i)),
        (''username'', opt_json (ti_username i)), (''project'', opt_json (ti_project i)),
        (''source'', JStr ''local_plugin'')]) (TOOLS g)"

section \<open>Output port files\<close>

definition IMAGE_EXTS :: "string list" where
  "IMAGE_EXTS = [''.png'', ''.jpg'', ''.jpeg'', ''.webp'']"

definition PDF_EXTS :: "string list" where
  "PDF_EXTS = [''.pdf'']"

definition normalize_rel_path :: "string \<Rightarrow> string" where
  "normalize_rel_path rel = dropWhile (\<lambda>c. c = CHR ''/'') (replace_backslash rel)"

fun find_tool_base :: "jdict \<Rightarrow> string option" where
  "find_tool_base [] = None"
| "find_tool_base ((k, v) # args) =
     (case v of
        JStr s \<Rightarrow>
          (case split_once ''/inputs/'' (normalize_rel_path s) of
             Some (base, _) \<Rightarrow> Some base
           | None \<Rightarrow> find_tool_base args)
      | _ \<Rightarrow> find_tool_base args)"

definition infer_output_port_paths :: "tool_env \<Rightarrow> jdict \<Rightarrow> string list" where
  "infer_output_port_paths env args =
     (case find_tool_base args of
        Some (b # bs) \<Rightarrow>
          (case te_node env (path_join (path_join (te_root env) (b # bs)) ''outputs'') of
             Some (FDir (Inr es)) \<Rightarrow>
               map (\<lambda>n. join_str ''/'' (path_parts (b # bs) @ [''outputs'', n]))
                 (sort (map fst (filter (\<lambda>(n, x). endswith n ''.txt'') es)))
           | _ \<Rightarrow> [])
      | _ \<Rightarrow> [])"

text \<open>\<open>base64.b64encode\<close>.\<close>

definition b64_char :: "nat \<Rightarrow> char" where
  "b64_char n = (''ABCDEFGHIJKLMNOPQRSTUVWXYZabcdefghijklmnopqrstuvwxyz0123456789+/'' ! (n mod 64))"

fun b64encode :: "string \<Rightarrow> string" where
  "b64encode [] = []"
| "b64encode [a] = (let n = of_char a * 65536 :: nat in [b64_char (n div 262144), b64_char (n div 4096), CHR ''='', CHR ''=''])"
| "b64encode [a, b] = (let n = of_char a * 65536 + of_char b * 256 :: nat
     in [b64_char (n div 262144), b64_char (n div 4096), b64_char (n div 64), CHR ''=''])"
| "b64encode (a # b # c # cs) = (let n = of_char a * 65536 + of_char b * 256 + of_char c :: nat
     in [b64_char (n div 262144), b64_char (n div 4096), b64_char (n div 64), b64_char n] @ b64encode cs)"

text \<open>\<open>rel.rsplit("/", 1)[0]\<close>.\<close>

definition rsplit_head :: "string \<Rightarrow> string" where
  "rsplit_head s =
     (if CHR ''/'' \<in> set s then rev (drop 1 (dropWhile (\<lambda>c. c \<noteq> CHR ''/'') (rev s))) else s)"

definition read_output_file :: "tool_env \<Rightarrow> string \<Rightarrow> json list" where
  "read_output_file env rel0 =
     (let rel = normalize_rel_path rel0; local = path_join (te_root env) rel in
      if te_node env local = None then []
      else
        (case env_read env local of
           Inl _ \<Rightarrow> []
         | Inr text \<Rightarrow>
             (let t = str_strip text;
                  candidate = path_join (path_parent local) t;
                  ext = str_lower (path_suffix t);
                  first = JObj [(''path'', JStr rel), (''content'', JStr text)]
              in if ext \<in> set (IMAGE_EXTS @ PDF_EXTS) \<and> te_node env candidate \<noteq> None then
                   (case env_read env candidate of
                      Inl _ \<Rightarrow> [first]
                    | Inr data \<Rightarrow>
                        [first, JObj [(''path'', JStr (rsplit_head rel @ ''/'' @ t)),
                           (''content'', JStr (b64encode data)), (''encoding'', JStr ''base64'')]])
                 else [first])))"

definition read_output_files :: "tool_env \<Rightarrow> string list \<Rightarrow> json list" where
  "read_output_files env paths = concat (map (read_output_file env) paths)"

section \<open>Authorisation\<close>

lemma capture_acts_tools: "TOOLS (snd (capture_acts acts e cap g)) = TOOLS g"
  by (induction acts e cap g rule: capture_acts.induct) (auto split: option.split)

lemma load_editable_no_path: "resolve_editable_path env args = None \<Longrightarrow> load_editable_func env n args g = (Inr None, g)"
  by (simp add: load_editable_func_def)

lemma load_editable_tools: "TOOLS (snd (load_editable_func env n args g)) = TOOLS g"
proof -
  have "TOOLS g' = TOOLS g" if "capture_acts acts e cap g = (r, g')" for acts e cap r g'
    using that by (metis capture_acts_tools snd_conv)
  then show ?thesis
    by (auto simp: load_editable_func_def split: option.split sum.split prod.split)
qed

lemma run_fallback_calls:
  "\<exists>fs. ts_calls (snd (run_fallback env name args s)) = ts_calls s @ fs \<and> length fs \<le> 1
     \<and> (fs \<noteq> [] \<longrightarrow> resolve_editable_path env args \<noteq> None)"
  by (auto simp: run_fallback_def call_func_def Let_def split: sum.split prod.split option.split)

lemma run_tool_calls:
  "\<exists>fs. ts_calls (snd (run_tool env i args s)) = ts_calls s @ fs \<and> length fs \<le> 1
     \<and> (\<forall>f\<in>set fs. f = ti_func i \<or> resolve_editable_path env args \<noteq> None)"
proof (cases "resolve_editable_path env args")
  case None
  then show ?thesis
    by (auto simp: run_tool_def load_editable_no_path call_func_def split: sum.split prod.split)
next
  case (Some path)
  then show ?thesis
    by (auto simp: run_tool_def call_func_def split: sum.split prod.split option.split)
qed

lemma first_key_Some: "first_key t ks = Some (k, i) \<Longrightarrow> dict_get t k = Some i"
  by (induction ks) (auto split: option.splits)

lemma by_display_name_Some: "by_display_name t ok ks = Some (k, i) \<Longrightarrow> dict_get t k = Some i \<and> ok i \<and> k \<in> set ks"
  by (induction ks) (auto split: option.splits if_splits)

lemma resolve_tool_Some: "resolve_tool name u p c g = Some (k, i) \<Longrightarrow> dict_get (TOOLS g) k = Some i"
  by (auto simp: resolve_tool_def split: option.splits list.splits if_splits dest: first_key_Some by_display_name_Some)


definition demo_env :: tool_env where
  "demo_env = \<lparr>te_lang = demo_lang, te_call = (\<lambda>f args. (Inr (JInt (int f)), [])), te_callable = (\<lambda>_. True),
     te_resolve = id, te_node = (\<lambda>p. if p = ''/x/t.py'' then Some (FFile (Inr ''zzz'')) else None), te_root = ''/srv'',
     te_traceback = exc_msg, te_syntax = (\<lambda>e. \<lparr>se_offset = None, se_filename = None, se_lineno = None, se_msg = [], se_text = None\<rparr>)\<rparr>"

definition demo_state :: tool_state where
  "demo_state = \<lparr>ts_reg = snd (reload_plugins demo_lang (\<lambda>_. True) demo_disk registry_init), ts_calls = []\<rparr>"


text \<open>The resolved tool belongs to another owner: the call fails with a \<open>ValueError\<close>, and neither the
tool's function nor the editable code of the request runs.\<close>

theorem foreign_tool_refused:
  assumes "resolve_tool name u p c (ts_reg s) = Some (k, i)" and "\<not> authorised i u p"
  shows "\<exists>m. call_tool_direct env name args u p c s = (Inl (Exc ValueErr m), s)"
  using assms by (auto simp: call_tool_direct_def authorised_def)

theorem foreign_tool_refused_witness:
  "\<exists>m. call_tool_direct demo_env ''u/p/c/add'' [] (Some ''v'') (Some ''p'') None demo_state = (Inl (Exc ValueErr m), demo_state)"
proof -
  have t: "dict_get (TOOLS (ts_reg demo_state)) ''u/p/c/add'' = Some \<lparr>ti_func = 2, ti_name = ''add'', ti_description = ''yy'',
      ti_schema = JObj [], ti_username = Some ''u'', ti_project = Some ''p'', ti_category = Some ''c''\<rparr>"
    by code_simp
  have k: "first_key (TOOLS (ts_reg demo_state)) (candidate_keys ''u/p/c/add'' (Some ''v'') (Some ''p'') None) = None"
    by code_simp
  show ?thesis
    by (rule foreign_tool_refused [of _ _ _ _ _ "''u/p/c/add''"])
      (auto simp: resolve_tool_def k t authorised_def has_owner_def)
qed

section \<open>The result envelope\<close>

definition has_content :: "json \<Rightarrow> bool" where
  "has_content r \<longleftrightarrow> obj_get r ''content'' \<noteq> None"

lemma has_content_simps [simp]: "has_content (tool_text t)" "has_content (tool_error m d)"
  by (simp_all add: has_content_def tool_text_def tool_error_def)

lemma has_content_shape [simp]: "has_content (shape_result r)"
  by (cases r) (auto simp: shape_result_def has_content_def tool_text_def)

lemma add_warnings_content: "has_content r \<Longrightarrow> add_warnings ws r = Inr r' \<Longrightarrow> has_content r'"
  by (auto simp: add_warnings_def has_content_def split: list.splits json.splits option.splits)

lemma failure_content: "failure_result env e = Inr r \<Longrightarrow> has_content r \<and> is_error_result r"
  by (auto simp: failure_result_def split: if_splits sum.splits)

text \<open>C18.  Every result a call returns is an object with a \<open>content\<close> entry; and when the tool resolves, is
authorised and its function ends with an exception other than a syntax error that \<open>suggest_fix\<close>
knows a hint for, the call returns an error result, it does not raise.\<close>

theorem tool_result_envelope:
  "(\<forall>r. fst (call_tool_direct env name args u p c s) = Inr r \<longrightarrow> has_content r)
   \<and> (resolve_tool name u p c (ts_reg s) = Some (k, i) \<and> authorised i u p \<and> resolve_editable_path env args = None
       \<and> fst (te_call env (ti_func i) args) = Inl e \<and> is_exception e \<and> \<not> isinstance e [SyntaxErr] \<and> suggest_fix e = Inr hint
      \<longrightarrow> fst (call_tool_direct env name args u p c s)
            = Inr (tool_error (te_traceback env e) [(''improvements'', JStr hint)]))"
proof (intro conjI allI impI)
  fix r
  assume r: "fst (call_tool_direct env name args u p c s) = Inr r"
  have fb: "has_content r" if "fst (run_fallback env name args s) = Inr r"
    using that
    by (auto simp: run_fallback_def call_func_def Let_def failure_content
        split: if_splits sum.splits prod.splits option.splits)
  have rt: "has_content r'" if "run_tool env i args s = (Inr r', s')" for i r' s'
    using that add_warnings_content [OF has_content_shape]
    by (auto simp: run_tool_def call_func_def split: sum.splits prod.splits)
  show "has_content r"
    using r fb by (auto simp: call_tool_direct_def failure_content split: option.splits prod.splits if_splits sum.splits
        intro: rt)
next
  assume "resolve_tool name u p c (ts_reg s) = Some (k, i) \<and> authorised i u p \<and> resolve_editable_path env args = None
       \<and> fst (te_call env (ti_func i) args) = Inl e \<and> is_exception e \<and> \<not> isinstance e [SyntaxErr] \<and> suggest_fix e = Inr hint"
  then show "fst (call_tool_direct env name args u p c s) = Inr (tool_error (te_traceback env e) [(''improvements'', JStr hint)])"
    by (cases "te_call env (ti_func i) args")
      (auto simp: call_tool_direct_def authorised_def run_tool_def load_editable_no_path call_func_def failure_result_def)
qed

theorem tool_result_envelope_witness:
  "fst (call_tool_direct (demo_env\<lparr>te_call := (\<lambda>_ _. (Inl (Exc ValueErr ''bad''), []))\<rparr>) ''add'' [] None None None demo_state)
   = Inr (tool_error ''bad'' [(''improvements'', JStr ''Invalid value. Check input data and expected ranges.'')])"
proof -
  let ?env = "demo_env\<lparr>te_call := (\<lambda>_ _. (Inl (Exc ValueErr ''bad''), []))\<rparr>"
  obtain i where i: "resolve_tool ''add'' None None None (ts_reg demo_state) = Some (''add'', i)"
      "ti_username i = None"
  proof
    show "resolve_tool ''add'' None None None (ts_reg demo_state) = Some (''add'', \<lparr>ti_func = 1, ti_name = ''add'',
      ti_description = ''x'', ti_schema = JObj [], ti_username = None, ti_project = None, ti_category = None\<rparr>)"
      by code_simp
  qed simp
  have "suggest_fix (Exc ValueErr ''bad'') = Inr ''Invalid value. Check input data and expected ranges.''"
    by (simp add: suggest_fix_def)
  with i show ?thesis
    using tool_result_envelope [THEN conjunct2, of "''add''" None None None demo_state "''add''" i ?env "[]" "Exc ValueErr ''bad''"]
    by (simp add: authorised_def has_owner_def resolve_editable_path_def demo_env_def is_exception_iff isinstance_def
        is_subclass.simps)
qed

section \<open>Resolution by scanning\<close>

text \<open>The reference resolution: candidate keys, then the name as a key, then the first tool of that display
  name, in registration order, whose owner matches.\<close>

definition scan_tools :: "(tool_info \<Rightarrow> bool) \<Rightarrow> string \<Rightarrow> registry \<Rightarrow> (string \<times> tool_info) option" where
  "scan_tools ok name g = find (\<lambda>(k, i). ti_name i = name \<and> ok i) (TOOLS g)"

definition resolve_spec ::
  "string \<Rightarrow> string option \<Rightarrow> string option \<Rightarrow> string option \<Rightarrow> registry \<Rightarrow> (string \<times> tool_info) option" where
  "resolve_spec name u p c g =
     (case first_key (TOOLS g) (candidate_keys name u p c @ [name]) of
        Some ki \<Rightarrow> Some ki
      | None \<Rightarrow> scan_tools (owner_match u p c) name g)"

lemma by_display_name_scan:
  assumes "dict_wf t" "set xs \<subseteq> set t"
  shows "by_display_name t ok (map fst (filter (\<lambda>(k, i). ti_name i = n) xs)) = find (\<lambda>(k, i). ti_name i = n \<and> ok i) xs"
  using assms(2)
proof (induction xs)
  case (Cons x xs)
  obtain k i where x: "x = (k, i)" by force
  with Cons.prems assms(1) have "dict_get t k = Some i" by (simp add: dict_get_in_set [symmetric])
  with Cons x show ?case by auto
qed simp

lemma candidate_nonempty: "k \<in> set (candidate_keys name u p c) \<Longrightarrow> k \<noteq> []"
  by (auto simp: candidate_keys_def split: if_splits)

lemma first_key_mem: "first_key t ks = Some (k, i) \<Longrightarrow> k \<in> set ks"
  by (induction ks) (auto split: option.splits)

lemma first_key_append:
  "first_key t (ks @ [n]) = (case first_key t ks of Some x \<Rightarrow> Some x | None \<Rightarrow> map_option (Pair n) (dict_get t n))"
  by (induction ks) (auto split: option.split)

text \<open>C10.  The lookup through the name index is equivalent to scanning the registry: when the index is
exact and the name is not empty, resolving a name gives the first hit among the caller's namespaced
keys, the name itself as a key, and the registered tools of that display name that match the caller.\<close>

theorem resolve_is_scan:
  assumes "index_exact g" and "name \<noteq> []" and "dict_get (TOOLS g) [] = None"
  shows "resolve_tool name u p c g = resolve_spec name u p c g"
proof -
  have wf: "dict_wf (TOOLS g)" and idx: "dict_get_or (NAME_INDEX g) name [] = map fst (filter (\<lambda>(k, i). ti_name i = name) (TOOLS g))"
    using assms(1) by (simp_all add: index_exact_def index_of_def scan_names_def)
  have ne: "by_display_name (TOOLS g) ok xs \<noteq> Some ([], i)" for ok xs i
    using by_display_name_Some assms(3) by fastforce
  have ne': "ks \<noteq> []" if "first_key (TOOLS g) (candidate_keys name u p c) = Some (ks, i)" for ks i
    using first_key_mem [OF that] candidate_nonempty by blast
  have scan: "scan_tools (owner_match u p c) name g =
      by_display_name (TOOLS g) (owner_match u p c) (dict_get_or (NAME_INDEX g) name [])"
    unfolding idx scan_tools_def by (simp add: by_display_name_scan [OF wf order_refl])
  show ?thesis
  proof (cases "first_key (TOOLS g) (candidate_keys name u p c)")
    case (Some x)
    then show ?thesis
      using ne' by (cases x, cases "fst x") (auto simp: resolve_tool_def resolve_spec_def first_key_append)
  next
    case None
    then show ?thesis
      using assms(2)
      by (auto simp: ne resolve_tool_def resolve_spec_def first_key_append scan split: option.split list.split)
  qed
qed

theorem resolve_is_scan_witness:
  "resolve_tool ''add'' (Some ''u'') (Some ''p'') None (ts_reg demo_state)
   = resolve_spec ''add'' (Some ''u'') (Some ''p'') None (ts_reg demo_state)"
proof (rule resolve_is_scan)
  show "dict_get (TOOLS (ts_reg demo_state)) [] = None" by code_simp
  have "index_exact (snd (load_plugins demo_lang d (clear_all g)))" for d g
    by (rule exact_inv.load_plugins_inv [OF clear_all_ok(2)]) (simp add: plugin_names_ok_def demo_lang_def no_slash_def)
  then show "index_exact (ts_reg demo_state)"
    by (auto simp: demo_state_def reload_state Let_def index_exact_def split: sum.split)
qed simp

end
