(* ===== verification/Exec_Router.thy ===== *)
theory Exec_Router
  imports Integrations Tool_Executor
begin

text \<open>
  The execution router, \<open>app/core/runtime/router.py\<close>: the table from server type to runner, and the
  runners over the components they call.  A local tool runs in a worker thread: a time-out abandons
  the wait, not the thread, so the effects of the call remain.
\<close>

section \<open>Server types\<close>

definition LOCAL_PLUGIN :: string where "LOCAL_PLUGIN = ''local_plugin''"
definition REMOTE_SSE :: string where "REMOTE_SSE = ''remote_sse''"
definition REMOTE_HTTP :: string where "REMOTE_HTTP = ''remote_http''"
definition COMPOSIO :: string where "COMPOSIO = ''composio''"
definition E2B :: string where "E2B = ''e2b''"
definition DEVICE :: string where "DEVICE = ''device''"

lemmas server_type_defs = LOCAL_PLUGIN_def REMOTE_SSE_def REMOTE_HTTP_def COMPOSIO_def E2B_def DEVICE_def

record route_ctx =
  rc_tool_name :: string
  rc_arguments :: jdict
  rc_invocation_id :: string
  rc_org_id :: string
  rc_project_id :: "string option"
  rc_username :: "string option"
  rc_project :: "string option"
  rc_category :: "string option"
  rc_server_config :: jdict
  rc_endpoint_url :: "string option"
  rc_code :: "string option"
  rc_server_type :: string
  rc_timeout :: seconds

record router_env =
  re_net :: net_env
  re_pool :: pool_cfg
  re_backend :: backend_cfg
  re_sandbox :: sandbox_env
  re_tools :: tool_env
  re_thread :: "nat \<Rightarrow> seconds"

record router_world = bus_world +
  rw_tools :: tool_state
  rw_e2b_built :: bool
  rw_devices_built :: bool

section \<open>Runners\<close>

definition in_thread :: "router_env \<Rightarrow> route_ctx \<Rightarrow> ('w router_world_scheme, exc, json) pm" where
  "in_thread env ctx w =
     (case call_tool_direct (re_tools env) (rc_tool_name ctx) (rc_arguments ctx) (rc_username ctx) (rc_project ctx)
             (rc_category ctx) (rw_tools w) of
        (r, ts) \<Rightarrow> net_op (NThread (rc_tool_name ctx)) (re_thread env (net_tick w), r) (w\<lparr>rw_tools := ts\<rparr>))"

definition run_local :: "router_env \<Rightarrow> route_ctx \<Rightarrow> ('w router_world_scheme, exc, json) pm" where
  "run_local env ctx = wait_for (rc_timeout ctx) (in_thread env ctx)"

definition run_remote :: "router_env \<Rightarrow> route_ctx \<Rightarrow> ('w router_world_scheme, exc, json) pm" where
  "run_remote env ctx =
     (if \<not> str_truthy (rc_endpoint_url ctx) then pm_raise (Exc RoutingErr ''Remote MCP server requires endpoint_url'')
      else
        let transport = (if rc_server_type ctx = REMOTE_SSE then ''sse'' else ''http'')
        in wait_for (rc_timeout ctx)
             (pool_call_tool (re_pool env) (re_net env) (the (rc_endpoint_url ctx)) transport (rc_tool_name ctx) (rc_arguments ctx)))"

definition run_composio :: "router_env \<Rightarrow> route_ctx \<Rightarrow> ('w router_world_scheme, exc, json) pm" where
  "run_composio env ctx =
     wait_for (rc_timeout ctx)
       (composio_call_tool (re_backend env) (re_net env) (rc_server_config ctx) (rc_tool_name ctx) (rc_arguments ctx))"

text \<open>\<open>ctx.code or ctx.arguments.get("code", "")\<close>; an argument that is not a string counts as empty.\<close>

definition e2b_code :: "route_ctx \<Rightarrow> string" where
  "e2b_code ctx =
     (if str_truthy (rc_code ctx) then the (rc_code ctx)
      else (case dict_get (rc_arguments ctx) ''code'' of Some (JStr s) \<Rightarrow> s | _ \<Rightarrow> []))"

definition run_e2b :: "router_env \<Rightarrow> route_ctx \<Rightarrow> ('w router_world_scheme, exc, json) pm" where
  "run_e2b env ctx =
     pm_then (pm_modify (rw_e2b_built_update (\<lambda>_. True)))
       (wait_for (rc_timeout ctx)
         (e2b_execute (re_sandbox env) (e2b_code ctx) (rc_arguments ctx) (rc_invocation_id ctx)))"

definition run_device :: "router_env \<Rightarrow> route_ctx \<Rightarrow> ('w router_world_scheme, exc, json) pm" where
  "run_device env ctx =
     pm_then (pm_modify (rw_devices_built_update (\<lambda>_. True)))
       (wait_for (rc_timeout ctx)
         (devices_call_tool (re_backend env) (re_net env) (rc_tool_name ctx) (rc_arguments ctx)
            (Some (rc_server_config ctx)) None))"

section \<open>Dispatch\<close>

definition handlers :: "router_env \<Rightarrow> (string, route_ctx \<Rightarrow> ('w router_world_scheme, exc, json) pm) dict" where
  "handlers env =
     [(LOCAL_PLUGIN, run_local env), (REMOTE_SSE, run_remote env), (REMOTE_HTTP, run_remote env),
      (COMPOSIO, run_composio env), (E2B, run_e2b env), (DEVICE, run_device env)]"

definition route :: "router_env \<Rightarrow> route_ctx \<Rightarrow> ('w router_world_scheme, exc, json) pm" where
  "route env ctx =
     (case dict_get (handlers env) (rc_server_type ctx) of
        None \<Rightarrow> pm_raise (Exc RoutingErr (''Unknown server type: '' @ rc_server_type ctx))
      | Some h \<Rightarrow> h ctx)"

section \<open>Time bounds\<close>

text \<open>Changes of the pool entries do not matter for the clock and the deadlines.\<close>

lemma timely_at_entries [simp]:
  "timely_at w (r, set_entry k e w') = timely_at w (r, w')" "timely_at (set_entry k e w) res = timely_at w res"
  "timely_at w (r, unlock k w') = timely_at w (r, w')" "timely_at w (r, drop_entry k w') = timely_at w (r, w')"
  "timely_at w (r, w'\<lparr>pw_entries := es\<rparr>) = timely_at w (r, w')" "timely_at (prune_closed_loops cfg w) res = timely_at w res"
  by (auto simp: timely_at_def set_entry_def unlock_def drop_entry_def prune_closed_loops_def split: option.split)

lemma timely_at_refl [simp]: "timely_at w (r, w)"
  by (simp add: timely_at_def)

lemma entries_clock [simp]:
  "nw_now (set_entry k e w) = nw_now w" "nw_deadlines (set_entry k e w) = nw_deadlines w"
  "nw_now (unlock k w) = nw_now w" "nw_deadlines (unlock k w) = nw_deadlines w"
  "nw_now (drop_entry k w) = nw_now w" "nw_deadlines (drop_entry k w) = nw_deadlines w"
  "nw_now (prune_closed_loops cfg w) = nw_now w" "nw_deadlines (prune_closed_loops cfg w) = nw_deadlines w"
  by (auto simp: set_entry_def unlock_def drop_entry_def prune_closed_loops_def split: option.split)

lemma timely_at_hard_close: "timely_at w (hard_close env k e w)"
proof (cases "pe_connected e")
  case True
  obtain r m w' where d: "mw_disconnect env (pe_wrapper e) w = (r, m, w')" by (cases "mw_disconnect env (pe_wrapper e) w") auto
  have "timely_at w (r, w')" using timely_disconnect [of w env "pe_wrapper e"] d by simp
  then show ?thesis
    using True d by (cases r) (auto simp: hard_close_def Let_def timely_at_def)
qed (simp add: hard_close_def)

lemma timely_hard_close: "timely (hard_close env k e)"
  by (simp add: timely_def timely_at_hard_close)

lemma timely_at_evict: "timely_at w (evict_to_capacity cfg env w)"
proof (cases "lru (filter (\<lambda>(k, e). \<not> pe_locked e) (pw_entries w))")
  case (Some ke)
  obtain k e where ke: "ke = (k, e)" by (cases ke)
  obtain r w' where h: "hard_close env k e w = (r, w')" by (cases "hard_close env k e w")
  have "timely_at w (r, w')" using timely_at_hard_close [of w env k e] h by simp
  then show ?thesis
    using Some ke h by (cases r) (auto simp: evict_to_capacity_def timely_at_def drop_entry_def)
qed (simp add: evict_to_capacity_def)

lemma timely_at_get_entry: "timely_at w (get_entry cfg env url tr w)"
proof -
  obtain r w' where e: "evict_to_capacity cfg env (prune_closed_loops cfg w) = (r, w')"
    by (cases "evict_to_capacity cfg env (prune_closed_loops cfg w)")
  have "timely_at w (r, w')" using timely_at_evict [of "prune_closed_loops cfg w" cfg env] e by simp
  moreover have "timely_at w (r', prune_closed_loops cfg w)" for r' :: "exc + entry"
    by (simp add: timely_at_def prune_closed_loops_def)
  ultimately show ?thesis
    using e by (cases r) (auto simp: get_entry_def Let_def timely_at_def split: option.split)
qed

lemma timely_finally_unlock: "timely m \<Longrightarrow> timely (pm_finally m (unlock k))"
  by (simp add: timely_def pm_finally_def case_prod_beta)

lemma timely_set_entry: "timely (pm_modify (set_entry k e))"
  by (simp add: timely_def pm_modify_def)

lemma timely_ensure_connected: "timely (ensure_connected cfg env k e)"
proof -
  have "timely (\<lambda>w. let e3 = e2\<lparr>pe_last_used := nw_now w\<rparr> in (Inr e3, set_entry k e3 w))" for e2
    by (simp add: timely_def Let_def)
  moreover have "timely (case x of (m, caps) \<Rightarrow> pm_return (e1\<lparr>pe_wrapper := m, pe_connected := True, pe_loop := l\<rparr>))" for x e1 l
    by (simp add: case_prod_beta timely_return)
  ultimately show ?thesis
    unfolding ensure_connected_def by (intro timely_intros timely_hard_close)
qed

lemma timely_with_acquired: "(\<And>m. timely (body m)) \<Longrightarrow> timely (with_acquired cfg env url tr body)"
  unfolding with_acquired_def Let_def
  by (intro timely_bind timely_then timely_set_entry timely_finally_unlock timely_ensure_connected)
    (auto simp: timely_def timely_at_get_entry)

lemma timely_mark_broken: "timely (mark_broken env url tr)"
  unfolding timely_def
proof
  fix w :: "'a pool_world_scheme"
  show "timely_at w (mark_broken env url tr w)"
  proof (cases "dict_get (pw_entries w) (url, tr)")
    case (Some e)
    let ?k = "(url, tr)" and ?e = "e\<lparr>pe_locked := True\<rparr>"
    obtain r w' where h: "hard_close env ?k ?e (set_entry ?k ?e w) = (r, w')"
      by (cases "hard_close env ?k ?e (set_entry ?k ?e w)")
    have "timely_at w (r, w')" using timely_at_hard_close [of "set_entry ?k ?e w" env ?k ?e] h by simp
    then have "timely_at w (r, unlock ?k w')" by simp
    then show ?thesis
      using Some h by (cases r) (auto simp: mark_broken_def pm_finally_def Let_def timely_at_def)
  qed (simp add: mark_broken_def)
qed

lemma timely_pool_call: "timely (pool_call_tool cfg env url tr name args)"
  unfolding pool_call_tool_def with_reconnect_def
  by (intro timely_catch timely_with_acquired timely_if timely_then timely_mark_broken timely_raise timely_call_tool)
    (simp add: is_cancelled_iff reconnectable_iff)

lemma timely_composio: "timely (composio_call_tool cfg env c name args)"
proof -
  have d: "timely (\<lambda>w. case mw_disconnect env m w of (Inr _, m', w') \<Rightarrow> (Inr r, w') | (Inl e, m', w') \<Rightarrow> (Inl e, w'))"
    for m and r :: json
    unfolding timely_def
  proof
    fix w :: "'c net_world_scheme"
    obtain x m' w' where "mw_disconnect env m w = (x, m', w')" by (cases "mw_disconnect env m w") auto
    then show "timely_at w (case mw_disconnect env m w of (Inr _, m', w') \<Rightarrow> (Inr r, w') | (Inl e, m', w') \<Rightarrow> (Inl e, w'))"
      using timely_disconnect [of w env m] by (cases x) (auto simp: timely_at_def)
  qed
  have s: "timely (composio_sdk env c (\<lambda>m. mw_call_tool env m name args))"
    unfolding composio_sdk_def by (intro timely_bind timely_connect, clarify) (intro timely_bind timely_call_tool d)
  have j: "timely (case data of JObj d \<Rightarrow> pm_return (composio_output d) | _ \<Rightarrow> pm_raise e)" for data e
    by (cases data) (auto intro: timely_intros)
  have r: "timely (composio_rest_call env key name args)" for key
    unfolding composio_rest_call_def by (intro timely_intros j)
  show ?thesis
    unfolding composio_call_tool_def sdk_or_rest_def
    by (intro timely_catch timely_if timely_raise s r) simp
qed

lemma timely_devices: "timely (devices_call_tool cfg env name args config iv)"
  unfolding devices_call_tool_def Let_def by (intro timely_intros)

lemma timely_in_thread: "timely (in_thread env ctx)"
  unfolding timely_def
proof
  fix w :: "'a router_world_scheme"
  obtain r ts where c: "call_tool_direct (re_tools env) (rc_tool_name ctx) (rc_arguments ctx) (rc_username ctx) (rc_project ctx)
      (rc_category ctx) (rw_tools w) = (r, ts)" by force
  have "timely_at (w\<lparr>rw_tools := ts\<rparr>) (net_op (NThread (rc_tool_name ctx)) (re_thread env (net_tick w), r) (w\<lparr>rw_tools := ts\<rparr>))"
    by (rule timely_net_op)
  then show "timely_at w (in_thread env ctx w)" using c by (simp add: in_thread_def timely_at_def)
qed

text \<open>C13.  A routed call to any backend but a sandbox returns within its time-out: when the router is called
with a positive time-out before any deadline of its callers, the clock has advanced by at most the
time-out when it returns, whatever the network, the remote servers and the tools do.\<close>

theorem route_time_bound:
  assumes "rc_server_type ctx \<noteq> E2B" and "0 < rc_timeout ctx"
    and "\<And>d. earliest (nw_deadlines w) = Some d \<Longrightarrow> nw_now w \<le> d"
  shows "nw_now (snd (route env ctx w)) \<le> nw_now w + rc_timeout ctx"
proof -
  note wf = wait_for_bound [OF _ less_imp_le [OF assms(2)]]
  have dev: "nw_now (snd (run_device env ctx w)) \<le> nw_now w + rc_timeout ctx"
    using wf [OF timely_devices, of "w\<lparr>rw_devices_built := True\<rparr>"] assms(3)
    by (simp add: run_device_def pm_then_def pm_modify_def)
  have "nw_now (snd (h ctx w)) \<le> nw_now w + rc_timeout ctx"
    if "h \<in> {run_local env, run_remote env, run_composio env, run_device env}" for h
    using that dev assms(2) wf [OF timely_in_thread assms(3)] wf [OF timely_pool_call assms(3)] wf [OF timely_composio assms(3)]
    by (auto simp: run_local_def run_remote_def run_composio_def pm_raise_def Let_def)
  then show ?thesis
    using assms(1,2) by (auto simp: route_def handlers_def pm_raise_def)
qed

definition demo_router :: router_env where
  "demo_router = \<lparr>re_net = dead_net, re_pool = demo_cfg,
     re_backend = \<lparr>bc_devices_url = ''d'', bc_backend_url = ''b'', bc_internal_key = ''k'', bc_composio_key = None\<rparr>,
     re_sandbox = demo_sandbox ''x'', re_tools = demo_env, re_thread = (\<lambda>_. 200)\<rparr>"

definition demo_world :: router_world where
  "demo_world = \<lparr>nw_log = [], nw_now = 0, nw_deadlines = [], pw_entries = [], bw_redis = redis_init, bw_events = [],
     rw_tools = demo_state, rw_e2b_built = False, rw_devices_built = False\<rparr>"

definition demo_ctx :: "string \<Rightarrow> route_ctx" where
  "demo_ctx ty = \<lparr>rc_tool_name = ''add'', rc_arguments = [], rc_invocation_id = ''i'', rc_org_id = ''o'', rc_project_id = None,
     rc_username = None, rc_project = None, rc_category = None, rc_server_config = [], rc_endpoint_url = None, rc_code = None,
     rc_server_type = ty, rc_timeout = 120\<rparr>"

theorem route_time_bound_witness:
  "nw_now (snd (route demo_router (demo_ctx LOCAL_PLUGIN) demo_world)) \<le> 120"
  using route_time_bound [of "demo_ctx LOCAL_PLUGIN" demo_world demo_router]
  by (simp add: demo_ctx_def demo_world_def server_type_defs)

text \<open>An invocation that cannot be routed, because its server type is unknown or because a remote server
has no endpoint, ends with a routing error that is not transient, before any outbound operation and with
the world as it was.\<close>

theorem misrouted_call_rejected:
  assumes "rc_server_type ctx \<notin> {LOCAL_PLUGIN, REMOTE_SSE, REMOTE_HTTP, COMPOSIO, E2B, DEVICE}
    \<or> rc_server_type ctx \<in> {REMOTE_SSE, REMOTE_HTTP} \<and> \<not> str_truthy (rc_endpoint_url ctx)"
  shows "\<exists>m. route env ctx w = (Inl (Exc RoutingErr m), w) \<and> \<not> is_transient (Exc RoutingErr m)"
  using assms by (auto simp: route_def handlers_def run_remote_def pm_raise_def is_transient_iff server_type_defs)

theorem misrouted_call_rejected_witness:
  "\<exists>m. route demo_router (demo_ctx REMOTE_SSE) demo_world = (Inl (Exc RoutingErr m), demo_world)"
  using misrouted_call_rejected [of "demo_ctx REMOTE_SSE" demo_router demo_world] by (auto simp: demo_ctx_def)

section \<open>The router leaves the rest of the world alone\<close>

text \<open>What routing keeps: the fields later theories add, and the final events published so far.\<close>

definition rest :: "'w router_world_scheme \<Rightarrow> 'w \<times> (string \<times> event) list" where
  "rest w = (router_world.more w, filter (ev_final \<circ> snd) (bw_events w))"

abbreviation frame :: "('w router_world_scheme, exc, 'a) pm \<Rightarrow> bool" where
  "frame \<equiv> keeps rest"

lemma frame_of_more:
  fixes w w' :: "'w router_world_scheme"
  shows "net_world.more w' = net_world.more w \<Longrightarrow> rest w' = rest w"
  by (cases w; cases w') (simp add: rest_def)

lemma rest_updates [simp]:
  "rest (w\<lparr>nw_deadlines := ds\<rparr>) = rest w" "rest (w\<lparr>rw_tools := ts\<rparr>) = rest w" "rest (w\<lparr>rw_e2b_built := b\<rparr>) = rest w"
  "rest (w\<lparr>rw_devices_built := b\<rparr>) = rest w"
  by (simp_all add: rest_def)

lemma frame_net_only: "net_only m \<Longrightarrow> frame m"
  unfolding net_only_def keeps_def using frame_of_more by blast

lemma frame_wait_for [keeps_intros]: "frame m \<Longrightarrow> frame (wait_for t m)"
  by (simp add: keeps_def wait_for_def case_prod_beta)

text \<open>What the pool and the clients over it keep: everything the router and the service add to the world.\<close>

abbreviation pool_frame :: "('w pool_world_scheme, exc, 'a) pm \<Rightarrow> bool" where
  "pool_frame \<equiv> keeps pool_world.more"

lemma pool_more:
  fixes w w' :: "'w pool_world_scheme"
  shows "net_world.more w' = net_world.more w \<Longrightarrow> pool_world.more w' = pool_world.more w"
  by (cases w; cases w') simp

lemma pool_frame_net_only: "net_only m \<Longrightarrow> pool_frame m"
  unfolding net_only_def keeps_def using pool_more by blast

lemma pool_frame_rest: "pool_frame m \<Longrightarrow> frame m"
proof -
  have "rest w' = rest w" if "pool_world.more w' = pool_world.more w" for w w' :: "'c router_world_scheme"
    using that by (cases w; cases w') (simp add: rest_def)
  then show "pool_frame m \<Longrightarrow> frame m" unfolding keeps_def by blast
qed

lemma more_entries [simp]:
  fixes w :: "'w pool_world_scheme"
  shows "pool_world.more (set_entry k e w) = pool_world.more w" "pool_world.more (unlock k w) = pool_world.more w"
    "pool_world.more (drop_entry k w) = pool_world.more w" "pool_world.more (prune_closed_loops cfg w) = pool_world.more w"
    "pool_world.more (w\<lparr>pw_entries := es\<rparr>) = pool_world.more w"
  by (auto simp: set_entry_def unlock_def drop_entry_def prune_closed_loops_def split: option.split)

lemma more_disconnect [simp]:
  fixes w :: "'w pool_world_scheme"
  shows "pool_world.more (snd (snd (mw_disconnect env m w))) = pool_world.more w"
  by (rule pool_more) simp

lemma pool_frame_hard_close [keeps_intros]: "pool_frame (hard_close env k e)"
  unfolding keeps_def
proof
  fix w :: "'w pool_world_scheme"
  obtain r m w' where d: "mw_disconnect env (pe_wrapper e) w = (r, m, w')" by (cases "mw_disconnect env (pe_wrapper e) w") auto
  then have "pool_world.more w' = pool_world.more w" using more_disconnect [of env "pe_wrapper e" w] by simp
  with d show "pool_world.more (snd (hard_close env k e w)) = pool_world.more w"
    by (cases r) (simp_all add: hard_close_def Let_def)
qed

lemmas hard_close_more [simp] = keeps_at [OF pool_frame_hard_close]

lemma pool_frame_get_entry [keeps_intros]: "pool_frame (get_entry cfg env url tr)"
proof -
  have ev: "pool_frame (evict_to_capacity cfg env)"
    unfolding keeps_def evict_to_capacity_def by (auto simp: case_prod_beta split: option.split sum.split)
  show ?thesis
    unfolding keeps_def get_entry_def Let_def
    by (auto simp: case_prod_beta keeps_at [OF ev] split: option.split sum.split)
qed

lemma pool_frame_mark_broken: "pool_frame (mark_broken env url tr)"
  by (auto simp: keeps_def mark_broken_def pm_finally_def Let_def case_prod_beta split: option.split sum.split)

lemma pool_frame_pool_call [keeps_intros]: "pool_frame (pool_call_tool cfg env url tr name args)"
proof -
  have e3: "pool_frame (\<lambda>w. let e3 = e2\<lparr>pe_last_used := nw_now w\<rparr> in (Inr e3, set_entry k e3 w))" for e2 k
    by (simp add: keeps_def Let_def)
  have ec: "pool_frame (ensure_connected cfg env k e)" for k e
    unfolding ensure_connected_def case_prod_beta
    by (intro keeps_bind keeps_if pool_frame_hard_close keeps_pure(1) pool_frame_net_only [OF net_only_connect] e3)
  have wa: "pool_frame (with_acquired cfg env url tr (\<lambda>m. mw_call_tool env m name args))"
    unfolding with_acquired_def Let_def
    by (intro keeps_bind keeps_then pool_frame_get_entry keeps_finally ec pool_frame_net_only [OF net_only_call_tool])
      (simp_all add: keeps_def pm_modify_def)
  show ?thesis
    unfolding pool_call_tool_def with_reconnect_def by (intro keeps_intros wa pool_frame_mark_broken)
qed

lemma pool_frame_composio [keeps_intros]: "pool_frame (composio_call_tool cfg env c name args)"
proof -
  have d: "pool_frame (\<lambda>w. case mw_disconnect env m w of (Inr _, m', w') \<Rightarrow> (Inr r, w') | (Inl e, m', w') \<Rightarrow> (Inl e, w'))"
    for m and r :: json
    unfolding keeps_def
  proof
    fix w :: "'c pool_world_scheme"
    obtain x m' w' where "mw_disconnect env m w = (x, m', w')" by (cases "mw_disconnect env m w") auto
    then show "pool_world.more (snd (case mw_disconnect env m w of (Inr _, m', w') \<Rightarrow> (Inr r, w') | (Inl e, m', w') \<Rightarrow> (Inl e, w')))
        = pool_world.more w"
      using more_disconnect [of env m w] by (cases x) auto
  qed
  have s: "pool_frame (composio_sdk env c (\<lambda>m. mw_call_tool env m name args))"
    unfolding composio_sdk_def
    by (intro keeps_bind pool_frame_net_only [OF net_only_connect], clarify)
      (intro keeps_bind pool_frame_net_only [OF net_only_call_tool] d)
  have j: "net_only (case data of JObj d \<Rightarrow> pm_return (composio_output d) | _ \<Rightarrow> pm_raise e)" for data e
    by (cases data) (auto intro: net_only_intros)
  have r: "net_only (composio_rest_call env key name args)" for key
    unfolding composio_rest_call_def by (intro net_only_intros j)
  show ?thesis
    unfolding composio_call_tool_def sdk_or_rest_def by (intro keeps_intros s pool_frame_net_only [OF r])
qed

lemma frame_pool_call [keeps_intros]: "frame (pool_call_tool cfg env url tr name args)"
  by (rule pool_frame_rest [OF pool_frame_pool_call])

lemma frame_composio [keeps_intros]: "frame (composio_call_tool cfg env c name args)"
  by (rule pool_frame_rest [OF pool_frame_composio])

lemma frame_devices [keeps_intros]: "frame (devices_call_tool cfg env name args config iv)"
  unfolding devices_call_tool_def Let_def by (intro frame_net_only net_only_intros)

lemma frame_op: "frame (\<lambda>w. net_op op (res w) w)"
  unfolding keeps_def by (auto intro: frame_of_more)

lemma rest_emit_log: "rest (emit_event i (log_event l m) w) = rest w"
  by (simp add: rest_def emit_event_def log_event_def)

lemma publish_chunks_more [simp]:
  fixes w :: "'w router_world_scheme"
  shows "rest (publish_chunks iv cs w) = rest w"
  by (induction iv cs w rule: publish_chunks.induct) (simp_all add: rest_emit_log)

lemma frame_run_in_sandbox: "frame (run_in_sandbox sb sid code iv)"
  unfolding keeps_def
proof
  fix w :: "'a router_world_scheme"
  have n: "rest (snd (net_op op res v)) = rest v" for op res and v :: "'a router_world_scheme"
    by (rule frame_of_more) simp
  show "rest (snd (run_in_sandbox sb sid code iv w)) = rest w"
    by (auto simp: run_in_sandbox_def case_prod_beta n Let_def split: sum.split)
qed

lemma frame_e2b [keeps_intros]: "frame (e2b_execute sb code args iv)"
  unfolding keeps_def
proof
  fix w :: "'a router_world_scheme"
  have d: "frame (destroy_sandbox sb sid)" for sid
    unfolding destroy_sandbox_def by (intro keeps_intros frame_op)
  have c: "frame (create_ephemeral_sandbox sb)"
    unfolding create_ephemeral_sandbox_def by (intro keeps_intros frame_op)
  show "rest (snd (e2b_execute sb code args iv w)) = rest w"
    by (auto simp: e2b_execute_def Let_def case_prod_beta rest_emit_log keeps_at [OF c] keeps_at [OF frame_run_in_sandbox]
        keeps_at [OF frame_wait_for [OF d]] split: sum.split)
qed

lemma frame_in_thread: "frame (in_thread env ctx)"
proof -
  have n: "rest (snd (net_op op res v)) = rest v" for op res and v :: "'a router_world_scheme"
    by (rule frame_of_more) simp
  show "frame (in_thread env ctx :: ('a router_world_scheme, exc, json) pm)"
    by (simp add: keeps_def in_thread_def case_prod_beta n)
qed

lemma frame_route: "frame (route env ctx)"
proof -
  note frame_in_thread [keeps_intros]
  have l: "frame (run_local env ctx)" unfolding run_local_def by (intro keeps_intros)
  have r: "frame (run_remote env ctx)" unfolding run_remote_def Let_def by (intro keeps_intros)
  have c: "frame (run_composio env ctx)" unfolding run_composio_def by (intro keeps_intros)
  have e: "frame (run_e2b env ctx)" unfolding run_e2b_def
    by (intro keeps_intros) (simp add: keeps_def pm_modify_def)
  have d: "frame (run_device env ctx)" unfolding run_device_def
    by (intro keeps_intros) (simp add: keeps_def pm_modify_def)
  show ?thesis
    using l r c e d keeps_pure(2) by (auto simp: route_def handlers_def)
qed

end
