(* ===== verification/Db_Models.thy ===== *)
theory Db_Models
  imports Mcp_Errors
begin

text \<open>
  The tables of \<open>app/models\<close> the services read and write, as lists of rows in insertion order, and the
  identifiers.  A UUID is its 32 lower-case hexadecimal digits; \<open>uuid_parse\<close> is \<open>uuid.UUID(s)\<close>.  A
  database statement with its commit is one operation; the faults it may meet come from a script in
  the world that gives, statement by statement, the exception it raises, if any.
\<close>

section \<open>Identifiers\<close>

type_synonym uuid = string

function remove_sub :: "string \<Rightarrow> string \<Rightarrow> string" where
  "remove_sub m [] = []"
| "remove_sub m (c # cs) =
     (if m \<noteq> [] \<and> startswith (c # cs) m then remove_sub m (drop (length m - 1) cs) else c # remove_sub m cs)"
  by pat_completeness auto
termination
  by (relation "measure (\<lambda>(m, s). length s)") auto

definition strip_braces :: "string \<Rightarrow> string" where
  "strip_braces s =
     (let b = (\<lambda>c. c = CHR ''{'' \<or> c = CHR ''}'') in rev (dropWhile b (rev (dropWhile b s))))"

definition is_hex :: "char \<Rightarrow> bool" where
  "is_hex c \<longleftrightarrow> hex_val c \<noteq> None"

definition uuid_parse :: "string \<Rightarrow> uuid option" where
  "uuid_parse s =
     (let h = filter (\<lambda>c. c \<noteq> CHR ''-'') (strip_braces (remove_sub ''uuid:'' (remove_sub ''urn:'' s)))
      in if length h = 32 \<and> list_all is_hex h then Some (str_lower h) else None)"

text \<open>\<open>str(u)\<close>: the digits in groups of 8, 4, 4, 4 and 12.\<close>

definition uuid_str :: "uuid \<Rightarrow> string" where
  "uuid_str u = take 8 u @ ''-'' @ take 4 (drop 8 u) @ ''-'' @ take 4 (drop 12 u) @ ''-'' @ take 4 (drop 16 u) @ ''-'' @ drop 20 u"

definition uuid_error :: exc where
  "uuid_error = Exc ValueErr ''badly formed hexadecimal UUID string''"

section \<open>Rows\<close>

text \<open>
  The columns of the tables.  Left out are \<open>updated_at\<close>, which no code reads, the relationships, which give
  the cascades of \<open>Server_Registry\<close>, and the tables no code of the service reads or writes
  (permissions, execution logs, sandboxes).
\<close>

datatype server_status = SActive | SInactive | SConnecting | SError

record server_row =
  sv_id :: uuid
  sv_org :: uuid
  sv_name :: string
  sv_slug :: string
  sv_type :: string
  sv_transport :: string
  sv_endpoint :: "string option"
  sv_config :: jdict
  sv_status :: server_status
  sv_created :: seconds

record connection_row =
  cn_id :: uuid
  cn_server :: uuid
  cn_org :: uuid
  cn_status :: string
  cn_connected :: "seconds option"
  cn_disconnected :: "seconds option"
  cn_metadata :: json

datatype tool_status = TAvailable | TUnavailable | TDeprecated

record tool_row =
  tl_id :: uuid
  tl_server :: uuid
  tl_org :: uuid
  tl_project :: "uuid option"
  tl_name :: string
  tl_description :: string
  tl_schema :: json
  tl_type :: string
  tl_category :: "string option"
  tl_status :: tool_status

record org_tool_row =
  ot_org :: uuid
  ot_tool :: uuid
  ot_enabled :: bool
  ot_config :: jdict

record project_tool_row =
  pt_project :: uuid
  pt_tool :: uuid
  pt_enabled :: bool
  pt_config :: jdict

datatype invocation_status = PENDING | RUNNING | DONE | FAILED | CANCELLED | TIMEOUT

record invocation_row =
  iv_id :: uuid
  iv_session :: "uuid option"
  iv_tool :: "uuid option"
  iv_org :: uuid
  iv_project :: "uuid option"
  iv_user :: "string option"
  iv_tool_name :: string
  iv_server_type :: string
  iv_status :: invocation_status
  iv_input :: jdict
  iv_output :: "json option"
  iv_error :: "string option"
  iv_started :: seconds
  iv_completed :: "seconds option"

record session_row =
  sn_id :: uuid
  sn_org :: uuid
  sn_project :: "uuid option"
  sn_user :: "string option"
  sn_servers :: "uuid list"
  sn_metadata :: json
  sn_created :: seconds
  sn_expires :: "seconds option"

record sandbox_session =
  bx_id :: uuid
  bx_org :: uuid
  bx_sandbox_id :: string
  bx_status :: string
  bx_created :: seconds
  bx_expires :: "seconds option"

record database =
  db_servers :: "server_row list"
  db_connections :: "connection_row list"
  db_tools :: "tool_row list"
  db_org_tools :: "org_tool_row list"
  db_project_tools :: "project_tool_row list"
  db_invocations :: "invocation_row list"
  db_sessions :: "session_row list"
  db_sandboxes :: "sandbox_session list"

definition db_empty :: database where
  "db_empty = \<lparr>db_servers = [], db_connections = [], db_tools = [], db_org_tools = [], db_project_tools = [],
     db_invocations = [], db_sessions = [], db_sandboxes = []\<rparr>"

section \<open>Queries\<close>

text \<open>\<open>scalar_one_or_none\<close> over a query on a primary key: the first row that matches.\<close>

definition first_row :: "('r \<Rightarrow> bool) \<Rightarrow> 'r list \<Rightarrow> 'r option" where
  "first_row P rs = find P rs"

text \<open>\<open>update(T).where(P).values(..)\<close>.\<close>

definition update_rows :: "('r \<Rightarrow> bool) \<Rightarrow> ('r \<Rightarrow> 'r) \<Rightarrow> 'r list \<Rightarrow> 'r list" where
  "update_rows P f rs = map (\<lambda>r. if P r then f r else r) rs"

lemma update_rows_simps [simp]:
  "update_rows P f [] = []" "length (update_rows P f rs) = length rs"
  by (simp_all add: update_rows_def)

lemma set_update_rows: "set (update_rows P f rs) = f ` {r \<in> set rs. P r} \<union> {r \<in> set rs. \<not> P r}"
  by (auto simp: update_rows_def)

end
