(* ===== verification/Cancel_Registry.thy ===== *)
theory Cancel_Registry
  imports Py_Prelude
begin

text \<open>
  The cancellation registry of \<open>app/core/runtime/cancellation.py\<close>.  An \<open>asyncio.Event\<close> is an index
  into the list \<open>flags\<close> of all events ever made, so that a task that keeps its event and the registry
  that forgets it are told apart.
\<close>

record cancel_reg =
  events :: "(string, nat) dict"
  flags :: "bool list"

definition reg_init :: cancel_reg where
  "reg_init = \<lparr>events = [], flags = []\<rparr>"

definition event_is_set :: "nat \<Rightarrow> cancel_reg \<Rightarrow> bool" where
  "event_is_set n g \<longleftrightarrow> n < length (flags g) \<and> flags g ! n"

definition reg_register :: "string \<Rightarrow> cancel_reg \<Rightarrow> nat \<times> cancel_reg" where
  "reg_register i g =
     (let n = length (flags g)
      in (n, g\<lparr>events := dict_set i n (events g), flags := flags g @ [False]\<rparr>))"

definition reg_cancel :: "string \<Rightarrow> cancel_reg \<Rightarrow> bool \<times> cancel_reg" where
  "reg_cancel i g =
     (case dict_get (events g) i of
        None \<Rightarrow> (False, g)
      | Some n \<Rightarrow> if event_is_set n g then (False, g) else (True, g\<lparr>flags := (flags g)[n := True]\<rparr>))"

definition reg_unregister :: "string \<Rightarrow> cancel_reg \<Rightarrow> cancel_reg" where
  "reg_unregister i g = g\<lparr>events := dict_pop i (events g)\<rparr>"

definition is_cancelled :: "string \<Rightarrow> cancel_reg \<Rightarrow> bool" where
  "is_cancelled i g =
     (case dict_get (events g) i of None \<Rightarrow> False | Some n \<Rightarrow> event_is_set n g)"

definition active_count :: "cancel_reg \<Rightarrow> nat" where
  "active_count g = length (events g)"

datatype cancel_op = Register string | Cancel string | Unregister string

fun cancel_step :: "cancel_reg \<Rightarrow> cancel_op \<Rightarrow> cancel_reg" where
  "cancel_step g (Register i) = snd (reg_register i g)"
| "cancel_step g (Cancel i) = snd (reg_cancel i g)"
| "cancel_step g (Unregister i) = reg_unregister i g"

text \<open>Every registered event exists, and no two invocations share one.\<close>

definition reg_wf :: "cancel_reg \<Rightarrow> bool" where
  "reg_wf g \<longleftrightarrow> dict_wf (events g) \<and> (\<forall>i n. dict_get (events g) i = Some n \<longrightarrow> n < length (flags g))
     \<and> (\<forall>i j n. dict_get (events g) i = Some n \<longrightarrow> dict_get (events g) j = Some n \<longrightarrow> i = j)"

lemma reg_wf_init [simp]: "reg_wf reg_init"
  by (simp add: reg_wf_def reg_init_def)

lemma reg_wf_register: "reg_wf g \<Longrightarrow> reg_wf (snd (reg_register i g))"
  by (fastforce simp: reg_wf_def reg_register_def Let_def split: if_splits)

lemma reg_wf_cancel: "reg_wf g \<Longrightarrow> reg_wf (snd (reg_cancel i g))"
  by (auto simp: reg_wf_def reg_cancel_def split: option.splits)

lemma reg_wf_unregister: "reg_wf g \<Longrightarrow> reg_wf (reg_unregister i g)"
  unfolding reg_wf_def reg_unregister_def by (auto split: if_splits)

interpretation cancel_ops: op_invariant cancel_step reg_wf
proof
  fix g x
  assume "reg_wf g"
  then show "reg_wf (cancel_step g x)"
    by (cases x) (auto simp: reg_wf_register reg_wf_cancel reg_wf_unregister)
qed

lemma event_set_mono:
  assumes "event_is_set n g"
  shows "event_is_set n (cancel_step g x)"
proof (cases x)
  case (Cancel i)
  have "event_is_set n (g\<lparr>flags := (flags g)[m := True]\<rparr>)" for m
    using assms by (cases "m = n") (auto simp: event_is_set_def)
  with assms Cancel show ?thesis by (simp add: reg_cancel_def split: option.split)
qed (use assms in \<open>simp_all add: event_is_set_def reg_register_def reg_unregister_def Let_def nth_append\<close>)

interpretation cancel_sticky: op_invariant cancel_step "event_is_set n" for n
  by unfold_locales (rule event_set_mono)

lemma is_cancelled_unregister [simp]: "\<not> is_cancelled i (reg_unregister i g)"
  by (simp add: is_cancelled_def reg_unregister_def)

lemma cancel_result: "reg_wf g \<Longrightarrow> fst (reg_cancel i g) \<longleftrightarrow> dict_get (events g) i \<noteq> None \<and> \<not> is_cancelled i g"
  by (auto simp: reg_cancel_def is_cancelled_def split: option.splits)

lemma cancel_sets: "reg_wf g \<Longrightarrow> dict_get (events g) i \<noteq> None \<Longrightarrow> is_cancelled i (snd (reg_cancel i g))"
  by (auto simp: reg_cancel_def is_cancelled_def reg_wf_def event_is_set_def split: option.splits)

lemma cancel_other: "reg_wf g \<Longrightarrow> j \<noteq> i \<Longrightarrow> is_cancelled j (snd (reg_cancel i g)) = is_cancelled j g"
  by (auto simp: reg_cancel_def is_cancelled_def reg_wf_def event_is_set_def nth_list_update
      split: option.splits)

lemma register_fresh: "\<not> event_is_set (fst (reg_register i g)) (snd (reg_register i g))"
  by (simp add: reg_register_def Let_def event_is_set_def)

text \<open>C15.  Over any sequence of registrations, cancellations and removals the registry stays well
formed; a cancellation succeeds exactly when the invocation is registered and not yet cancelled, it then
marks that invocation and no other, and the event it set stays set for the task that holds it,
whatever happens to the registry afterwards.\<close>

theorem cancellation_correct:
  assumes "g = foldl cancel_step reg_init ops"
  shows "reg_wf g
    \<and> (fst (reg_cancel i g) \<longleftrightarrow> dict_get (events g) i \<noteq> None \<and> \<not> is_cancelled i g)
    \<and> (\<forall>j. is_cancelled j (snd (reg_cancel i g)) \<longleftrightarrow> is_cancelled j g \<or> (j = i \<and> dict_get (events g) i \<noteq> None))
    \<and> (\<forall>n later. dict_get (events g) i = Some n \<longrightarrow>
         event_is_set n (foldl cancel_step (snd (reg_cancel i g)) later))"
proof -
  have w: "reg_wf g" using assms by (simp add: cancel_ops.run_inv)
  have eq: "is_cancelled j (snd (reg_cancel i g)) \<longleftrightarrow> is_cancelled j g \<or> (j = i \<and> dict_get (events g) i \<noteq> None)" for j
  proof (cases "j = i")
    case True
    then show ?thesis
      using cancel_sets [OF w, of i] by (auto simp: is_cancelled_def reg_cancel_def split: option.splits)
  next
    case False
    then show ?thesis using cancel_other [OF w] by simp
  qed
  have set: "event_is_set n (snd (reg_cancel i g))" if "dict_get (events g) i = Some n" for n
    using that w by (auto simp: reg_cancel_def reg_wf_def event_is_set_def)
  show ?thesis
    using w cancel_result [OF w] eq cancel_sticky.run_inv [OF set] by blast
qed

theorem cancellation_correct_witness:
  "fst (reg_cancel ''a'' (foldl cancel_step reg_init [Register ''a'', Register ''b'']))"
  using cancellation_correct [OF refl, of "[Register ''a'', Register ''b'']" "''a''"]
  by (simp add: reg_register_def reg_init_def Let_def is_cancelled_def event_is_set_def)

end
