(* ===== verification/Execution_Service.thy ===== *)
theory Execution_Service
  imports Exec_Router Db_Models Cancel_Registry
begin

text \<open>
  The invocation lifecycle of \<open>app/services/execution_service.py\<close>: creation, the attempt loop with its
  retries, the terminal states, synchronous and background execution, cancellation and shutdown.  The
  environment \<open>exec_env\<close> adds to that of the router what else is not decided by the service: fresh
  identifiers, whether a cancellation request arrives before an attempt, how a back-off sleep ends
  and its jitter, and the decimal text of a time-out.  In the world, \<open>ew_running\<close> counts the held slots
  of the semaphore, \<open>ew_tasks\<close> holds the background tasks that were started and have not run, and
  \<open>ew_routed\<close> records the calls of the router.  An invocation runs from the moment it gets a slot.
\<close>

definition MAX_RETRIES :: nat where
  "MAX_RETRIES = 2"

record routing_info =
  ri_server_type :: string
  ri_endpoint :: "string option"
  ri_config :: "jdict option"

record invocation_ref =
  rf_id :: uuid
  rf_tool_name :: string
  rf_org :: string
  rf_project :: "string option"

record run_args =
  ra_arguments :: jdict
  ra_routing :: routing_info
  ra_username :: "string option"
  ra_project :: "string option"
  ra_category :: "string option"
  ra_timeout :: seconds

record exec_env =
  xe_router :: router_env
  xe_new_id :: "nat \<Rightarrow> uuid"
  xe_cancel :: "nat \<Rightarrow> bool"
  xe_sleep :: "nat \<Rightarrow> exc + unit"
  xe_jitter :: "nat \<Rightarrow> seconds"
  xe_float_str :: "seconds \<Rightarrow> string"
  xe_default_timeout :: seconds

record exec_world = router_world +
  ew_db :: database
  ew_faults :: "exc option list"
  ew_cancel :: cancel_reg
  ew_running :: nat
  ew_tasks :: "(invocation_ref \<times> run_args) list"
  ew_routed :: "uuid list"

section \<open>Database access\<close>

definition db_op :: "(database \<Rightarrow> database) \<Rightarrow> (exec_world, exc, unit) pm" where
  "db_op f w =
     (case ew_faults w of
        Some e # fs \<Rightarrow> (Inl e, w\<lparr>ew_faults := fs\<rparr>)
      | None # fs \<Rightarrow> (Inr (), w\<lparr>ew_faults := fs, ew_db := f (ew_db w)\<rparr>)
      | [] \<Rightarrow> (Inr (), w\<lparr>ew_db := f (ew_db w)\<rparr>))"

definition db_query :: "(database \<Rightarrow> 'a) \<Rightarrow> (exec_world, exc, 'a) pm" where
  "db_query f w =
     (case ew_faults w of
        Some e # fs \<Rightarrow> (Inl e, w\<lparr>ew_faults := fs\<rparr>)
      | None # fs \<Rightarrow> (Inr (f (ew_db w)), w\<lparr>ew_faults := fs\<rparr>)
      | [] \<Rightarrow> (Inr (f (ew_db w)), w))"

definition update_invocation :: "uuid \<Rightarrow> (invocation_row \<Rightarrow> invocation_row) \<Rightarrow> (exec_world, exc, unit) pm" where
  "update_invocation i f = db_op (\<lambda>d. d\<lparr>db_invocations := update_rows (\<lambda>r. iv_id r = i) f (db_invocations d)\<rparr>)"

definition mark_running :: "invocation_ref \<Rightarrow> (exec_world, exc, unit) pm" where
  "mark_running ref w = update_invocation (rf_id ref) (\<lambda>r. r\<lparr>iv_status := RUNNING, iv_started := nw_now w\<rparr>) w"

definition mark_done :: "invocation_ref \<Rightarrow> json \<Rightarrow> (exec_world, exc, unit) pm" where
  "mark_done ref result w =
     update_invocation (rf_id ref)
       (\<lambda>r. r\<lparr>iv_status := DONE, iv_output := Some result, iv_completed := Some (nw_now w)\<rparr>) w"

definition mark_failed :: "invocation_ref \<Rightarrow> string \<Rightarrow> (exec_world, exc, unit) pm" where
  "mark_failed ref error w =
     update_invocation (rf_id ref)
       (\<lambda>r. r\<lparr>iv_status := FAILED, iv_error := Some error, iv_completed := Some (nw_now w)\<rparr>) w"

definition mark_cancelled :: "invocation_ref \<Rightarrow> (exec_world, exc, unit) pm" where
  "mark_cancelled ref w =
     update_invocation (rf_id ref) (\<lambda>r. r\<lparr>iv_status := CANCELLED, iv_completed := Some (nw_now w)\<rparr>) w"

section \<open>Events\<close>

text \<open>Publishing never raises.\<close>

definition inv_str :: "invocation_ref \<Rightarrow> string" where
  "inv_str ref = uuid_str (rf_id ref)"

definition emit :: "invocation_ref \<Rightarrow> event \<Rightarrow> (exec_world, exc, unit) pm" where
  "emit ref e = pm_modify (emit_event (inv_str ref) e)"

section \<open>The attempt loop\<close>

definition ctx_of :: "invocation_ref \<Rightarrow> run_args \<Rightarrow> route_ctx" where
  "ctx_of ref ra =
     \<lparr>rc_tool_name = rf_tool_name ref, rc_arguments = ra_arguments ra, rc_invocation_id = inv_str ref,
      rc_org_id = rf_org ref, rc_project_id = rf_project ref, rc_username = ra_username ra, rc_project = ra_project ra,
      rc_category = ra_category ra,
      rc_server_config = (case ri_config (ra_routing ra) of None \<Rightarrow> [] | Some c \<Rightarrow> c),
      rc_endpoint_url = ri_endpoint (ra_routing ra), rc_code = None,
      rc_server_type = ri_server_type (ra_routing ra), rc_timeout = ra_timeout ra\<rparr>"

definition routed :: "exec_env \<Rightarrow> invocation_ref \<Rightarrow> run_args \<Rightarrow> (exec_world, exc, json) pm" where
  "routed env ref ra w = route (xe_router env) (ctx_of ref ra) (w\<lparr>ew_routed := ew_routed w @ [rf_id ref]\<rparr>)"

text \<open>The body of the \<open>try\<close> of one attempt.\<close>

definition attempt_body :: "exec_env \<Rightarrow> invocation_ref \<Rightarrow> run_args \<Rightarrow> nat \<Rightarrow> (exec_world, exc, json) pm" where
  "attempt_body env ref ra attempt =
     pm_then (if 0 < attempt
              then emit ref (log_event ''warn'' (''Retry '' @ nat_str attempt @ ''/'' @ nat_str MAX_RETRIES))
              else pm_return ())
       (pm_bind (routed env ref ra) (\<lambda>result.
          pm_then (mark_done ref result)
            (pm_then (emit ref (result_event result))
              (pm_then (emit ref (log_event ''info'' ''Tool completed successfully''))
                (pm_return result)))))"

definition cancelled_result :: json where
  "cancelled_result = tool_error ''Invocation cancelled'' []"

definition finish_cancelled :: "invocation_ref \<Rightarrow> (exec_world, exc, json) pm" where
  "finish_cancelled ref = pm_then (mark_cancelled ref) (pm_return cancelled_result)"

definition backoff_sleep :: "exec_env \<Rightarrow> nat \<Rightarrow> (exec_world, exc, unit) pm" where
  "backoff_sleep env attempt w =
     (let t = backoff_seconds attempt (xe_jitter env (net_tick w))
      in net_op (NSleep t) (t, xe_sleep env (net_tick w)) w)"

text \<open>
  How an attempt ends: the loop returns, goes on to the next attempt, or is left with an error.  The
  time-out error is replaced by one that names the tool.  An exception raised while an exception is
  handled, such as a cancellation of the sleep, leaves the method.
\<close>

datatype attempt_end = Return json | NextAttempt exc | Break exc

definition timeout_error :: "exec_env \<Rightarrow> invocation_ref \<Rightarrow> run_args \<Rightarrow> exc" where
  "timeout_error env ref ra =
     Exc TimeoutErr (''Tool '' @ [CHR 0x27] @ rf_tool_name ref @ [CHR 0x27] @ '' timed out after ''
       @ xe_float_str env (ra_timeout ra) @ ''s'')"

definition handle_failure :: "exec_env \<Rightarrow> invocation_ref \<Rightarrow> run_args \<Rightarrow> nat \<Rightarrow> exc \<Rightarrow> (exec_world, exc, attempt_end) pm" where
  "handle_failure env ref ra attempt e =
     (if is_cancelled_exc e then pm_bind (finish_cancelled ref) (\<lambda>r. pm_return (Return r))
      else if is_timeout_exc e then
        (let last = timeout_error env ref ra in
         pm_then (emit ref (log_event ''error'' (exc_msg last)))
           (if MAX_RETRIES \<le> attempt then pm_return (Break last)
            else pm_then (backoff_sleep env attempt) (pm_return (NextAttempt last))))
      else if is_exception e then
        pm_then (emit ref (log_event ''error'' (exc_msg e)))
          (if MAX_RETRIES \<le> attempt \<or> \<not> is_transient e then pm_return (Break e)
           else pm_then (backoff_sleep env attempt) (pm_return (NextAttempt e)))
      else pm_raise e)"

text \<open>A cancellation request of another task may arrive before the check of the event.\<close>

definition external_cancel :: "exec_env \<Rightarrow> invocation_ref \<Rightarrow> nat \<Rightarrow> exec_world \<Rightarrow> exec_world" where
  "external_cancel env ref attempt w =
     (if xe_cancel env attempt then w\<lparr>ew_cancel := snd (reg_cancel (inv_str ref) (ew_cancel w))\<rparr> else w)"

definition one_attempt ::
  "exec_env \<Rightarrow> invocation_ref \<Rightarrow> run_args \<Rightarrow> nat \<Rightarrow> nat \<Rightarrow> (exec_world, exc, attempt_end) pm" where
  "one_attempt env ref ra ev attempt w0 =
     (let w = external_cancel env ref attempt w0 in
      if event_is_set ev (ew_cancel w) then pm_bind (finish_cancelled ref) (\<lambda>r. pm_return (Return r)) w
      else pm_catch (pm_bind (attempt_body env ref ra attempt) (\<lambda>r. pm_return (Return r)))
             (handle_failure env ref ra attempt) w)"

text \<open>The loop, with the number of attempts that are left after the current one.\<close>

fun attempts :: "exec_env \<Rightarrow> invocation_ref \<Rightarrow> run_args \<Rightarrow> nat \<Rightarrow> nat \<Rightarrow> (exec_world, exc, attempt_end) pm" where
  "attempts env ref ra ev 0 = one_attempt env ref ra ev MAX_RETRIES"
| "attempts env ref ra ev (Suc n) =
     pm_bind (one_attempt env ref ra ev (MAX_RETRIES - Suc n)) (\<lambda>x.
       case x of NextAttempt e \<Rightarrow> attempts env ref ra ev n | _ \<Rightarrow> pm_return x)"

definition finish_failed :: "invocation_ref \<Rightarrow> exc \<Rightarrow> (exec_world, exc, json) pm" where
  "finish_failed ref e =
     pm_then (mark_failed ref (exc_msg e))
       (pm_then (emit ref (error_event (exc_msg e)))
         (pm_return (tool_error (exc_msg e) [])))"

text \<open>The part of \<open>_run\<close> that holds a slot of the semaphore, and \<open>_run\<close> itself.\<close>

definition run_in_slot :: "exec_env \<Rightarrow> invocation_ref \<Rightarrow> run_args \<Rightarrow> nat \<Rightarrow> (exec_world, exc, json) pm" where
  "run_in_slot env ref ra ev =
     pm_then (mark_running ref)
       (pm_then (emit ref (log_event ''info'' (''Starting tool: '' @ rf_tool_name ref)))
         (pm_bind (attempts env ref ra ev MAX_RETRIES) (\<lambda>x.
            case x of Return r \<Rightarrow> pm_return r | NextAttempt e \<Rightarrow> finish_failed ref e | Break e \<Rightarrow> finish_failed ref e)))"

definition run_invocation :: "exec_env \<Rightarrow> invocation_ref \<Rightarrow> run_args \<Rightarrow> nat \<Rightarrow> (exec_world, exc, json) pm" where
  "run_invocation env ref ra ev w =
     pm_finally (run_in_slot env ref ra ev) (\<lambda>w. w\<lparr>ew_running := ew_running w - 1\<rparr>) (w\<lparr>ew_running := Suc (ew_running w)\<rparr>)"

section \<open>Invoking a tool\<close>

definition resolve_tool_routing :: "uuid option \<Rightarrow> (exec_world, exc, routing_info) pm" where
  "resolve_tool_routing tool_id =
     (let local = \<lparr>ri_server_type = LOCAL_PLUGIN, ri_endpoint = None, ri_config = None\<rparr> in
      case tool_id of
        None \<Rightarrow> pm_return local
      | Some t \<Rightarrow>
          db_query (\<lambda>d.
            case first_row (\<lambda>r. tl_id r = t) (db_tools d) of
              None \<Rightarrow> local
            | Some tool \<Rightarrow>
                (case first_row (\<lambda>s. sv_id s = tl_server tool) (db_servers d) of
                   None \<Rightarrow> local
                 | Some s \<Rightarrow> \<lparr>ri_server_type = sv_type s, ri_endpoint = sv_endpoint s, ri_config = Some (sv_config s)\<rparr>)))"

record invoke_req =
  iq_tool_name :: string
  iq_arguments :: jdict
  iq_org :: string
  iq_project_id :: "string option"
  iq_user :: "string option"
  iq_session :: "uuid option"
  iq_tool_id :: "uuid option"
  iq_username :: "string option"
  iq_project :: "string option"
  iq_category :: "string option"
  iq_timeout :: "seconds option"

definition create_invocation :: "exec_env \<Rightarrow> invoke_req \<Rightarrow> string \<Rightarrow> (exec_world, exc, uuid) pm" where
  "create_invocation env q server_type w =
     (case uuid_parse (iq_org q) of
        None \<Rightarrow> (Inl uuid_error, w)
      | Some org \<Rightarrow>
          (case (if str_truthy (iq_project_id q) then map_option Some (uuid_parse (the (iq_project_id q))) else Some None) of
             None \<Rightarrow> (Inl uuid_error, w)
           | Some proj \<Rightarrow>
               (let i = xe_new_id env (length (db_invocations (ew_db w)));
                    row = \<lparr>iv_id = i, iv_session = iq_session q, iv_tool = iq_tool_id q, iv_org = org, iv_project = proj,
                      iv_user = iq_user q, iv_tool_name = iq_tool_name q, iv_server_type = server_type, iv_status = PENDING,
                      iv_input = iq_arguments q, iv_output = None, iv_error = None, iv_started = nw_now w, iv_completed = None\<rparr>
                in pm_then (db_op (\<lambda>d. d\<lparr>db_invocations := db_invocations d @ [row]\<rparr>)) (pm_return i) w)))"

definition effective_timeout :: "exec_env \<Rightarrow> seconds option \<Rightarrow> seconds" where
  "effective_timeout env t = (case t of Some s \<Rightarrow> if s \<noteq> 0 then s else xe_default_timeout env | None \<Rightarrow> xe_default_timeout env)"

definition run_args_of :: "exec_env \<Rightarrow> invoke_req \<Rightarrow> routing_info \<Rightarrow> run_args" where
  "run_args_of env q routing =
     \<lparr>ra_arguments = iq_arguments q, ra_routing = routing, ra_username = iq_username q, ra_project = iq_project q,
      ra_category = iq_category q, ra_timeout = effective_timeout env (iq_timeout q)\<rparr>"

definition ref_of :: "invoke_req \<Rightarrow> uuid \<Rightarrow> invocation_ref" where
  "ref_of q i = \<lparr>rf_id = i, rf_tool_name = iq_tool_name q, rf_org = iq_org q, rf_project = iq_project_id q\<rparr>"

text \<open>Registration with the cancellation registry around a run, as \<open>invoke\<close> and the background task do it.\<close>

definition with_cancel_event ::
  "invocation_ref \<Rightarrow> (nat \<Rightarrow> (exec_world, exc, 'a) pm) \<Rightarrow> (exec_world, exc, 'a) pm" where
  "with_cancel_event ref body w =
     (case reg_register (inv_str ref) (ew_cancel w) of
        (ev, g) \<Rightarrow>
          pm_finally (body ev) (\<lambda>w. w\<lparr>ew_cancel := reg_unregister (inv_str ref) (ew_cancel w)\<rparr>) (w\<lparr>ew_cancel := g\<rparr>))"

definition invoke :: "exec_env \<Rightarrow> invoke_req \<Rightarrow> (exec_world, exc, json) pm" where
  "invoke env q =
     pm_bind (resolve_tool_routing (iq_tool_id q)) (\<lambda>routing.
       pm_bind (create_invocation env q (ri_server_type routing)) (\<lambda>i.
         with_cancel_event (ref_of q i) (run_invocation env (ref_of q i) (run_args_of env q routing))))"

definition invoke_async :: "exec_env \<Rightarrow> invoke_req \<Rightarrow> (exec_world, exc, uuid) pm" where
  "invoke_async env q =
     pm_bind (resolve_tool_routing (iq_tool_id q)) (\<lambda>routing.
       pm_bind (create_invocation env q (ri_server_type routing)) (\<lambda>i.
         pm_then (pm_modify (\<lambda>w. w\<lparr>ew_tasks := ew_tasks w @ [(ref_of q i, run_args_of env q routing)]\<rparr>))
           (pm_return i)))"

text \<open>\<open>_run_background\<close>: an exception is logged, a cancellation ends the task.\<close>

definition run_background :: "exec_env \<Rightarrow> invocation_ref \<Rightarrow> run_args \<Rightarrow> (exec_world, exc, unit) pm" where
  "run_background env ref ra =
     with_cancel_event ref (\<lambda>ev.
       pm_catch (pm_bind (run_invocation env ref ra ev) (\<lambda>_. pm_return ()))
         (\<lambda>e. if is_exception e then pm_return () else pm_raise e))"

text \<open>The event loop runs the next background task; the done callback discards it.\<close>

definition run_next_task :: "exec_env \<Rightarrow> exec_world \<Rightarrow> exec_world" where
  "run_next_task env w =
     (case ew_tasks w of
        [] \<Rightarrow> w
      | (ref, ra) # ts \<Rightarrow> snd (run_background env ref ra (w\<lparr>ew_tasks := ts\<rparr>)))"

text \<open>\<open>shutdown\<close>: a task that is cancelled before it has started never runs.\<close>

definition shutdown :: "exec_world \<Rightarrow> exec_world" where
  "shutdown w = w\<lparr>ew_tasks := []\<rparr>"

definition cancel_invocation :: "string \<Rightarrow> exec_world \<Rightarrow> bool \<times> exec_world" where
  "cancel_invocation i w = (case reg_cancel i (ew_cancel w) of (b, g) \<Rightarrow> (b, w\<lparr>ew_cancel := g\<rparr>))"

definition get_invocation :: "uuid \<Rightarrow> string \<Rightarrow> (exec_world, exc, invocation_row option) pm" where
  "get_invocation i org =
     (case uuid_parse org of
        None \<Rightarrow> pm_raise uuid_error
      | Some o' \<Rightarrow> db_query (\<lambda>d. first_row (\<lambda>r. iv_id r = i \<and> iv_org r = o') (db_invocations d)))"

section \<open>What the pieces touch\<close>

text \<open>The database with its pending faults, the registry, the slots and the tasks.\<close>

definition core :: "exec_world \<Rightarrow> database \<times> exc option list \<times> cancel_reg \<times> nat \<times> (invocation_ref \<times> run_args) list" where
  "core w = (ew_db w, ew_faults w, ew_cancel w, ew_running w, ew_tasks w)"

lemma core_frame:
  fixes w w' :: "exec_world"
  shows "rest w' = rest w \<Longrightarrow> core w' = core w \<and> ew_routed w' = ew_routed w
    \<and> filter (ev_final \<circ> snd) (bw_events w') = filter (ev_final \<circ> snd) (bw_events w)"
  by (cases w; cases w') (simp add: core_def rest_def)

lemma routed_keeps: "keeps core (routed env ref ra)"
  unfolding keeps_def
proof
  fix w :: "exec_world"
  let ?v = "w\<lparr>ew_routed := ew_routed w @ [rf_id ref]\<rparr>"
  have "rest (snd (route (xe_router env) (ctx_of ref ra) ?v)) = rest ?v"
    by (rule keeps_at [OF frame_route])
  then have "core (snd (route (xe_router env) (ctx_of ref ra) ?v)) = core ?v" using core_frame by blast
  then show "core (snd (routed env ref ra w)) = core w" by (simp add: routed_def core_def)
qed

lemma routed_count: "ew_routed (snd (routed env ref ra w)) = ew_routed w @ [rf_id ref]"
proof -
  let ?v = "w\<lparr>ew_routed := ew_routed w @ [rf_id ref]\<rparr>"
  have "rest (snd (route (xe_router env) (ctx_of ref ra) ?v)) = rest ?v"
    by (rule keeps_at [OF frame_route])
  then have "ew_routed (snd (route (xe_router env) (ctx_of ref ra) ?v)) = ew_routed ?v" using core_frame by blast
  then show ?thesis by (simp add: routed_def)
qed

lemma emit_keeps [keeps_intros]: "keeps core (emit ref e)" "keeps ew_routed (emit ref e)"
  by (simp_all add: emit_def keeps_def pm_modify_def emit_event_def core_def)

lemma sleep_keeps [keeps_intros]: "keeps core (backoff_sleep env k)" "keeps ew_routed (backoff_sleep env k)"
proof -
  have "rest (snd (backoff_sleep env k w)) = rest w" for w :: "exec_world"
    unfolding backoff_sleep_def Let_def by (rule frame_of_more) simp
  then have "core (snd (backoff_sleep env k w)) = core w \<and> ew_routed (snd (backoff_sleep env k w)) = ew_routed w"
    for w :: "exec_world" using core_frame by blast
  then show "keeps core (backoff_sleep env k :: (exec_world, exc, unit) pm)"
    "keeps ew_routed (backoff_sleep env k :: (exec_world, exc, unit) pm)"
    by (simp_all add: keeps_def)
qed

lemma db_op_keeps [keeps_intros]:
  "keeps ew_routed (db_op f)" "keeps ew_running (db_op f)" "keeps ew_cancel (db_op f)" "keeps ew_tasks (db_op f)"
  "keeps ew_routed (db_query g)" "keeps ew_running (db_query g)" "keeps ew_cancel (db_query g)" "keeps ew_tasks (db_query g)"
  by (auto simp: keeps_def db_op_def db_query_def split: list.split option.split)

lemma mark_keeps [keeps_intros]:
  assumes "\<And>f. keeps g (db_op f)"
  shows "keeps g (mark_running ref)" "keeps g (mark_done ref r)" "keeps g (mark_failed ref m)" "keeps g (mark_cancelled ref)"
  using assms by (simp_all add: keeps_def mark_running_def mark_done_def mark_failed_def mark_cancelled_def update_invocation_def)

lemma core_keeps: "keeps core m \<Longrightarrow> keeps ew_running m \<and> keeps ew_cancel m \<and> keeps ew_tasks m \<and> keeps ew_db m \<and> keeps ew_faults m"
  unfolding keeps_def core_def by blast

section \<open>Attempts are bounded\<close>

lemma attempt_body_routes: "grows (\<lambda>w. length (ew_routed w)) 1 (attempt_body env ref ra k)"
proof -
  have r: "grows (\<lambda>w. length (ew_routed w)) 1 (routed env ref ra)"
    by (simp add: grows_def routed_count)
  have z: "grows (\<lambda>w. length (ew_routed w)) 0 m" if "keeps ew_routed m" for m :: "(exec_world, exc, 'b) pm"
    using that by (simp add: keeps_def grows_def)
  have "grows (\<lambda>w. length (ew_routed w)) (0 + (1 + 0)) (attempt_body env ref ra k)"
    unfolding attempt_body_def
    by (intro grows_then grows_bind r z keeps_intros)
  then show ?thesis by simp
qed

lemma one_attempt_routes: "grows (\<lambda>w. length (ew_routed w)) 1 (one_attempt env ref ra ev k)"
proof -
  have z: "grows (\<lambda>w. length (ew_routed w)) 0 m" if "keeps ew_routed m" for m :: "(exec_world, exc, 'b) pm"
    using that by (simp add: keeps_def grows_def)
  have fc: "keeps ew_routed (finish_cancelled ref)"
    unfolding finish_cancelled_def by (intro keeps_intros)
  have hf: "keeps ew_routed (handle_failure env ref ra k e)" for e
    unfolding handle_failure_def Let_def by (intro keeps_intros fc)
  have b: "grows (\<lambda>w. length (ew_routed w)) ((1 + 0) + 0)
      (pm_catch (pm_bind (attempt_body env ref ra k) (\<lambda>r. pm_return (Return r))) (handle_failure env ref ra k))"
    by (intro grows_catch grows_bind attempt_body_routes z keeps_intros hf)
  have c: "grows (\<lambda>w. length (ew_routed w)) 1 (pm_bind (finish_cancelled ref) (\<lambda>r. pm_return (Return r)))"
    by (rule grows_weaken [OF z]) (intro keeps_intros fc, simp)
  have x: "ew_routed (external_cancel env ref k w) = ew_routed w" for w :: "exec_world"
    by (simp add: external_cancel_def)
  show "grows (\<lambda>w. length (ew_routed w)) 1 (one_attempt env ref ra ev k :: (exec_world, exc, attempt_end) pm)"
    using b c by (auto simp: grows_def one_attempt_def Let_def) (metis x)+
qed

lemma attempts_routes: "grows (\<lambda>w. length (ew_routed w)) (Suc n) (attempts env ref ra ev n)"
proof (induction n)
  case 0
  show ?case using one_attempt_routes by simp
next
  case (Suc n)
  have "grows (\<lambda>w. length (ew_routed w)) (Suc n)
      (case x of NextAttempt e \<Rightarrow> attempts env ref ra ev n | _ \<Rightarrow> pm_return x)" for x
    using Suc by (cases x) (auto intro: grows_weaken [OF grows_pure(1)])
  from grows_bind [OF one_attempt_routes this] show ?case by simp
qed

lemma run_in_slot_routes: "grows (\<lambda>w. length (ew_routed w)) 3 (run_in_slot env ref ra ev)"
proof -
  have z: "grows (\<lambda>w. length (ew_routed w)) 0 m" if "keeps ew_routed m" for m :: "(exec_world, exc, 'b) pm"
    using that by (simp add: keeps_def grows_def)
  have ff: "keeps ew_routed (finish_failed ref e)" for e
    unfolding finish_failed_def by (intro keeps_intros)
  have "keeps ew_routed (case x of Return r \<Rightarrow> pm_return r | NextAttempt e \<Rightarrow> finish_failed ref e | Break e \<Rightarrow> finish_failed ref e)" for x
    by (cases x) (simp_all add: ff keeps_pure)
  then have "grows (\<lambda>w. length (ew_routed w)) (0 + (0 + (Suc MAX_RETRIES + 0))) (run_in_slot env ref ra ev)"
    unfolding run_in_slot_def by (intro grows_then grows_bind attempts_routes z keeps_intros)
  then show ?thesis by (simp add: MAX_RETRIES_def)
qed

lemma run_invocation_routes: "length (ew_routed (snd (run_invocation env ref ra ev w))) \<le> length (ew_routed w) + 3"
  using run_in_slot_routes [of env ref ra ev]
  by (simp add: grows_def run_invocation_def pm_finally_def case_prod_beta)
    (metis exec_world.select_convs(6) exec_world.surjective exec_world.update_convs(4))

lemma create_keeps:
  assumes "\<And>f. keeps g (db_op f)"
  shows "keeps g (create_invocation env q ty)"
proof -
  have "g (snd (pm_then (db_op f) (pm_return i) w)) = g w" for f w and i :: uuid
    by (rule keeps_at [OF keeps_then [OF assms keeps_pure(1)]])
  then show ?thesis
    by (simp add: keeps_def create_invocation_def Let_def split: option.split)
qed

text \<open>C3.  No invocation reaches its backend more than three times: whatever the tool, the network, the
database and concurrent cancellations do, one synchronous invocation calls the router at most
\<open>MAX_RETRIES + 1\<close> times.\<close>

theorem invoke_attempts_bounded:
  "length (ew_routed (snd (invoke env q w))) \<le> length (ew_routed w) + (MAX_RETRIES + 1)"
proof -
  have z: "grows (\<lambda>w. length (ew_routed w)) 0 m" if "keeps ew_routed m" for m :: "(exec_world, exc, 'b) pm"
    using that by (simp add: keeps_def grows_def)
  have r: "keeps ew_routed (resolve_tool_routing t)" for t
    by (cases t) (simp_all add: resolve_tool_routing_def Let_def keeps_pure db_op_keeps)
  have c: "keeps ew_routed (create_invocation env q ty)" for ty
    by (rule create_keeps) (rule db_op_keeps)
  have "grows (\<lambda>w. length (ew_routed w)) 3 (with_cancel_event ref (run_invocation env ref ra))" for ref ra
    unfolding grows_def
  proof
    fix w :: exec_world
    obtain ev g where "reg_register (inv_str ref) (ew_cancel w) = (ev, g)" by force
    then show "length (ew_routed (snd (with_cancel_event ref (run_invocation env ref ra) w))) \<le> length (ew_routed w) + 3"
      using run_invocation_routes [of env ref ra ev "w\<lparr>ew_cancel := g\<rparr>"]
      by (simp add: with_cancel_event_def pm_finally_def case_prod_beta)
  qed
  then have "grows (\<lambda>w. length (ew_routed w)) (0 + (0 + 3)) (invoke env q)"
    unfolding invoke_def by (intro grows_bind z r c)
  then show ?thesis by (simp add: grows_def MAX_RETRIES_def)
qed

section \<open>Resources are released\<close>

lemma attempts_running: "keeps ew_running (attempts env ref ra ev n)"
proof -
  have rt: "keeps ew_running (routed env ref ra)" using core_keeps [OF routed_keeps] by simp
  have sl: "keeps ew_running (backoff_sleep env k)" for k using core_keeps [OF sleep_keeps(1)] by simp
  have em: "keeps ew_running (emit ref e)" for e using core_keeps [OF emit_keeps(1)] by simp
  have mk: "keeps ew_running (mark_done ref r)" "keeps ew_running (mark_cancelled ref)" for r
    by (rule mark_keeps, rule db_op_keeps)+
  have ab: "keeps ew_running (attempt_body env ref ra k)" for k
    unfolding attempt_body_def by (intro keeps_intros rt em mk)
  have fc: "keeps ew_running (finish_cancelled ref)"
    unfolding finish_cancelled_def by (intro keeps_intros mk)
  have hf: "keeps ew_running (handle_failure env ref ra k e)" for k e
    unfolding handle_failure_def Let_def by (intro keeps_bind keeps_then keeps_if keeps_pure em sl fc)
  have x: "ew_running (external_cancel env ref k w) = ew_running w" for k w
    by (simp add: external_cancel_def)
  have "keeps ew_running (pm_catch (pm_bind (attempt_body env ref ra k) (\<lambda>r. pm_return (Return r))) (handle_failure env ref ra k))"
    "keeps ew_running (pm_bind (finish_cancelled ref) (\<lambda>r. pm_return (Return r)))" for k
    by (intro keeps_catch keeps_bind keeps_pure ab hf fc)+
  then have oa: "keeps ew_running (one_attempt env ref ra ev k)" for k
    by (simp add: keeps_def one_attempt_def Let_def x)
  show ?thesis
  proof (induction n)
    case (Suc n)
    have "keeps ew_running (case x of NextAttempt e \<Rightarrow> attempts env ref ra ev n | _ \<Rightarrow> pm_return x)" for x
      using Suc by (cases x) (simp_all add: keeps_pure)
    then show ?case by (simp add: keeps_bind oa)
  qed (simp add: oa)
qed

lemma run_in_slot_running: "keeps ew_running (run_in_slot env ref ra ev)"
proof -
  have em: "keeps ew_running (emit ref e)" for e using core_keeps [OF emit_keeps(1)] by simp
  have mk: "keeps ew_running (mark_running ref)" "keeps ew_running (mark_failed ref m)" for m
    by (rule mark_keeps, rule db_op_keeps)+
  have ff: "keeps ew_running (finish_failed ref e)" for e
    unfolding finish_failed_def by (intro keeps_then keeps_pure mk em)
  have "keeps ew_running (case x of Return r \<Rightarrow> pm_return r | NextAttempt e \<Rightarrow> finish_failed ref e | Break e \<Rightarrow> finish_failed ref e)" for x
    by (cases x) (simp_all add: ff keeps_pure)
  then show ?thesis
    unfolding run_in_slot_def by (intro keeps_then keeps_bind attempts_running mk em)
qed

lemma run_invocation_running: "keeps ew_running (run_invocation env ref ra ev)"
  using run_in_slot_running [of env ref ra ev]
  by (simp add: keeps_def run_invocation_def pm_finally_def case_prod_beta)

lemma with_cancel_event_releases:
  assumes "\<And>ev. keeps ew_running (body ev)"
  shows "ew_running (snd (with_cancel_event ref body w)) = ew_running w
    \<and> dict_get (events (ew_cancel (snd (with_cancel_event ref body w)))) (inv_str ref) = None"
  using assms by (simp add: with_cancel_event_def pm_finally_def case_prod_beta keeps_def reg_unregister_def)

text \<open>C4.  Nothing leaks: however a run ends, by a result, by an exception of the database or by a
cancellation, the slot of the semaphore it held is given back and the invocation is no longer in the
cancellation registry; this holds for synchronous and for background execution.\<close>

theorem run_releases_resources:
  "ew_running (snd (with_cancel_event ref (run_invocation env ref ra) w)) = ew_running w
   \<and> dict_get (events (ew_cancel (snd (with_cancel_event ref (run_invocation env ref ra) w)))) (inv_str ref) = None
   \<and> ew_running (snd (run_background env ref ra w)) = ew_running w
   \<and> dict_get (events (ew_cancel (snd (run_background env ref ra w)))) (inv_str ref) = None"
proof -
  have bg: "keeps ew_running (pm_catch (pm_bind (run_invocation env ref ra ev) (\<lambda>_. pm_return ()))
      (\<lambda>e. if is_exception e then pm_return () else pm_raise e))" for ev
    by (intro keeps_catch keeps_bind keeps_if keeps_pure run_invocation_running)
  note k = with_cancel_event_releases
  show ?thesis
    unfolding run_background_def
    by (simp add: k [of "run_invocation env ref ra", OF run_invocation_running] k [OF bg])
qed

end
