(* ===== verification/Execution_Outcome.thy ===== *)
theory Execution_Outcome
  imports Execution_Service
begin

text \<open>
  What an invocation ends with: the state of its row, the value it returns and the final event it
  publishes belong together, errors that cannot go away are not retried, and a cancelled invocation
  does not run.  The statements about outcomes are for a database that does not fail; the bounds and
  the release of resources, in the theory of the service, hold with any faults.
\<close>

section \<open>The row of the running invocation\<close>

definition finals :: "exec_world \<Rightarrow> (string \<times> event) list" where
  "finals w = filter (ev_final \<circ> snd) (bw_events w)"

text \<open>The row of the invocation is the last of the table, and the database works.\<close>

definition own :: "invocation_row list \<Rightarrow> invocation_ref \<Rightarrow> (string \<times> event) list \<Rightarrow> exec_world \<Rightarrow> invocation_row \<Rightarrow> bool" where
  "own old ref fin w row \<longleftrightarrow> db_invocations (ew_db w) = old @ [row] \<and> iv_id row = rf_id ref
     \<and> (\<forall>r\<in>set old. iv_id r \<noteq> rf_id ref) \<and> ew_faults w = [] \<and> finals w = fin"

lemma own_rest:
  assumes "own old ref fin w row" "core w' = core w" "finals w' = finals w"
  shows "own old ref fin w' row"
  using assms by (simp add: own_def core_def)

lemma update_last:
  "\<forall>r\<in>set old. iv_id r \<noteq> i \<Longrightarrow> iv_id row = i \<Longrightarrow> update_rows (\<lambda>r. iv_id r = i) f (old @ [row]) = old @ [f row]"
  by (simp add: update_rows_def map_idI)

lemma update_own:
  assumes "own old ref fin w row" "iv_id (f row) = iv_id row"
  shows "\<exists>w'. update_invocation (rf_id ref) f w = (Inr (), w') \<and> own old ref fin w' (f row) \<and> ew_cancel w' = ew_cancel w
    \<and> ew_routed w' = ew_routed w \<and> net_world.truncate w' = net_world.truncate w"
  using assms update_last [of old "rf_id ref" row f]
  by (simp add: own_def update_invocation_def db_op_def finals_def net_world.truncate_def)

lemma routed_own:
  assumes "own old ref fin w row"
  shows "own old ref fin (snd (routed env ref ra w)) row"
proof (rule own_rest [OF assms])
  let ?v = "w\<lparr>ew_routed := ew_routed w @ [rf_id ref]\<rparr>"
  have "rest (snd (route (xe_router env) (ctx_of ref ra) ?v)) = rest ?v" by (rule keeps_at [OF frame_route])
  then show "core (snd (routed env ref ra w)) = core w" "finals (snd (routed env ref ra w)) = finals w"
    using core_frame [of "snd (route (xe_router env) (ctx_of ref ra) ?v)" ?v]
    by (simp_all add: routed_def finals_def core_def)
qed

lemma emit_own:
  "own old ref fin w row \<Longrightarrow> own old ref (fin @ (if ev_final e then [(inv_str ref, e)] else [])) (emit_event (inv_str ref) e w) row"
  by (simp add: own_def emit_event_def finals_def)

lemma log_own [simp]: "own old ref fin w row \<Longrightarrow> own old ref fin (emit_event (inv_str ref) (log_event l m) w) row"
  using emit_own [of old ref fin w row "log_event l m"] by (simp add: log_event_def)

lemma sleep_own: "own old ref fin w row \<Longrightarrow> own old ref fin (snd (backoff_sleep env k w)) row"
proof (rule own_rest)
  have "rest (snd (backoff_sleep env k w)) = rest w"
    unfolding backoff_sleep_def Let_def by (rule frame_of_more) simp
  then show "core (snd (backoff_sleep env k w)) = core w" "finals (snd (backoff_sleep env k w)) = finals w"
    using core_frame [of "snd (backoff_sleep env k w)" w] by (simp_all add: finals_def)
qed

section \<open>How an invocation ends\<close>

text \<open>The three ways to end, each with its row, its result and its final event.\<close>

definition ended :: "invocation_row list \<Rightarrow> invocation_ref \<Rightarrow> (string \<times> event) list \<Rightarrow> exec_world \<Rightarrow> invocation_row \<Rightarrow> json \<Rightarrow> bool" where
  "ended old ref fin w row r \<longleftrightarrow> iv_completed row \<noteq> None
     \<and> (iv_status row = DONE \<and> iv_output row = Some r \<and> own old ref (fin @ [(inv_str ref, result_event r)]) w row
        \<or> iv_status row = CANCELLED \<and> r = cancelled_result \<and> own old ref fin w row
        \<or> (\<exists>m. iv_status row = FAILED \<and> iv_error row = Some m \<and> r = tool_error m []
             \<and> own old ref (fin @ [(inv_str ref, error_event m)]) w row))"

lemma attempt_body_own:
  assumes "own old ref fin w row"
  shows "(\<exists>e w'. attempt_body env ref ra k w = (Inl e, w') \<and> own old ref fin w' row)
    \<or> (\<exists>r w' row'. attempt_body env ref ra k w = (Inr r, w') \<and> ended old ref fin w' row' r)"
proof -
  define w0 where "w0 = (if 0 < k then emit_event (inv_str ref) (log_event ''warn''
      (''Retry '' @ nat_str k @ ''/'' @ nat_str MAX_RETRIES)) w else w)"
  have o0: "own old ref fin w0 row" using assms by (simp add: w0_def)
  obtain r1 w1 where r1: "routed env ref ra w0 = (r1, w1)" by force
  have o1: "own old ref fin w1 row" using routed_own [OF o0, of env ra] r1 by simp
  show ?thesis
  proof (cases r1)
    case (Inl e)
    then show ?thesis using r1 o1 by (auto simp: attempt_body_def pm_defs emit_def w0_def)
  next
    case (Inr r)
    let ?f = "\<lambda>row. row\<lparr>iv_status := DONE, iv_output := Some r, iv_completed := Some (nw_now w1)\<rparr>"
    obtain w2 where w2: "update_invocation (rf_id ref) ?f w1 = (Inr (), w2)" and o2: "own old ref fin w2 (?f row)"
      using update_own [OF o1, of ?f] by auto
    define w3 where "w3 = emit_event (inv_str ref) (log_event ''info'' ''Tool completed successfully'')
      (emit_event (inv_str ref) (result_event r) w2)"
    have "own old ref (fin @ [(inv_str ref, result_event r)]) w3 (?f row)"
      using emit_own [OF o2, of "result_event r"] by (simp add: w3_def result_event_def)
    then have "ended old ref fin w3 (?f row) r" by (simp add: ended_def)
    moreover have "attempt_body env ref ra k w = (Inr r, w3)"
      using r1 Inr w2 by (auto simp: attempt_body_def pm_defs emit_def w0_def mark_done_def w3_def)
    ultimately show ?thesis by blast
  qed
qed

lemma finish_cancelled_own:
  assumes "own old ref fin w row"
  shows "\<exists>w' row'. finish_cancelled ref w = (Inr cancelled_result, w') \<and> ended old ref fin w' row' cancelled_result
    \<and> iv_status row' = CANCELLED \<and> ew_routed w' = ew_routed w"
proof -
  let ?f = "\<lambda>row. row\<lparr>iv_status := CANCELLED, iv_completed := Some (nw_now w)\<rparr>"
  obtain w' where "update_invocation (rf_id ref) ?f w = (Inr (), w')" "own old ref fin w' (?f row)" "ew_routed w' = ew_routed w"
    using update_own [OF assms, of ?f] by auto
  then show ?thesis
    by (intro exI [of _ w'] exI [of _ "?f row"]) (simp add: finish_cancelled_def mark_cancelled_def pm_defs ended_def)
qed

lemma finish_failed_own:
  assumes "own old ref fin w row"
  shows "\<exists>w' row'. finish_failed ref e w = (Inr (tool_error (exc_msg e) []), w') \<and> ended old ref fin w' row' (tool_error (exc_msg e) [])
    \<and> iv_status row' = FAILED \<and> iv_error row' = Some (exc_msg e) \<and> ew_routed w' = ew_routed w"
proof -
  let ?f = "\<lambda>row. row\<lparr>iv_status := FAILED, iv_error := Some (exc_msg e), iv_completed := Some (nw_now w)\<rparr>"
  obtain w1 where w1: "update_invocation (rf_id ref) ?f w = (Inr (), w1)" "own old ref fin w1 (?f row)" "ew_routed w1 = ew_routed w"
    using update_own [OF assms, of ?f] by auto
  let ?w = "emit_event (inv_str ref) (error_event (exc_msg e)) w1"
  have "own old ref (fin @ [(inv_str ref, error_event (exc_msg e))]) ?w (?f row)"
    using emit_own [OF w1(2), of "error_event (exc_msg e)"] by (simp add: error_event_def)
  moreover have "finish_failed ref e w = (Inr (tool_error (exc_msg e) []), ?w)"
    using w1(1) by (simp add: finish_failed_def mark_failed_def pm_defs emit_def)
  ultimately show ?thesis
    using w1(3) by (intro exI [of _ ?w] exI [of _ "?f row"]) (simp add: ended_def emit_event_def)
qed

text \<open>What holds after an attempt: the invocation has ended, or its row is untouched.\<close>

definition attempt_post ::
  "invocation_row list \<Rightarrow> invocation_ref \<Rightarrow> (string \<times> event) list \<Rightarrow> invocation_row \<Rightarrow> (exc + attempt_end) \<times> exec_world \<Rightarrow> bool" where
  "attempt_post old ref fin row res =
     (case fst res of
        Inl _ \<Rightarrow> own old ref fin (snd res) row
      | Inr (Return r) \<Rightarrow> \<exists>row'. ended old ref fin (snd res) row' r
      | Inr _ \<Rightarrow> own old ref fin (snd res) row)"

lemma sleep_post:
  assumes "own old ref fin w row"
  shows "attempt_post old ref fin row (pm_then (backoff_sleep env k) (pm_return (NextAttempt e)) w)"
  using sleep_own [OF assms, of env k]
  by (auto simp: attempt_post_def pm_then_def pm_return_def case_prod_beta split: sum.split)

lemma handle_failure_post:
  assumes "own old ref fin w row"
  shows "attempt_post old ref fin row (handle_failure env ref ra k e w)"
proof -
  have l: "own old ref fin (emit_event (inv_str ref) (log_event ''error'' m) w) row" for m
    using assms by simp
  obtain wc rowc where c: "finish_cancelled ref w = (Inr cancelled_result, wc)" "ended old ref fin wc rowc cancelled_result"
    using finish_cancelled_own [OF assms] by blast
  have "attempt_post old ref fin row (pm_bind (finish_cancelled ref) (\<lambda>r. pm_return (Return r)) w)"
    using c by (auto simp: attempt_post_def pm_bind_def pm_return_def)
  moreover have "attempt_post old ref fin row (pm_return (Break x) (emit_event (inv_str ref) (log_event ''error'' m) w))" for x m
    using l by (simp add: attempt_post_def pm_return_def)
  moreover have "attempt_post old ref fin row (pm_raise e w)" using assms by (simp add: attempt_post_def pm_raise_def)
  ultimately show ?thesis
    using sleep_post [OF l] unfolding handle_failure_def Let_def emit_def
    by (simp add: pm_then_def [where m = "pm_modify _"] pm_modify_def)
qed

lemma external_own: "own old ref fin w row \<Longrightarrow> own old ref fin (external_cancel env ref k w) row"
  by (simp add: external_cancel_def own_def finals_def)

lemma one_attempt_post:
  assumes "own old ref fin w row"
  shows "attempt_post old ref fin row (one_attempt env ref ra ev k w)"
proof -
  let ?w = "external_cancel env ref k w"
  have o: "own old ref fin ?w row" by (rule external_own [OF assms])
  obtain wc rowc where c: "finish_cancelled ref ?w = (Inr cancelled_result, wc)" "ended old ref fin wc rowc cancelled_result"
    using finish_cancelled_own [OF o] by blast
  have 1: "attempt_post old ref fin row (pm_bind (finish_cancelled ref) (\<lambda>r. pm_return (Return r)) ?w)"
    using c by (auto simp: attempt_post_def pm_bind_def pm_return_def)
  have 2: "attempt_post old ref fin row (pm_catch (pm_bind (attempt_body env ref ra k) (\<lambda>r. pm_return (Return r)))
      (handle_failure env ref ra k) ?w)"
    using attempt_body_own [OF o, of env ra k] handle_failure_post
    by (auto simp: pm_catch_def pm_bind_def pm_return_def) (auto simp: attempt_post_def)
  show ?thesis unfolding one_attempt_def Let_def using 1 2 by simp
qed

lemma attempts_post:
  "own old ref fin w row \<Longrightarrow> attempt_post old ref fin row (attempts env ref ra ev n w)"
proof (induction n arbitrary: w)
  case (Suc n)
  obtain r w' where a: "one_attempt env ref ra ev (MAX_RETRIES - Suc n) w = (r, w')" by force
  have p: "attempt_post old ref fin row (r, w')" using one_attempt_post [OF Suc.prems] a by metis
  show ?case
  proof (cases r)
    case (Inl x)
    then show ?thesis using a p by (simp add: pm_bind_def attempt_post_def)
  next
    case (Inr x)
    then show ?thesis
      using a p Suc.IH [of w'] by (cases x) (simp_all add: pm_bind_def pm_return_def attempt_post_def)
  qed
qed (simp add: one_attempt_post)

lemma run_invocation_outcome:
  assumes "own old ref fin w row" and "run_invocation env ref ra ev w = (res, w')"
  shows "case res of Inr r \<Rightarrow> \<exists>row'. ended old ref fin w' row' r | Inl _ \<Rightarrow> \<exists>row'. iv_status row' = RUNNING \<and> own old ref fin w' row'"
proof -
  let ?w0 = "w\<lparr>ew_running := Suc (ew_running w)\<rparr>"
  let ?f = "\<lambda>row. row\<lparr>iv_status := RUNNING, iv_started := nw_now ?w0\<rparr>"
  have o0: "own old ref fin ?w0 row" using assms(1) by (simp add: own_def finals_def)
  obtain w1 where w1: "update_invocation (rf_id ref) ?f ?w0 = (Inr (), w1)" "own old ref fin w1 (?f row)"
    using update_own [OF o0, of ?f] by auto
  let ?w2 = "emit_event (inv_str ref) (log_event ''info'' (''Starting tool: '' @ rf_tool_name ref)) w1"
  have o2: "own old ref fin ?w2 (?f row)" using w1(2) by simp
  obtain x w3 where x: "attempts env ref ra ev MAX_RETRIES ?w2 = (x, w3)" by force
  have p: "attempt_post old ref fin (?f row) (x, w3)" using attempts_post [OF o2, of env ra ev MAX_RETRIES] x by simp
  obtain w4 where w4: "run_in_slot env ref ra ev ?w0 = (res, w4)" "w' = w4\<lparr>ew_running := ew_running w4 - 1\<rparr>"
    using assms(2) by (auto simp: run_invocation_def pm_finally_def split: prod.splits)
  have "case res of Inr r \<Rightarrow> \<exists>row'. ended old ref fin w4 row' r | Inl _ \<Rightarrow> own old ref fin w4 (?f row)"
  proof (cases x)
    case (Inl e)
    then show ?thesis using w4(1) x w1(1) p by (auto simp: run_in_slot_def pm_defs emit_def mark_running_def attempt_post_def)
  next
    case (Inr y)
    have f: "case res of Inr r \<Rightarrow> \<exists>row'. ended old ref fin w4 row' r | Inl _ \<Rightarrow> own old ref fin w4 (?f row)" if "finish_failed ref e w3 = (res, w4)" "own old ref fin w3 (?f row)" for e
      using finish_failed_own [OF that(2), of e] that(1) by auto
    show ?thesis
      using w4(1) x w1(1) Inr p f
      by (cases y) (auto simp: run_in_slot_def pm_defs emit_def mark_running_def attempt_post_def)
  qed
  moreover have "own old ref fin w' r = own old ref fin w4 r" "ended old ref fin w' r j = ended old ref fin w4 r j" for r j fin
    using w4(2) by (simp_all add: ended_def own_def finals_def)
  ultimately show ?thesis by (cases res) (auto intro!: exI [of _ "?f row"])
qed

lemma run_invocation_own:
  assumes "own old ref fin w row" and "run_invocation env ref ra ev w = (Inr r, w')"
  shows "\<exists>row'. ended old ref fin w' row' r"
  using run_invocation_outcome [OF assms] by simp

text \<open>C1.  Row, result and final event agree.  On a working database, a synchronous invocation that returns
has added exactly one row and left every other as it was; the row is complete and either \<open>DONE\<close> with the
returned result as its output, one final \<open>result\<close> event with that result published, or \<open>FAILED\<close> with
the message of the returned error result, one final \<open>error\<close> event with that message published, or
\<open>CANCELLED\<close>, in which case no final event is published.  It is never left \<open>PENDING\<close>, \<open>RUNNING\<close> or
\<open>TIMEOUT\<close>.\<close>

theorem invoke_outcome:
  assumes "ew_faults w = []" and "\<forall>x\<in>set (db_invocations (ew_db w)). iv_id x \<noteq> i"
    and "i = xe_new_id env (length (db_invocations (ew_db w)))" and "invoke env q w = (Inr r, w')"
  shows "\<exists>row fin. db_invocations (ew_db w') = db_invocations (ew_db w) @ [row] \<and> iv_id row = i \<and> iv_completed row \<noteq> None
    \<and> finals w' = finals w @ fin
    \<and> (iv_status row = DONE \<and> iv_output row = Some r \<and> fin = [(uuid_str i, result_event r)]
       \<or> iv_status row = CANCELLED \<and> r = cancelled_result \<and> fin = []
       \<or> (\<exists>m. iv_status row = FAILED \<and> iv_error row = Some m \<and> r = tool_error m [] \<and> fin = [(uuid_str i, error_event m)]))"
proof -
  obtain routing where ro: "resolve_tool_routing (iq_tool_id q) w = (Inr routing, w)"
    using assms(1) by (cases "iq_tool_id q") (auto simp: resolve_tool_routing_def Let_def pm_return_def db_query_def)
  obtain j w1 where cr: "create_invocation env q (ri_server_type routing) w = (Inr j, w1)"
    and run: "with_cancel_event (ref_of q j) (run_invocation env (ref_of q j) (run_args_of env q routing)) w1 = (Inr r, w')"
    using assms(4) ro by (auto simp: invoke_def pm_bind_def split: prod.splits sum.splits)
  obtain row where row: "j = i" "db_invocations (ew_db w1) = db_invocations (ew_db w) @ [row]" "iv_id row = i" "ew_faults w1 = []"
    "bw_events w1 = bw_events w"
    using cr assms(1,3)
    by (auto simp: create_invocation_def Let_def pm_then_def pm_return_def db_op_def split: option.splits if_splits)
  obtain ev g where rg: "reg_register (inv_str (ref_of q j)) (ew_cancel w1) = (ev, g)" by force
  have o: "own (db_invocations (ew_db w)) (ref_of q i) (finals w) (w1\<lparr>ew_cancel := g\<rparr>) row"
    using row assms(2) by (simp add: own_def ref_of_def finals_def)
  obtain w2 where w2: "run_invocation env (ref_of q i) (run_args_of env q routing) ev (w1\<lparr>ew_cancel := g\<rparr>) = (Inr r, w2)"
    "w' = w2\<lparr>ew_cancel := reg_unregister (inv_str (ref_of q i)) (ew_cancel w2)\<rparr>"
    using run rg row(1) by (auto simp: with_cancel_event_def pm_finally_def split: prod.splits)
  obtain row' where e: "ended (db_invocations (ew_db w)) (ref_of q i) (finals w) w2 row' r"
    using run_invocation_own [OF o w2(1)] by blast
  have "inv_str (ref_of q i) = uuid_str i" by (simp add: inv_str_def ref_of_def)
  then show ?thesis
    using e w2(2) by (intro exI [of _ row']) (auto simp: ended_def own_def finals_def ref_of_def)
qed

section \<open>Retries\<close>

text \<open>A backend that fails every call with the exception \<open>e\<close>, when no caller has a deadline.\<close>

definition route_fails :: "exec_env \<Rightarrow> route_ctx \<Rightarrow> exc \<Rightarrow> bool" where
  "route_fails env ctx e \<longleftrightarrow> (\<forall>w :: exec_world. nw_deadlines w = [] \<longrightarrow>
     fst (route (xe_router env) ctx w) = Inl e \<and> nw_deadlines (snd (route (xe_router env) ctx w)) = [])"

definition undisturbed :: "exec_env \<Rightarrow> bool" where
  "undisturbed env \<longleftrightarrow> (\<forall>k. \<not> xe_cancel env k \<and> xe_sleep env k = Inr ())"

definition ready :: "invocation_row list \<Rightarrow> invocation_ref \<Rightarrow> (string \<times> event) list \<Rightarrow> nat \<Rightarrow> invocation_row \<Rightarrow> exec_world \<Rightarrow> bool" where
  "ready old ref fin ev row w \<longleftrightarrow> own old ref fin w row \<and> nw_deadlines w = [] \<and> \<not> event_is_set ev (ew_cancel w)"

definition reported :: "exec_env \<Rightarrow> invocation_ref \<Rightarrow> run_args \<Rightarrow> exc \<Rightarrow> exc" where
  "reported env ref ra e = (if is_timeout_exc e then timeout_error env ref ra else e)"

lemma timeout_is_transient: "is_timeout_exc e \<Longrightarrow> is_transient e"
  by (simp add: is_timeout_iff is_transient_iff)

lemma sleep_runs:
  assumes "undisturbed env" "nw_deadlines w = []"
  shows "\<exists>w'. backoff_sleep env k w = (Inr (), w') \<and> nw_deadlines w' = [] \<and> core w' = core w \<and> ew_routed w' = ew_routed w"
proof -
  obtain r w' where s: "backoff_sleep env k w = (r, w')" by force
  have "core w' = core w" "ew_routed w' = ew_routed w"
    using keeps_run [OF sleep_keeps(1) s] keeps_run [OF sleep_keeps(2) s] by auto
  with s assms show ?thesis by (auto simp: backoff_sleep_def net_op_def Let_def undisturbed_def)
qed

lemma handle_failure_runs:
  assumes "undisturbed env" "ready old ref fin ev row w" "is_exception e"
  shows "\<exists>w'. handle_failure env ref ra k e w =
      (Inr (if MAX_RETRIES \<le> k \<or> \<not> is_transient e then Break (reported env ref ra e) else NextAttempt (reported env ref ra e)), w')
    \<and> ready old ref fin ev row w' \<and> ew_routed w' = ew_routed w"
proof -
  let ?w = "emit_event (inv_str ref) (log_event ''error'' (exc_msg (reported env ref ra e))) w"
  have rw: "ready old ref fin ev row ?w" "ew_routed ?w = ew_routed w" "nw_deadlines ?w = []"
    using assms(2) by (auto simp: ready_def emit_event_def own_def finals_def log_event_def)
  obtain w' where s: "backoff_sleep env k ?w = (Inr (), w')" "nw_deadlines w' = []" "core w' = core ?w" "ew_routed w' = ew_routed ?w"
    using sleep_runs [OF assms(1) rw(3)] by blast
  have "own old ref fin w' row" using sleep_own [of old ref fin ?w row env k] rw(1) s(1) by (simp add: ready_def)
  then have rs: "ready old ref fin ev row w'" using rw(1) s by (simp add: ready_def core_def)
  have nc: "\<not> is_cancelled_exc e" using assms(3) by (auto simp: is_exception_iff is_cancelled_iff)
  show ?thesis
  proof (cases "is_timeout_exc e")
    case True
    then show ?thesis
      using rw rs s nc timeout_is_transient [OF True]
      by (auto simp: handle_failure_def Let_def emit_def pm_defs reported_def)
  next
    case False
    then show ?thesis
      using rw rs s nc assms(3) by (auto simp: handle_failure_def Let_def emit_def pm_defs reported_def)
  qed
qed

lemma attempt_body_fails:
  assumes "route_fails env (ctx_of ref ra) e" "ready old ref fin ev row w"
  shows "\<exists>w'. attempt_body env ref ra k w = (Inl e, w') \<and> ready old ref fin ev row w' \<and> ew_routed w' = ew_routed w @ [rf_id ref]"
proof -
  define w0 where "w0 = (if 0 < k then emit_event (inv_str ref) (log_event ''warn''
      (''Retry '' @ nat_str k @ ''/'' @ nat_str MAX_RETRIES)) w else w)"
  have r0: "ready old ref fin ev row w0" "ew_routed w0 = ew_routed w"
    using assms(2) by (auto simp: ready_def w0_def) (auto simp: emit_event_def)
  let ?v = "w0\<lparr>ew_routed := ew_routed w0 @ [rf_id ref]\<rparr>"
  obtain w1 where w1: "route (xe_router env) (ctx_of ref ra) ?v = (Inl e, w1)" "nw_deadlines w1 = []"
  proof
    have "nw_deadlines ?v = []" using r0(1) by (simp add: ready_def)
    then have "fst (route (xe_router env) (ctx_of ref ra) ?v) = Inl e"
      "nw_deadlines (snd (route (xe_router env) (ctx_of ref ra) ?v)) = []"
      using assms(1) unfolding route_fails_def by blast+
    then show "route (xe_router env) (ctx_of ref ra) ?v = (Inl e, snd (route (xe_router env) (ctx_of ref ra) ?v))"
      "nw_deadlines (snd (route (xe_router env) (ctx_of ref ra) ?v)) = []"
      by (simp_all add: prod_eq_iff)
  qed
  then have rt: "routed env ref ra w0 = (Inl e, w1)" by (simp add: routed_def)
  have "own old ref fin w1 row" using routed_own [of old ref fin w0 row env ra] r0(1) rt by (simp add: ready_def)
  moreover have "ew_routed w1 = ew_routed w @ [rf_id ref]" using routed_count [of env ref ra w0] rt r0(2) by simp
  moreover have "core w1 = core w0" using keeps_run [OF routed_keeps rt] .
  ultimately have "ready old ref fin ev row w1 \<and> ew_routed w1 = ew_routed w @ [rf_id ref]"
    using w1(2) r0(1) by (simp add: ready_def core_def)
  moreover have "attempt_body env ref ra k w = (Inl e, w1)"
    using rt by (auto simp: attempt_body_def pm_defs emit_def w0_def)
  ultimately show ?thesis by blast
qed

lemma one_attempt_fails:
  assumes "undisturbed env" "route_fails env (ctx_of ref ra) e" "is_exception e" "ready old ref fin ev row w"
  shows "\<exists>w'. one_attempt env ref ra ev k w =
      (Inr (if MAX_RETRIES \<le> k \<or> \<not> is_transient e then Break (reported env ref ra e) else NextAttempt (reported env ref ra e)), w')
    \<and> ready old ref fin ev row w' \<and> ew_routed w' = ew_routed w @ [rf_id ref]"
proof -
  have x: "external_cancel env ref k w = w" using assms(1) by (simp add: external_cancel_def undisturbed_def)
  have nc: "\<not> event_is_set ev (ew_cancel w)" using assms(4) by (simp add: ready_def)
  obtain w1 where w1: "attempt_body env ref ra k w = (Inl e, w1)" "ready old ref fin ev row w1" "ew_routed w1 = ew_routed w @ [rf_id ref]"
    using attempt_body_fails [OF assms(2,4)] by blast
  obtain w2 where w2: "handle_failure env ref ra k e w1 =
      (Inr (if MAX_RETRIES \<le> k \<or> \<not> is_transient e then Break (reported env ref ra e) else NextAttempt (reported env ref ra e)), w2)"
    "ready old ref fin ev row w2" "ew_routed w2 = ew_routed w1"
    using handle_failure_runs [OF assms(1) w1(2) assms(3)] by blast
  show ?thesis
    using x nc w1 w2 by (intro exI [of _ w2]) (simp add: one_attempt_def Let_def pm_catch_def pm_bind_def)
qed

lemma attempts_fail:
  assumes "undisturbed env" "route_fails env (ctx_of ref ra) e" "is_exception e"
  shows "ready old ref fin ev row w \<Longrightarrow> n \<le> MAX_RETRIES \<Longrightarrow>
    \<exists>w'. attempts env ref ra ev n w = (Inr (Break (reported env ref ra e)), w') \<and> ready old ref fin ev row w'
      \<and> ew_routed w' = ew_routed w @ replicate (if is_transient e then Suc n else 1) (rf_id ref)"
proof (induction n arbitrary: w)
  case 0
  then show ?case using one_attempt_fails [OF assms 0(1), of MAX_RETRIES] by auto
next
  case (Suc n)
  obtain w1 where w1: "one_attempt env ref ra ev (MAX_RETRIES - Suc n) w =
      (Inr (if \<not> is_transient e then Break (reported env ref ra e) else NextAttempt (reported env ref ra e)), w1)"
    "ready old ref fin ev row w1" "ew_routed w1 = ew_routed w @ [rf_id ref]"
  proof -
    have "\<not> MAX_RETRIES \<le> MAX_RETRIES - Suc n" using Suc.prems(2) by arith
    then show thesis using that one_attempt_fails [OF assms Suc.prems(1), of "MAX_RETRIES - Suc n"] by auto
  qed
  show ?case
  proof (cases "is_transient e")
    case True
    obtain w2 where "attempts env ref ra ev n w1 = (Inr (Break (reported env ref ra e)), w2)" "ready old ref fin ev row w2"
      "ew_routed w2 = ew_routed w1 @ replicate (Suc n) (rf_id ref)"
      using Suc.IH [OF w1(2)] Suc.prems(2) True by auto
    then show ?thesis using w1 True by (simp add: pm_bind_def)
  next
    case False
    then show ?thesis using w1 by (simp add: pm_bind_def pm_return_def)
  qed
qed

lemma run_fails:
  assumes "undisturbed env" "route_fails env (ctx_of ref ra) e" "is_exception e" "ready old ref fin ev row w"
  shows "\<exists>w' row'. run_invocation env ref ra ev w = (Inr (tool_error (exc_msg (reported env ref ra e)) []), w')
    \<and> db_invocations (ew_db w') = old @ [row'] \<and> iv_status row' = FAILED \<and> iv_error row' = Some (exc_msg (reported env ref ra e))
    \<and> ew_routed w' = ew_routed w @ replicate (if is_transient e then MAX_RETRIES + 1 else 1) (rf_id ref)"
proof -
  let ?w0 = "w\<lparr>ew_running := Suc (ew_running w)\<rparr>"
  let ?f = "\<lambda>row. row\<lparr>iv_status := RUNNING, iv_started := nw_now ?w0\<rparr>"
  have o0: "own old ref fin ?w0 row" using assms(4) by (simp add: ready_def own_def finals_def)
  obtain w1 where w1: "update_invocation (rf_id ref) ?f ?w0 = (Inr (), w1)" "own old ref fin w1 (?f row)"
    "ew_cancel w1 = ew_cancel w" "ew_routed w1 = ew_routed w" "nw_deadlines w1 = nw_deadlines w"
    using update_own [OF o0, of ?f] by (auto simp: net_world.truncate_def)
  let ?w2 = "emit_event (inv_str ref) (log_event ''info'' (''Starting tool: '' @ rf_tool_name ref)) w1"
  have r2: "ready old ref fin ev (?f row) ?w2"
    using w1 assms(4) by (simp add: ready_def) (simp add: emit_event_def)
  have e2: "ew_routed ?w2 = ew_routed w" using w1(4) by (simp add: emit_event_def)
  obtain w3 where w3: "attempts env ref ra ev MAX_RETRIES ?w2 = (Inr (Break (reported env ref ra e)), w3)" "own old ref fin w3 (?f row)"
    "ew_routed w3 = ew_routed w @ replicate (if is_transient e then MAX_RETRIES + 1 else 1) (rf_id ref)"
    using attempts_fail [OF assms(1-3) r2, of MAX_RETRIES] e2 by (auto simp: ready_def)
  obtain w4 row' where w4: "finish_failed ref (reported env ref ra e) w3 = (Inr (tool_error (exc_msg (reported env ref ra e)) []), w4)"
    "ended old ref fin w4 row' (tool_error (exc_msg (reported env ref ra e)) [])" "iv_status row' = FAILED"
    "iv_error row' = Some (exc_msg (reported env ref ra e))" "ew_routed w4 = ew_routed w3"
    using finish_failed_own [OF w3(2)] by blast
  have rs: "run_in_slot env ref ra ev ?w0 = (Inr (tool_error (exc_msg (reported env ref ra e)) []), w4)"
    using w1(1) w3(1) w4(1) by (simp add: run_in_slot_def pm_defs emit_def mark_running_def)
  show ?thesis
    using rs w3(3) w4 by (intro exI [of _ "w4\<lparr>ew_running := ew_running w4 - 1\<rparr>"] exI [of _ row'])
      (auto simp: run_invocation_def pm_finally_def ended_def own_def)
qed

text \<open>C7.  Deterministic errors are not retried and transient ones are retried to the limit: when the backend
fails every call with the same exception and nothing disturbs the run, the invocation ends \<open>FAILED\<close> with
the message of the error (for a time-out, one that names the tool), after exactly one call of the router
if the error is not transient and after exactly three if it is.\<close>

theorem failing_backend_retries:
  assumes "undisturbed env" and "route_fails env (ctx_of ref ra) e" and "is_exception e" and "ready old ref fin ev row w"
  shows "\<exists>w' row'. run_invocation env ref ra ev w = (Inr (tool_error (exc_msg (reported env ref ra e)) []), w')
    \<and> db_invocations (ew_db w') = old @ [row'] \<and> iv_status row' = FAILED \<and> iv_error row' = Some (exc_msg (reported env ref ra e))
    \<and> ew_routed w' = ew_routed w @ replicate (if is_transient e then MAX_RETRIES + 1 else 1) (rf_id ref)"
  by (rule run_fails [OF assms])

definition demo_exec :: exec_env where
  "demo_exec = \<lparr>xe_router = demo_router, xe_new_id = (\<lambda>n. replicate 32 (CHR ''0'')), xe_cancel = (\<lambda>_. False),
     xe_sleep = (\<lambda>_. Inr ()), xe_jitter = (\<lambda>_. 0), xe_float_str = (\<lambda>_. ''120.0''), xe_default_timeout = 120\<rparr>"

definition demo_exec_world :: exec_world where
  "demo_exec_world = \<lparr>nw_log = [], nw_now = 0, nw_deadlines = [], pw_entries = [], bw_redis = redis_init, bw_events = [],
     rw_tools = demo_state, rw_e2b_built = False, rw_devices_built = False, ew_db = db_empty, ew_faults = [],
     ew_cancel = reg_init, ew_running = 0, ew_tasks = [], ew_routed = []\<rparr>"

definition demo_ref :: invocation_ref where
  "demo_ref = \<lparr>rf_id = replicate 32 (CHR ''0''), rf_tool_name = ''add'', rf_org = ''o'', rf_project = None\<rparr>"

definition demo_args :: "string \<Rightarrow> run_args" where
  "demo_args ty = \<lparr>ra_arguments = [], ra_routing = \<lparr>ri_server_type = ty, ri_endpoint = None, ri_config = None\<rparr>,
     ra_username = None, ra_project = None, ra_category = None, ra_timeout = 120\<rparr>"

definition demo_row :: invocation_row where
  "demo_row = \<lparr>iv_id = replicate 32 (CHR ''0''), iv_session = None, iv_tool = None, iv_org = [], iv_project = None, iv_user = None,
     iv_tool_name = ''add'', iv_server_type = LOCAL_PLUGIN, iv_status = PENDING, iv_input = [], iv_output = None, iv_error = None,
     iv_started = 0, iv_completed = None\<rparr>"

definition demo_started :: exec_world where
  "demo_started = demo_exec_world\<lparr>ew_db := db_empty\<lparr>db_invocations := [demo_row]\<rparr>, ew_cancel := snd (reg_register (inv_str demo_ref) reg_init)\<rparr>"

lemma demo_ready: "ready [] demo_ref [] 0 demo_row demo_started" "undisturbed demo_exec"
  by (simp_all add: ready_def own_def demo_started_def demo_exec_world_def demo_row_def demo_ref_def finals_def event_is_set_def
      reg_register_def reg_init_def undisturbed_def demo_exec_def)

theorem failing_backend_retries_witness:
  "ew_routed (snd (run_invocation demo_exec demo_ref (demo_args ''nowhere'') 0 demo_started)) = [rf_id demo_ref]"
proof -
  have "route_fails demo_exec (ctx_of demo_ref (demo_args ''nowhere'')) (Exc RoutingErr ''Unknown server type: nowhere'')"
    by (simp add: route_fails_def route_def handlers_def ctx_of_def demo_args_def server_type_defs pm_raise_def)
  from failing_backend_retries [OF demo_ready(2) this _ demo_ready(1)] show ?thesis
    by (auto simp: is_exception_iff is_transient_iff demo_started_def demo_exec_world_def)
qed

lemma hanging_route_fails:
  assumes "ri_server_type (ra_routing ra) = LOCAL_PLUGIN" "0 < ra_timeout ra" "\<And>n. ra_timeout ra < re_thread (xe_router env) n"
  shows "route_fails env (ctx_of ref ra) timeout_exc"
  using assms
  by (simp add: route_fails_def route_def handlers_def ctx_of_def run_local_def wait_for_def in_thread_def case_prod_beta net_op_def
      Let_def server_type_defs)

lemma hanging_local_effects:
  assumes "rc_server_type ctx = LOCAL_PLUGIN" "0 < rc_timeout ctx"
  shows "rw_tools (snd (route env ctx w)) = snd (call_tool_direct (re_tools env) (rc_tool_name ctx) (rc_arguments ctx)
     (rc_username ctx) (rc_project ctx) (rc_category ctx) (rw_tools w))"
  using assms
  by (auto simp: route_def handlers_def run_local_def wait_for_def in_thread_def case_prod_beta net_op_def Let_def server_type_defs
      split: option.split)



definition demo_req :: invoke_req where
  "demo_req = \<lparr>iq_tool_name = ''add'', iq_arguments = [], iq_org = replicate 32 (CHR ''0''), iq_project_id = None, iq_user = None,
     iq_session = None, iq_tool_id = None, iq_username = None, iq_project = None, iq_category = None, iq_timeout = None\<rparr>"

lemma demo_uuid: "uuid_parse (replicate 32 (CHR ''0'')) = Some (replicate 32 (CHR ''0''))"
  by code_simp

lemma demo_invoke: "\<exists>r w'. invoke demo_exec demo_req demo_exec_world = (Inr r, w')"
proof -
  let ?i = "replicate 32 (CHR ''0'')"
  define routing where "routing = \<lparr>ri_server_type = LOCAL_PLUGIN, ri_endpoint = None, ri_config = None\<rparr>"
  let ?ref = "ref_of demo_req ?i" and ?ra = "run_args_of demo_exec demo_req routing"
  obtain w1 where cr: "create_invocation demo_exec demo_req LOCAL_PLUGIN demo_exec_world = (Inr ?i, w1)"
    and w1: "db_invocations (ew_db w1) = [demo_row\<lparr>iv_org := ?i\<rparr>]" "ew_faults w1 = []" "bw_events w1 = []" "nw_deadlines w1 = []"
      "ew_cancel w1 = reg_init"
    by (auto simp: create_invocation_def demo_req_def demo_uuid demo_exec_def demo_exec_world_def Let_def pm_then_def pm_return_def
        db_op_def db_empty_def demo_row_def)
  let ?w = "w1\<lparr>ew_cancel := snd (reg_register (inv_str ?ref) reg_init)\<rparr>"
  have rd: "ready [] ?ref [] 0 (demo_row\<lparr>iv_org := ?i\<rparr>) ?w"
    using w1 by (simp add: ready_def own_def ref_of_def demo_row_def finals_def event_is_set_def reg_register_def reg_init_def)
  have "route_fails demo_exec (ctx_of ?ref ?ra) timeout_exc"
    by (rule hanging_route_fails)
      (simp_all add: run_args_of_def routing_def effective_timeout_def demo_req_def demo_exec_def demo_router_def)
  from run_fails [OF demo_ready(2) this _ rd]
  obtain r w' where "run_invocation demo_exec ?ref ?ra 0 ?w = (Inr r, w')"
    by (auto simp: timeout_exc_def is_exception_iff)
  moreover have "reg_register (inv_str ?ref) reg_init = (0, snd (reg_register (inv_str ?ref) reg_init))"
    by (simp add: reg_register_def reg_init_def)
  ultimately have "with_cancel_event ?ref (run_invocation demo_exec ?ref ?ra) w1
      = (Inr r, w'\<lparr>ew_cancel := reg_unregister (inv_str ?ref) (ew_cancel w')\<rparr>)"
    using w1(5) by (auto simp: with_cancel_event_def pm_finally_def split: prod.split)
  moreover have "resolve_tool_routing (iq_tool_id demo_req) demo_exec_world = (Inr routing, demo_exec_world)"
    by (simp add: resolve_tool_routing_def demo_req_def routing_def pm_return_def)
  ultimately show ?thesis
    using cr by (simp add: invoke_def pm_bind_def routing_def)
qed

theorem invoke_outcome_witness:
  "\<exists>r w' row. invoke demo_exec demo_req demo_exec_world = (Inr r, w') \<and> db_invocations (ew_db w') = [row]
     \<and> iv_status row \<in> {DONE, CANCELLED, FAILED}"
proof -
  obtain r w' where i: "invoke demo_exec demo_req demo_exec_world = (Inr r, w')" using demo_invoke by blast
  from invoke_outcome [OF _ _ refl i] obtain row where "db_invocations (ew_db w') = [row]" "iv_status row \<in> {DONE, CANCELLED, FAILED}"
    by (auto simp: demo_exec_world_def db_empty_def)
  with i show ?thesis by blast
qed

section \<open>Cancellation\<close>

text \<open>A cancellation that arrives before an attempt is honoured at once: when the event of the invocation
is set, the run does not call the router, marks the row \<open>CANCELLED\<close> and returns the cancelled result.\<close>

theorem cancelled_before_start:
  assumes "own old ref fin w row" and "event_is_set ev (ew_cancel w)"
  shows "\<exists>w' row'. run_invocation env ref ra ev w = (Inr cancelled_result, w') \<and> ew_routed w' = ew_routed w
    \<and> db_invocations (ew_db w') = old @ [row'] \<and> iv_status row' = CANCELLED"
proof -
  let ?w0 = "w\<lparr>ew_running := Suc (ew_running w)\<rparr>"
  let ?f = "\<lambda>row. row\<lparr>iv_status := RUNNING, iv_started := nw_now ?w0\<rparr>"
  have o0: "own old ref fin ?w0 row" using assms(1) by (simp add: own_def finals_def)
  obtain w1 where w1: "update_invocation (rf_id ref) ?f ?w0 = (Inr (), w1)" "own old ref fin w1 (?f row)"
    "ew_cancel w1 = ew_cancel w" "ew_routed w1 = ew_routed w"
    using update_own [OF o0, of ?f] by auto
  define w2 where "w2 = emit_event (inv_str ref) (log_event ''info'' (''Starting tool: '' @ rf_tool_name ref)) w1"
  define w3 where "w3 = external_cancel env ref 0 w2"
  have o3: "own old ref fin w3 (?f row)" using w1(2) by (simp add: w3_def w2_def external_own)
  have "event_is_set ev (ew_cancel w2)" using assms(2) w1(3) by (simp add: w2_def emit_event_def)
  then have set: "event_is_set ev (ew_cancel w3)"
    using event_set_mono [of ev "ew_cancel w2" "Cancel (inv_str ref)"] by (simp add: w3_def external_cancel_def)
  have e3: "ew_routed w3 = ew_routed w" using w1(4) by (simp add: w3_def external_cancel_def w2_def emit_event_def)
  obtain w4 row' where w4: "finish_cancelled ref w3 = (Inr cancelled_result, w4)" "ended old ref fin w4 row' cancelled_result"
    "iv_status row' = CANCELLED" "ew_routed w4 = ew_routed w3"
    using finish_cancelled_own [OF o3] by blast
  have "one_attempt env ref ra ev 0 w2 = (Inr (Return cancelled_result), w4)"
    using set w4(1) by (simp add: one_attempt_def Let_def w3_def [symmetric] pm_bind_def pm_return_def)
  then have "attempts env ref ra ev MAX_RETRIES w2 = (Inr (Return cancelled_result), w4)"
    by (simp add: MAX_RETRIES_def numeral_2_eq_2 pm_bind_def pm_return_def)
  then have "run_in_slot env ref ra ev ?w0 = (Inr cancelled_result, w4)"
    using w1(1) by (simp add: run_in_slot_def pm_defs emit_def mark_running_def w2_def)
  then show ?thesis
    using w4(2-4) e3 by (intro exI [of _ "w4\<lparr>ew_running := ew_running w4 - 1\<rparr>"] exI [of _ row'])
      (auto simp: run_invocation_def pm_finally_def ended_def own_def)
qed

theorem cancelled_before_start_witness:
  "ew_routed (snd (run_invocation demo_exec demo_ref (demo_args LOCAL_PLUGIN) 0
     (demo_started\<lparr>ew_cancel := snd (reg_cancel (inv_str demo_ref) (ew_cancel demo_started))\<rparr>))) = []"
proof -
  let ?w = "demo_started\<lparr>ew_cancel := snd (reg_cancel (inv_str demo_ref) (ew_cancel demo_started))\<rparr>"
  have "own [] demo_ref [] ?w demo_row"
    using demo_ready(1) by (simp add: ready_def own_def finals_def)
  moreover have "event_is_set 0 (ew_cancel ?w)"
    by (simp add: demo_started_def reg_register_def reg_init_def reg_cancel_def event_is_set_def)
  ultimately show ?thesis
    using cancelled_before_start [of "[]" demo_ref "[]" ?w demo_row 0 demo_exec "demo_args LOCAL_PLUGIN"]
    by (auto simp: demo_started_def demo_exec_world_def)
qed

section \<open>Isolation of organisations\<close>

text \<open>Reading an invocation is confined to the organisation that owns it: whatever identifier a caller
asks for, the row that is returned belongs to the caller's organisation.\<close>

theorem get_invocation_isolated:
  assumes "fst (get_invocation i org w) = Inr (Some row)"
  shows "iv_id row = i \<and> uuid_parse org = Some (iv_org row) \<and> row \<in> set (db_invocations (ew_db w))"
  using assms
  by (auto simp: get_invocation_def db_query_def pm_raise_def first_row_def find_Some_iff in_set_conv_nth
      split: option.splits list.splits)

theorem get_invocation_isolated_witness:
  "fst (get_invocation (iv_id demo_row) (replicate 32 (CHR ''0''))
     (demo_started\<lparr>ew_db := db_empty\<lparr>db_invocations := [demo_row\<lparr>iv_org := replicate 32 (CHR ''0'')\<rparr>]\<rparr>\<rparr>))
   = Inr (Some (demo_row\<lparr>iv_org := replicate 32 (CHR ''0'')\<rparr>))
   \<and> uuid_parse (replicate 32 (CHR ''0'')) = Some (replicate 32 (CHR ''0''))"
proof -
  let ?w = "demo_started\<lparr>ew_db := db_empty\<lparr>db_invocations := [demo_row\<lparr>iv_org := replicate 32 (CHR ''0'')\<rparr>]\<rparr>\<rparr>"
  have "fst (get_invocation (iv_id demo_row) (replicate 32 (CHR ''0'')) ?w) = Inr (Some (demo_row\<lparr>iv_org := replicate 32 (CHR ''0'')\<rparr>))"
    by (simp only: get_invocation_def demo_uuid)
      (simp add: db_query_def first_row_def demo_started_def demo_exec_world_def demo_row_def db_empty_def)
  with get_invocation_isolated [OF this] show ?thesis by simp
qed

text \<open>Running a tool is not: a tool identifier is resolved without regard to the caller, so that a tool of
another organisation, even one marked unavailable, is routed to the server of that organisation with
the server's own configuration.\<close>

theorem foreign_tool_is_routed:
  assumes "ew_faults w = []" and "first_row (\<lambda>r. tl_id r = t) (db_tools (ew_db w)) = Some tool"
    and "first_row (\<lambda>s. sv_id s = tl_server tool) (db_servers (ew_db w)) = Some s"
    and "iq_tool_id q = Some t" and "uuid_parse (iq_org q) \<noteq> Some (tl_org tool)" and "tl_status tool = TUnavailable"
  shows "\<exists>routing. resolve_tool_routing (iq_tool_id q) w = (Inr routing, w)
    \<and> rc_server_type (ctx_of (ref_of q i) (run_args_of env q routing)) = sv_type s
    \<and> rc_endpoint_url (ctx_of (ref_of q i) (run_args_of env q routing)) = sv_endpoint s
    \<and> rc_server_config (ctx_of (ref_of q i) (run_args_of env q routing)) = sv_config s"
  using assms by (simp add: resolve_tool_routing_def Let_def db_query_def ctx_of_def run_args_of_def)

definition demo_tool :: tool_row where
  "demo_tool = \<lparr>tl_id = ''t'', tl_server = ''s'', tl_org = ''other'', tl_project = None, tl_name = ''x'', tl_description = [],
     tl_schema = JObj [], tl_type = ''generic'', tl_category = None, tl_status = TUnavailable\<rparr>"

definition demo_server :: server_row where
  "demo_server = \<lparr>sv_id = ''s'', sv_org = ''other'', sv_name = ''n'', sv_slug = ''n'', sv_type = REMOTE_HTTP, sv_transport = ''http'',
     sv_endpoint = Some ''http://internal'', sv_config = [(''api_key'', JStr ''secret'')], sv_status = SActive, sv_created = 0\<rparr>"

theorem foreign_tool_is_routed_witness:
  "\<exists>routing w'. resolve_tool_routing (Some ''t'') (demo_exec_world\<lparr>ew_db := db_empty\<lparr>db_tools := [demo_tool], db_servers := [demo_server]\<rparr>\<rparr>)
     = (Inr routing, w') \<and> ri_endpoint routing = Some ''http://internal''"
proof -
  have "replicate 32 (CHR ''0'') \<noteq> ''other''"
    by (rule notI, drule arg_cong [of _ _ length]) simp
  then show ?thesis
  using foreign_tool_is_routed [of "demo_exec_world\<lparr>ew_db := db_empty\<lparr>db_tools := [demo_tool], db_servers := [demo_server]\<rparr>\<rparr>" "''t''" demo_tool
      demo_server "demo_req\<lparr>iq_tool_id := Some ''t''\<rparr>" "replicate 32 (CHR ''0'')" demo_exec]
  by (auto simp: demo_exec_world_def first_row_def demo_tool_def demo_server_def demo_req_def demo_uuid ctx_of_def run_args_of_def)
qed

end
