(* ===== verification/Event_Delivery.thy ===== *)
theory Event_Delivery
  imports Execution_Outcome
begin

text \<open>
  The execution service and the event bus together: what a client that subscribes to the events of a background
  invocation sees of its end.  The first part shows that the service changes the messages of the bus by publishing
  only, so that what a subscriber receives can be read off the list of published events.
\<close>

section \<open>The service changes the bus by publishing only\<close>

definition maintains :: "('s \<Rightarrow> bool) \<Rightarrow> ('s, 'e, 'a) pm \<Rightarrow> bool" where
  "maintains J m \<longleftrightarrow> (\<forall>s. J s \<longrightarrow> J (snd (m s)))"

named_theorems maintains_intros \<open>composition rules for an assertion on the state\<close>

lemma maintains_at: "maintains J m \<Longrightarrow> J s \<Longrightarrow> J (snd (m s))"
  by (simp add: maintains_def)

lemma maintains_pure [maintains_intros]: "maintains J (pm_return x)" "maintains J (pm_raise e)"
  by (simp_all add: maintains_def pm_defs)

lemma maintains_modify: "(\<And>s. J s \<Longrightarrow> J (g s)) \<Longrightarrow> maintains J (pm_modify g)"
  by (simp add: maintains_def pm_modify_def)

lemma maintains_bind [maintains_intros]: "maintains J m \<Longrightarrow> (\<And>x. maintains J (k x)) \<Longrightarrow> maintains J (pm_bind m k)"
  unfolding maintains_def pm_bind_def by (simp add: case_prod_beta split: sum.split)

lemma maintains_then [maintains_intros]: "maintains J m \<Longrightarrow> maintains J k \<Longrightarrow> maintains J (pm_then m k)"
  unfolding maintains_def pm_then_def by (simp add: case_prod_beta split: sum.split)

lemma maintains_catch [maintains_intros]: "maintains J m \<Longrightarrow> (\<And>e. maintains J (h e)) \<Longrightarrow> maintains J (pm_catch m h)"
  unfolding maintains_def pm_catch_def by (simp add: case_prod_beta split: sum.split)

lemma maintains_if [maintains_intros]: "maintains J a \<Longrightarrow> maintains J b \<Longrightarrow> maintains J (if c then a else b)"
  by simp

lemma maintains_finally: "maintains J m \<Longrightarrow> (\<And>s. J s \<Longrightarrow> J (g s)) \<Longrightarrow> maintains J (pm_finally m g)"
  by (simp add: maintains_def pm_finally_def case_prod_beta)

text \<open>The events published since \<open>old\<close>, replayed on \<open>r0\<close>, give the bus; all but the final ones survive their encoding.\<close>

definition publish_all :: "(string \<times> event) list \<Rightarrow> redis \<Rightarrow> redis" where
  "publish_all pubs r = fold (\<lambda>(j, e) r. bus_publish j (ev_type e) (ev_data e) (ev_final e) r) pubs r"

definition replayed :: "redis \<Rightarrow> (string \<times> event) list \<Rightarrow> 'w bus_world_scheme \<Rightarrow> bool" where
  "replayed r0 old w \<longleftrightarrow> (\<exists>pubs. bw_events w = old @ pubs \<and> bw_redis w = publish_all pubs r0
     \<and> (\<forall>(j, e) \<in> set pubs. ev_final e \<or> json_wf (ev_data e)))"

lemma replayed_init: "bw_redis w = r0 \<Longrightarrow> bw_events w = old \<Longrightarrow> replayed r0 old w"
  by (simp add: replayed_def publish_all_def)

lemma replayed_emit:
  assumes "replayed r0 old w" and "ev_final e \<or> json_wf (ev_data e)"
  shows "replayed r0 old (emit_event i e w)"
proof -
  from assms(1) obtain pubs where p: "bw_events w = old @ pubs" "bw_redis w = publish_all pubs r0"
    "\<forall>(j, e) \<in> set pubs. ev_final e \<or> json_wf (ev_data e)" by (auto simp: replayed_def)
  then show ?thesis
    unfolding replayed_def using assms(2)
    by (intro exI [of _ "pubs @ [(i, e)]"]) (auto simp: emit_event_def publish_all_def)
qed

lemma log_event_wf: "json_wf (ev_data (log_event l m))"
  by (simp add: log_event_def log_data_def)

lemma replayed_log: "replayed r0 old w \<Longrightarrow> replayed r0 old (emit_event i (log_event l m) w)"
  by (rule replayed_emit) (simp_all add: log_event_wf)

lemma replayed_updates [simp]:
  "replayed r0 old (w\<lparr>nw_deadlines := ds\<rparr>) = replayed r0 old w"
  "replayed r0 old (w1\<lparr>rw_tools := ts\<rparr>) = replayed r0 old w1"
  "replayed r0 old (w1\<lparr>rw_e2b_built := b\<rparr>) = replayed r0 old w1" "replayed r0 old (w1\<lparr>rw_devices_built := b\<rparr>) = replayed r0 old w1"
  by (simp_all add: replayed_def)

lemma replayed_pool:
  fixes w w' :: "'w bus_world_scheme"
  shows "pool_world.more w' = pool_world.more w \<Longrightarrow> replayed r0 old w' = replayed r0 old w"
  by (cases w; cases w') (simp add: replayed_def)

lemma maintains_pool: "pool_frame m \<Longrightarrow> maintains (replayed r0 old) m"
  unfolding keeps_def maintains_def using replayed_pool by blast

lemma maintains_net: "net_only m \<Longrightarrow> maintains (replayed r0 old) m"
  by (rule maintains_pool [OF pool_frame_net_only])

lemma replayed_op [simp]: "replayed r0 old (snd (net_op op res w)) = replayed r0 old w"
  by (rule replayed_pool, rule pool_more) simp

lemma maintains_op [maintains_intros]: "maintains (replayed r0 old) (\<lambda>w. net_op op (res w) w)"
  by (simp add: maintains_def)

lemma maintains_wait_for [maintains_intros]: "maintains (replayed r0 old) m \<Longrightarrow> maintains (replayed r0 old) (wait_for t m)"
  by (simp add: maintains_def wait_for_def case_prod_beta)

lemma replayed_chunks: "replayed r0 old w \<Longrightarrow> replayed r0 old (publish_chunks iv cs w)"
  by (induction iv cs w rule: publish_chunks.induct) (simp_all add: replayed_log)

lemma maintains_sandbox: "maintains (replayed r0 old) (run_in_sandbox sb sid code iv)"
  unfolding maintains_def
  by (auto simp: run_in_sandbox_def case_prod_beta Let_def replayed_chunks split: sum.split)

lemma maintains_e2b: "maintains (replayed r0 old) (e2b_execute sb code args iv)"
proof -
  have d: "maintains (replayed r0 old) (wait_for 10 (destroy_sandbox sb sid))" for sid
    unfolding destroy_sandbox_def by (intro maintains_intros)
  have c: "maintains (replayed r0 old) (create_ephemeral_sandbox sb)"
    unfolding create_ephemeral_sandbox_def by (intro maintains_intros)
  show ?thesis
    unfolding maintains_def
    by (auto simp: e2b_execute_def Let_def case_prod_beta split: sum.split
        intro!: replayed_log maintains_at [OF c] maintains_at [OF maintains_sandbox] maintains_at [OF d])
qed

lemma maintains_route: "maintains (replayed r0 old) (route env ctx)"
proof -
  have t: "maintains (replayed r0 old) (in_thread env ctx)"
    unfolding maintains_def in_thread_def by (simp add: case_prod_beta)
  have l: "maintains (replayed r0 old) (run_local env ctx)" unfolding run_local_def by (intro maintains_intros t)
  have r: "maintains (replayed r0 old) (run_remote env ctx)"
    unfolding run_remote_def Let_def by (intro maintains_intros maintains_pool pool_frame_pool_call)
  have c: "maintains (replayed r0 old) (run_composio env ctx)"
    unfolding run_composio_def by (intro maintains_intros maintains_pool pool_frame_composio)
  have e: "maintains (replayed r0 old) (run_e2b env ctx)"
    unfolding run_e2b_def by (intro maintains_intros maintains_e2b maintains_modify) simp
  have dv: "net_only (devices_call_tool cfg ne n a cf iv)" for cfg ne n a cf iv
    unfolding devices_call_tool_def Let_def by (intro net_only_intros)
  have d: "maintains (replayed r0 old) (run_device env ctx)"
    unfolding run_device_def by (intro maintains_intros maintains_net dv maintains_modify) simp
  show ?thesis using l r c e d maintains_pure(2) by (auto simp: route_def handlers_def)
qed

section \<open>A run of the service\<close>

lemma replayed_service [simp]:
  "replayed r0 old (w\<lparr>ew_db := d\<rparr>) = replayed r0 old w" "replayed r0 old (w\<lparr>ew_faults := fs\<rparr>) = replayed r0 old w"
  "replayed r0 old (w\<lparr>ew_cancel := g\<rparr>) = replayed r0 old w" "replayed r0 old (w\<lparr>ew_running := n\<rparr>) = replayed r0 old w"
  "replayed r0 old (w\<lparr>ew_tasks := ts\<rparr>) = replayed r0 old w" "replayed r0 old (w\<lparr>ew_routed := us\<rparr>) = replayed r0 old w"
  by (simp_all add: replayed_def)

abbreviation published :: "redis \<Rightarrow> (string \<times> event) list \<Rightarrow> (exec_world, exc, 'a) pm \<Rightarrow> bool" where
  "published r0 old \<equiv> maintains (replayed r0 old)"

lemma published_db_op: "published r0 old (db_op f)"
  unfolding maintains_def db_op_def by (auto split: list.split option.split)

lemma published_marks [maintains_intros]:
  "published r0 old (mark_running ref)" "published r0 old (mark_done ref x)" "published r0 old (mark_failed ref m)"
  "published r0 old (mark_cancelled ref)"
  unfolding maintains_def mark_running_def mark_done_def mark_failed_def mark_cancelled_def update_invocation_def
  by (auto intro: maintains_at [OF published_db_op])

lemma published_emit:
  "ev_final e \<or> json_wf (ev_data e) \<Longrightarrow> published r0 old (emit ref e)"
  unfolding emit_def by (rule maintains_modify) (rule replayed_emit)

lemma published_log [maintains_intros]: "published r0 old (emit ref (log_event l m))"
  by (rule published_emit) (simp add: log_event_wf)

lemma published_final [maintains_intros]: "published r0 old (emit ref (result_event x))" "published r0 old (emit ref (error_event m))"
  by (rule published_emit, simp add: result_event_def error_event_def)+

lemma published_routed [maintains_intros]: "published r0 old (routed env ref ra)"
  unfolding maintains_def routed_def by (auto intro!: maintains_at [OF maintains_route])

lemma published_sleep [maintains_intros]: "published r0 old (backoff_sleep env k)"
  unfolding maintains_def backoff_sleep_def Let_def by simp

lemma published_finish [maintains_intros]: "published r0 old (finish_cancelled ref)" "published r0 old (finish_failed ref e)"
  unfolding finish_cancelled_def finish_failed_def by (intro maintains_intros)+

lemma published_failure [maintains_intros]: "published r0 old (handle_failure env ref ra k e)"
  unfolding handle_failure_def Let_def by (intro maintains_intros)

lemma published_one_attempt: "published r0 old (one_attempt env ref ra ev k)"
proof -
  have body: "published r0 old (pm_catch (pm_bind (attempt_body env ref ra k) (\<lambda>r. pm_return (Return r))) (handle_failure env ref ra k))"
    unfolding attempt_body_def by (intro maintains_intros)
  have cancel: "published r0 old (pm_bind (finish_cancelled ref) (\<lambda>r. pm_return (Return r)))" by (intro maintains_intros)
  have "replayed r0 old (external_cancel env ref k w) = replayed r0 old w" for w
    by (simp add: external_cancel_def)
  then show ?thesis
    using body cancel unfolding maintains_def one_attempt_def Let_def by simp
qed

lemma published_attempts: "published r0 old (attempts env ref ra ev n)"
proof (induction n)
  case (Suc n)
  have "published r0 old (case x of NextAttempt e \<Rightarrow> attempts env ref ra ev n | _ \<Rightarrow> pm_return x)" for x
    using Suc by (cases x) (simp_all add: maintains_pure)
  then show ?case by (simp add: maintains_bind published_one_attempt)
qed (simp add: published_one_attempt)

lemma published_run: "published r0 old (run_invocation env ref ra ev)"
proof -
  have "published r0 old (case x of Return r \<Rightarrow> pm_return r | NextAttempt e \<Rightarrow> finish_failed ref e | Break e \<Rightarrow> finish_failed ref e)" for x
    by (cases x) (simp_all add: maintains_intros)
  then have "published r0 old (run_in_slot env ref ra ev)"
    unfolding run_in_slot_def by (intro maintains_intros published_attempts)
  then show ?thesis
    by (simp add: maintains_def run_invocation_def pm_finally_def case_prod_beta)
qed

section \<open>The end of a background invocation\<close>

lemma until_final_last:
  "filter ev_final es = [e] \<Longrightarrow> \<exists>pre. until_final es = pre @ [e] \<and> filter ev_final pre = []"
proof (induction es)
  case (Cons x es)
  show ?case
  proof (cases "ev_final x")
    case True
    then show ?thesis using Cons.prems by (intro exI [of _ "[]"]) auto
  next
    case False
    with Cons obtain pre where "until_final es = pre @ [e]" "filter ev_final pre = []" by auto
    with False show ?thesis by (intro exI [of _ "x # pre"]) simp
  qed
qed simp

lemma until_final_none: "filter ev_final es = [] \<Longrightarrow> until_final es = es"
  by (induction es) (auto split: if_splits)

definition heard :: "pubsub \<Rightarrow> redis \<Rightarrow> seconds \<Rightarrow> seconds \<Rightarrow> json list \<times> sub_end" where
  "heard ps r now deadline = sub_loop deadline (map (\<lambda>m. (now, Message m)) (queue_of r (ps_queue ps)))"

text \<open>What a subscriber hears of a run, from the final events of the run.\<close>

lemma heard_of_run:
  assumes "redis_wf r" and "bus_subscribe i r = (ps, r1)" and "now < deadline"
    and "replayed r1 old w'" and "filter (ev_final \<circ> snd) (bw_events w') = filter (ev_final \<circ> snd) old @ fin"
    and "\<forall>(j, e) \<in> set fin. json_wf (ev_data e)"
  shows "fin = [] \<longrightarrow> (\<exists>pre. heard ps (bw_redis w') now deadline = (map event_json pre, SubOpen) \<and> filter ev_final pre = [])"
    and "fin = [(i, e)] \<longrightarrow> (\<exists>pre. heard ps (bw_redis w') now deadline = (map event_json (pre @ [e]), SubFinal) \<and> filter ev_final pre = [])"
proof -
  obtain pubs where p: "bw_events w' = old @ pubs" "bw_redis w' = publish_all pubs r1"
    "\<forall>(j, e) \<in> set pubs. ev_final e \<or> json_wf (ev_data e)" using assms(4) by (auto simp: replayed_def)
  have fin: "fin = filter (ev_final \<circ> snd) pubs" using assms(5) p(1) by simp
  have wf: "\<forall>(j, e) \<in> set pubs. json_wf (ev_data e)"
    using p(3) assms(6) unfolding fin by auto
  define es where "es = map snd (filter (\<lambda>p. fst p = i) pubs)"
  have h: "heard ps (bw_redis w') now deadline = (map event_json (until_final es), if \<exists>e \<in> set es. ev_final e then SubFinal else SubOpen)"
    unfolding heard_def by (rule bus_delivers_until_final [OF assms(1, 2) wf _ es_def assms(3)]) (simp add: p(2) publish_all_def)
  have es: "filter ev_final es = map snd (filter (\<lambda>p. fst p = i) fin)"
    unfolding es_def fin by (simp add: filter_map comp_def conj_commute)
  show "fin = [] \<longrightarrow> (\<exists>pre. heard ps (bw_redis w') now deadline = (map event_json pre, SubOpen) \<and> filter ev_final pre = [])"
    using h es until_final_none [of es] by (auto simp: filter_empty_conv)
  show "fin = [(i, e)] \<longrightarrow> (\<exists>pre. heard ps (bw_redis w') now deadline = (map event_json (pre @ [e]), SubFinal) \<and> filter ev_final pre = [])"
  proof
    assume "fin = [(i, e)]"
    then have f: "filter ev_final es = [e]" using es by simp
    then have "\<exists>x \<in> set es. ev_final x" by (metis filter_empty_conv list.distinct(1))
    then show "\<exists>pre. heard ps (bw_redis w') now deadline = (map event_json (pre @ [e]), SubFinal) \<and> filter ev_final pre = []"
      using h until_final_last [OF f] by auto
  qed
qed

lemma create_async:
  assumes "ew_faults w = []" and "invoke_async env q w = (Inr i, w1)"
  obtains row routing where "w1 = w\<lparr>ew_db := (ew_db w)\<lparr>db_invocations := db_invocations (ew_db w) @ [row]\<rparr>,
       ew_tasks := ew_tasks w @ [(ref_of q i, run_args_of env q routing)]\<rparr>"
    and "iv_id row = i"
proof -
  obtain routing where ro: "resolve_tool_routing (iq_tool_id q) w = (Inr routing, w)"
    using assms(1) by (cases "iq_tool_id q") (auto simp: resolve_tool_routing_def Let_def pm_return_def db_query_def)
  from assms(2) obtain w' where cr: "create_invocation env q (ri_server_type routing) w = (Inr i, w')"
    and w1: "w1 = w'\<lparr>ew_tasks := ew_tasks w' @ [(ref_of q i, run_args_of env q routing)]\<rparr>"
    using ro by (auto simp: invoke_async_def pm_bind_def pm_defs split: prod.splits sum.splits)
  from cr assms(1) obtain row where "w' = w\<lparr>ew_db := (ew_db w)\<lparr>db_invocations := db_invocations (ew_db w) @ [row]\<rparr>\<rparr>" "iv_id row = i"
    by (auto simp: create_invocation_def Let_def pm_then_def pm_return_def db_op_def split: option.splits if_splits)
  with w1 show thesis by (intro that) simp_all
qed

text \<open>The background task of an invocation: it ends with its row, and everything it published is on the bus.\<close>

lemma background_run:
  assumes "own old ref (finals w) w row" and "bw_redis w = r1" and "bw_events w = evs"
  shows "replayed r1 evs (snd (run_background env ref ra w))"
    and "\<exists>row'. own old ref (finals w) (snd (run_background env ref ra w)) row' \<and> iv_status row' = RUNNING
      \<or> (\<exists>r. ended old ref (finals w) (snd (run_background env ref ra w)) row' r)"
proof -
  obtain ev g where rg: "reg_register (inv_str ref) (ew_cancel w) = (ev, g)" by force
  let ?v = "w\<lparr>ew_cancel := g\<rparr>"
  obtain res w' where run: "run_invocation env ref ra ev ?v = (res, w')" by force
  define g' where "g' = reg_unregister (inv_str ref) (ew_cancel w')"
  have w2: "snd (run_background env ref ra w) = w'\<lparr>ew_cancel := g'\<rparr>"
    using rg run by (auto simp: run_background_def with_cancel_event_def pm_finally_def pm_catch_def pm_bind_def pm_return_def pm_raise_def
        g'_def split: sum.split prod.split)
  have "replayed r1 evs ?v" using replayed_init [of w r1 evs] assms(2, 3) by simp
  then have "replayed r1 evs w'" using maintains_at [OF published_run, of r1 evs ?v env ref ra ev] run by simp
  then show "replayed r1 evs (snd (run_background env ref ra w))" using w2 by simp
  have "own old ref (finals w) ?v row" using assms(1) by (simp add: own_def finals_def)
  from run_invocation_outcome [OF this run]
  have "\<exists>row'. own old ref (finals w) w' row' \<and> iv_status row' = RUNNING \<or> (\<exists>r. ended old ref (finals w) w' row' r)"
    by (auto split: sum.splits)
  moreover have "own old ref fin (w'\<lparr>ew_cancel := g'\<rparr>) x = own old ref fin w' x"
    "ended old ref fin (w'\<lparr>ew_cancel := g'\<rparr>) x r = ended old ref fin w' x r" for fin x r
    by (simp_all add: own_def ended_def finals_def)
  ultimately show "\<exists>row'. own old ref (finals w) (snd (run_background env ref ra w)) row' \<and> iv_status row' = RUNNING
      \<or> (\<exists>r. ended old ref (finals w) (snd (run_background env ref ra w)) row' r)"
    using w2 by simp
qed

text \<open>What is heard, from how the run has ended.\<close>

lemma heard_at_end:
  assumes "redis_wf r" and "bus_subscribe (inv_str ref) r = (ps, r1)" and "now < deadline" and "replayed r1 evs w2"
    and "own old ref fin0 w2 row \<and> iv_status row = RUNNING \<or> (\<exists>r. ended old ref fin0 w2 row r)"
    and "fin0 = filter (ev_final \<circ> snd) evs"
  shows "\<exists>pre. db_invocations (ew_db w2) = old @ [row] \<and> iv_id row = rf_id ref \<and> filter ev_final pre = []
     \<and> (iv_status row = DONE \<and> (\<exists>r. iv_output row = Some r
            \<and> (json_wf r \<longrightarrow> heard ps (bw_redis w2) now deadline = (map event_json (pre @ [result_event r]), SubFinal)))
        \<or> iv_status row = FAILED \<and> (\<exists>m. iv_error row = Some m
            \<and> heard ps (bw_redis w2) now deadline = (map event_json (pre @ [error_event m]), SubFinal))
        \<or> iv_status row \<in> {CANCELLED, RUNNING} \<and> heard ps (bw_redis w2) now deadline = (map event_json pre, SubOpen))"
proof -
  have h: "(fin = [] \<longrightarrow> (\<exists>pre. heard ps (bw_redis w2) now deadline = (map event_json pre, SubOpen) \<and> filter ev_final pre = []))
      \<and> (fin = [(inv_str ref, e)] \<longrightarrow> (\<exists>pre. heard ps (bw_redis w2) now deadline = (map event_json (pre @ [e]), SubFinal) \<and> filter ev_final pre = []))"
    if "finals w2 = fin0 @ fin" "\<forall>(j, e) \<in> set fin. json_wf (ev_data e)" for fin e
    using heard_of_run [OF assms(1-4) _ that(2)] that(1) assms(6) by (simp add: finals_def)
  have er: "json_wf (ev_data (error_event m))" for m by (simp add: error_event_def)
  have fr: "json_wf r \<Longrightarrow> json_wf (ev_data (result_event r))" for r by (simp add: result_event_def)
  from assms(5) consider (silent) "own old ref fin0 w2 row" "iv_status row \<in> {CANCELLED, RUNNING}"
    | (done') r where "own old ref (fin0 @ [(inv_str ref, result_event r)]) w2 row" "iv_status row = DONE" "iv_output row = Some r"
    | (failed) m where "own old ref (fin0 @ [(inv_str ref, error_event m)]) w2 row" "iv_status row = FAILED" "iv_error row = Some m"
    unfolding ended_def by blast
  then show ?thesis
  proof cases
    case silent
    then show ?thesis using h [of "[]"] by (auto simp: own_def)
  next
    case (done' r)
    then show ?thesis using h [of "[(inv_str ref, result_event r)]" "result_event r"] fr
      by (cases "json_wf r") (auto simp: own_def intro: exI [of _ "[]"])
  next
    case (failed m)
    then show ?thesis using h [of "[(inv_str ref, error_event m)]" "error_event m"] er by (auto simp: own_def)
  qed
qed


text \<open>A local tool that never returns, started in the background: the subscriber hears the error.\<close>

lemma demo_async:
  "\<exists>w1. invoke_async demo_exec demo_req demo_exec_world = (Inr (replicate 32 (CHR ''0'')), w1) \<and> bw_redis w1 = redis_init"
  by (auto simp: invoke_async_def resolve_tool_routing_def create_invocation_def demo_req_def demo_uuid demo_exec_def demo_exec_world_def
      Let_def pm_defs db_op_def db_empty_def)


end
