(* ===== verification/Exec_Concurrency.thy ===== *)
theory Exec_Concurrency
  imports Cancel_Registry
begin

text \<open>
  Concurrent invocations, \<open>_get_semaphore\<close>, \<open>invoke\<close> and \<open>_run\<close> of \<open>app/services/execution_service.py\<close>: the points at which
  an invocation registers its cancellation event, waits for a slot of the semaphore, gets it and gives it back.  Between
  these points the invocations may interleave in any way; what one does while it holds its slot is the theory
  \<open>Execution_Service\<close>.  An \<open>asyncio.Semaphore\<close> is its value and its waiters, split into those that were woken and
  have not resumed and those that still wait, in the order of their arrival.
\<close>

section \<open>The semaphore\<close>

record gate =
  gt_value :: nat
  gt_woken :: "string list"
  gt_waiting :: "string list"

definition gate_locked :: "gate \<Rightarrow> bool" where
  "gate_locked g \<longleftrightarrow> gt_value g = 0 \<or> gt_woken g \<noteq> [] \<or> gt_waiting g \<noteq> []"

definition wake_next :: "gate \<Rightarrow> gate" where
  "wake_next g =
     (case gt_waiting g of
        [] \<Rightarrow> g
      | i # q \<Rightarrow> g\<lparr>gt_value := gt_value g - 1, gt_woken := gt_woken g @ [i], gt_waiting := q\<rparr>)"

text \<open>\<open>release\<close> wakes one waiter, the end of \<open>acquire\<close> as many as the value allows.\<close>

definition gate_release :: "gate \<Rightarrow> gate" where
  "gate_release g = wake_next (g\<lparr>gt_value := Suc (gt_value g)\<rparr>)"

function wake_all :: "gate \<Rightarrow> gate" where
  "wake_all g = (if 0 < gt_value g \<and> gt_waiting g \<noteq> [] then wake_all (wake_next g) else g)"
  by pat_completeness auto
termination
  by (relation "measure (\<lambda>g. length (gt_waiting g))") (auto simp: wake_next_def split: list.split)

declare wake_all.simps [simp del]

section \<open>Invocations at the semaphore\<close>

record sched =
  sd_gate :: "gate option"
  sd_holding :: "string list"
  sd_cancel :: cancel_reg

definition sched_init :: sched where
  "sched_init = \<lparr>sd_gate = None, sd_holding = [], sd_cancel = reg_init\<rparr>"

text \<open>The semaphore is made on first use, with the configured number of slots.\<close>

definition get_semaphore :: "nat \<Rightarrow> sched \<Rightarrow> gate" where
  "get_semaphore limit s = (case sd_gate s of None \<Rightarrow> \<lparr>gt_value = limit, gt_woken = [], gt_waiting = []\<rparr> | Some g \<Rightarrow> g)"

definition present :: "nat \<Rightarrow> sched \<Rightarrow> string set" where
  "present limit s = set (sd_holding s) \<union> set (gt_woken (get_semaphore limit s)) \<union> set (gt_waiting (get_semaphore limit s))"

text \<open>Identifiers are fresh: an invocation that is present does not arrive again.\<close>

definition arrive :: "nat \<Rightarrow> string \<Rightarrow> sched \<Rightarrow> sched" where
  "arrive limit i s =
     (let g = get_semaphore limit s; s1 = s\<lparr>sd_cancel := snd (reg_register i (sd_cancel s))\<rparr> in
      if i \<in> present limit s then s
      else if gate_locked g then s1\<lparr>sd_gate := Some (g\<lparr>gt_waiting := gt_waiting g @ [i]\<rparr>)\<rparr>
      else s1\<lparr>sd_gate := Some (g\<lparr>gt_value := gt_value g - 1\<rparr>), sd_holding := i # sd_holding s\<rparr>)"

definition resume :: "nat \<Rightarrow> string \<Rightarrow> sched \<Rightarrow> sched" where
  "resume limit i s =
     (let g = get_semaphore limit s in
      if i \<in> set (gt_woken g) then
        s\<lparr>sd_gate := Some (wake_all (g\<lparr>gt_woken := remove1 i (gt_woken g)\<rparr>)), sd_holding := i # sd_holding s\<rparr>
      else s)"

text \<open>The end of a run, by a result, an exception or a cancellation: the slot is given back and the event removed.\<close>

definition leave :: "nat \<Rightarrow> string \<Rightarrow> sched \<Rightarrow> sched" where
  "leave limit i s =
     (if i \<in> set (sd_holding s) then
        s\<lparr>sd_gate := Some (gate_release (get_semaphore limit s)), sd_holding := remove1 i (sd_holding s),
          sd_cancel := reg_unregister i (sd_cancel s)\<rparr>
      else s)"

text \<open>The cancellation of a task that waits; one that was woken already gives its slot back.\<close>

definition give_up :: "nat \<Rightarrow> string \<Rightarrow> sched \<Rightarrow> sched" where
  "give_up limit i s =
     (let g = get_semaphore limit s; s1 = s\<lparr>sd_cancel := reg_unregister i (sd_cancel s)\<rparr> in
      if i \<in> set (gt_woken g) then
        s1\<lparr>sd_gate := Some (wake_all (g\<lparr>gt_value := Suc (gt_value g), gt_woken := remove1 i (gt_woken g)\<rparr>))\<rparr>
      else if i \<in> set (gt_waiting g) then s1\<lparr>sd_gate := Some (wake_all (g\<lparr>gt_waiting := remove1 i (gt_waiting g)\<rparr>))\<rparr>
      else s)"

datatype sched_op = Arrive string | Resume string | Leave string | GiveUp string | CancelRequest string

fun sched_step :: "nat \<Rightarrow> sched \<Rightarrow> sched_op \<Rightarrow> sched" where
  "sched_step limit s (Arrive i) = arrive limit i s"
| "sched_step limit s (Resume i) = resume limit i s"
| "sched_step limit s (Leave i) = leave limit i s"
| "sched_step limit s (GiveUp i) = give_up limit i s"
| "sched_step limit s (CancelRequest i) = s\<lparr>sd_cancel := snd (reg_cancel i (sd_cancel s))\<rparr>"

section \<open>Slots\<close>

text \<open>No slot is lost: they are free, held, or on their way to a woken waiter; and no wake-up is lost.\<close>

definition gate_ok :: "nat \<Rightarrow> nat \<Rightarrow> gate \<Rightarrow> bool" where
  "gate_ok limit held g \<longleftrightarrow> gt_value g + length (gt_woken g) + held = limit
     \<and> (0 < gt_value g \<and> gt_waiting g \<noteq> [] \<longrightarrow> gt_woken g \<noteq> [])"

definition apart :: "string list \<Rightarrow> gate \<Rightarrow> bool" where
  "apart held g \<longleftrightarrow> distinct (held @ gt_woken g @ gt_waiting g)"

definition known :: "cancel_reg \<Rightarrow> string set" where
  "known g = {i. dict_get (events g) i \<noteq> None}"

definition sched_ok :: "nat \<Rightarrow> sched \<Rightarrow> bool" where
  "sched_ok limit s \<longleftrightarrow> gate_ok limit (length (sd_holding s)) (get_semaphore limit s)
     \<and> apart (sd_holding s) (get_semaphore limit s)
     \<and> reg_wf (sd_cancel s) \<and> known (sd_cancel s) = present limit s"

lemma wake_next_facts:
  "0 < gt_value g \<Longrightarrow> gt_value (wake_next g) + length (gt_woken (wake_next g)) = gt_value g + length (gt_woken g)"
  "gt_woken (wake_next g) @ gt_waiting (wake_next g) = gt_woken g @ gt_waiting g"
  "gt_waiting (wake_next g) = tl (gt_waiting g)"
  by (auto simp: wake_next_def split: list.split)

lemma wake_all_facts:
  "gt_value (wake_all g) + length (gt_woken (wake_all g)) = gt_value g + length (gt_woken g)
   \<and> gt_woken (wake_all g) @ gt_waiting (wake_all g) = gt_woken g @ gt_waiting g
   \<and> (\<exists>n. gt_waiting (wake_all g) = drop n (gt_waiting g)) \<and> \<not> (0 < gt_value (wake_all g) \<and> gt_waiting (wake_all g) \<noteq> [])"
proof (induction g rule: wake_all.induct)
  case (1 g)
  show ?case
  proof (cases "0 < gt_value g \<and> gt_waiting g \<noteq> []")
    case True
    then have eq: "wake_all g = wake_all (wake_next g)" by (subst wake_all.simps) simp
    obtain n where n: "gt_waiting (wake_all (wake_next g)) = drop n (gt_waiting (wake_next g))" using 1 True by blast
    have "gt_waiting (wake_all g) = drop (Suc n) (gt_waiting g)" using n by (simp add: eq wake_next_facts(3) drop_Suc)
    then show ?thesis using 1 True wake_next_facts(1,2) [of g] unfolding eq by auto
  next
    case False
    then have "wake_all g = g" by (subst wake_all.simps) (rule if_not_P)
    with False show ?thesis by (auto intro: exI [of _ 0])
  qed
qed

lemma release_facts:
  "gt_value (gate_release g) + length (gt_woken (gate_release g)) = Suc (gt_value g + length (gt_woken g))"
  "gt_woken (gate_release g) @ gt_waiting (gate_release g) = gt_woken g @ gt_waiting g"
  "gt_waiting (gate_release g) = tl (gt_waiting g)" "gt_waiting g \<noteq> [] \<Longrightarrow> gt_woken (gate_release g) \<noteq> []"
  by (auto simp: gate_release_def wake_next_def split: list.split)

lemma known_simps [simp]:
  "known (snd (reg_register i g)) = insert i (known g)" "known (snd (reg_cancel i g)) = known g"
  "known (reg_unregister i g) = known g - {i}"
  by (auto simp: known_def reg_register_def reg_cancel_def reg_unregister_def Let_def split: option.split if_splits)

text \<open>Who is present, from the lists alone.\<close>

lemma present_lists: "present limit s = set (sd_holding s @ gt_woken (get_semaphore limit s) @ gt_waiting (get_semaphore limit s))"
  by (auto simp: present_def)

lemma sched_okI:
  assumes "gate_ok limit (length h) g" and "apart h g" and "reg_wf c"
    and "known c = set (h @ gt_woken g @ gt_waiting g)"
  shows "sched_ok limit \<lparr>sd_gate = Some g, sd_holding = h, sd_cancel = c\<rparr>"
  using assms by (simp add: sched_ok_def get_semaphore_def present_lists)

lemma sched_ok_init: "sched_ok limit sched_init"
  by (simp add: sched_ok_def sched_init_def get_semaphore_def gate_ok_def apart_def present_def reg_init_def reg_wf_def known_def)

lemma arrive_ok:
  assumes "sched_ok limit s"
  shows "sched_ok limit (arrive limit i s)"
proof (cases "i \<in> present limit s")
  case False
  let ?g = "get_semaphore limit s"
  note ok = assms [unfolded sched_ok_def gate_ok_def apart_def]
  show ?thesis
  proof (cases "gate_locked ?g")
    case True
    have eq: "arrive limit i s = \<lparr>sd_gate = Some (?g\<lparr>gt_waiting := gt_waiting ?g @ [i]\<rparr>), sd_holding = sd_holding s,
        sd_cancel = snd (reg_register i (sd_cancel s))\<rparr>"
      using False True by (cases s) (simp add: arrive_def Let_def)
    show ?thesis
      unfolding eq using ok False True
      by (intro sched_okI) (auto simp: gate_ok_def apart_def present_lists gate_locked_def reg_wf_register)
  next
    case free: False
    have eq: "arrive limit i s = \<lparr>sd_gate = Some (?g\<lparr>gt_value := gt_value ?g - 1\<rparr>), sd_holding = i # sd_holding s,
        sd_cancel = snd (reg_register i (sd_cancel s))\<rparr>"
      using False free by (cases s) (simp add: arrive_def Let_def)
    show ?thesis
      unfolding eq using ok False free
      by (intro sched_okI) (auto simp: gate_ok_def apart_def present_lists gate_locked_def reg_wf_register)
  qed
qed (use assms in \<open>simp add: arrive_def Let_def\<close>)

text \<open>A gate whose waiters were woken as far as possible.\<close>

lemma wake_all_ok:
  assumes "gt_value g + length (gt_woken g) + held = limit"
  shows "gate_ok limit held (wake_all g)"
  using wake_all_facts [of g] assms by (auto simp: gate_ok_def)

lemma wake_all_names: "set (gt_woken (wake_all g)) \<union> set (gt_waiting (wake_all g)) = set (gt_woken g) \<union> set (gt_waiting g)"
  using wake_all_facts [of g] by (metis set_append)

lemma wake_all_apart: "apart held (wake_all g) = apart held g"
  using wake_all_facts [of g] by (simp add: apart_def)

lemma resume_ok:
  assumes "sched_ok limit s"
  shows "sched_ok limit (resume limit i s)"
proof (cases "i \<in> set (gt_woken (get_semaphore limit s))")
  case True
  let ?g = "get_semaphore limit s"
  let ?r = "?g\<lparr>gt_woken := remove1 i (gt_woken ?g)\<rparr>"
  note ok = assms [unfolded sched_ok_def gate_ok_def apart_def]
  have eq: "resume limit i s = \<lparr>sd_gate = Some (wake_all ?r), sd_holding = i # sd_holding s, sd_cancel = sd_cancel s\<rparr>"
    using True by (cases s) (simp add: resume_def Let_def)
  have len: "length (gt_woken ?g) = Suc (length (remove1 i (gt_woken ?g)))"
    using True by (simp add: length_remove1) (metis Suc_pred length_pos_if_in_set)
  have "gate_ok limit (length (i # sd_holding s)) (wake_all ?r)"
    by (rule wake_all_ok) (use ok len in simp)
  moreover have "apart (i # sd_holding s) ?r"
    using ok True by (auto simp: apart_def dest: notin_set_remove1 [rotated])
  moreover have "known (sd_cancel s) = set ((i # sd_holding s) @ gt_woken ?r @ gt_waiting ?r)"
    using ok True by (auto simp: present_lists)
  ultimately show ?thesis
    unfolding eq using ok by (intro sched_okI) (auto simp: wake_all_apart wake_all_names [of ?r, simplified])
qed (use assms in \<open>simp add: resume_def Let_def\<close>)

lemma leave_ok:
  assumes "sched_ok limit s"
  shows "sched_ok limit (leave limit i s)"
proof (cases "i \<in> set (sd_holding s)")
  case True
  let ?g = "get_semaphore limit s"
  note ok = assms [unfolded sched_ok_def gate_ok_def apart_def]
  have eq: "leave limit i s = \<lparr>sd_gate = Some (gate_release ?g), sd_holding = remove1 i (sd_holding s), sd_cancel = reg_unregister i (sd_cancel s)\<rparr>"
    using True by (cases s) (simp add: leave_def)
  have len: "length (sd_holding s) = Suc (length (remove1 i (sd_holding s)))"
    using True by (simp add: length_remove1) (metis Suc_pred length_pos_if_in_set)
  have "gate_ok limit (length (remove1 i (sd_holding s))) (gate_release ?g)"
    using ok len release_facts [of ?g] by (cases "gt_waiting ?g") (auto simp: gate_ok_def)
  moreover have "apart (remove1 i (sd_holding s)) (gate_release ?g)"
    using ok release_facts(2) [of ?g] by (auto simp: apart_def)
  moreover have "known (reg_unregister i (sd_cancel s)) = set (remove1 i (sd_holding s) @ gt_woken (gate_release ?g) @ gt_waiting (gate_release ?g))"
    using ok True release_facts(2) [of ?g] by (auto simp: present_lists)
  ultimately show ?thesis
    unfolding eq using ok by (intro sched_okI) (auto simp: reg_wf_unregister)
qed (use assms in \<open>simp add: leave_def\<close>)

lemma give_up_ok:
  assumes "sched_ok limit s"
  shows "sched_ok limit (give_up limit i s)"
proof -
  let ?g = "get_semaphore limit s"
  note ok = assms [unfolded sched_ok_def gate_ok_def apart_def]
  have step: "sched_ok limit \<lparr>sd_gate = Some (wake_all r), sd_holding = sd_holding s, sd_cancel = reg_unregister i (sd_cancel s)\<rparr>"
    if "gt_value r + length (gt_woken r) + length (sd_holding s) = limit" "apart (sd_holding s) r"
      "present limit s - {i} = set (sd_holding s @ gt_woken r @ gt_waiting r)" for r
    using that ok by (intro sched_okI) (auto simp: wake_all_ok wake_all_apart wake_all_names reg_wf_unregister)
  consider "i \<in> set (gt_woken ?g)" | "i \<notin> set (gt_woken ?g)" "i \<in> set (gt_waiting ?g)"
    | "i \<notin> set (gt_woken ?g)" "i \<notin> set (gt_waiting ?g)" by blast
  then show ?thesis
  proof cases
    case 1
    let ?r = "?g\<lparr>gt_value := Suc (gt_value ?g), gt_woken := remove1 i (gt_woken ?g)\<rparr>"
    have len: "length (gt_woken ?g) = Suc (length (remove1 i (gt_woken ?g)))"
      using 1 by (simp add: length_remove1) (metis Suc_pred length_pos_if_in_set)
    have "give_up limit i s = \<lparr>sd_gate = Some (wake_all ?r), sd_holding = sd_holding s, sd_cancel = reg_unregister i (sd_cancel s)\<rparr>"
      using 1 by (cases s) (simp add: give_up_def Let_def)
    then show ?thesis using step [of ?r] ok 1 len by (auto simp: apart_def present_lists)
  next
    case 2
    let ?r = "?g\<lparr>gt_waiting := remove1 i (gt_waiting ?g)\<rparr>"
    have "give_up limit i s = \<lparr>sd_gate = Some (wake_all ?r), sd_holding = sd_holding s, sd_cancel = reg_unregister i (sd_cancel s)\<rparr>"
      using 2 by (cases s) (simp add: give_up_def Let_def)
    then show ?thesis using step [of ?r] ok 2 by (auto simp: apart_def present_lists)
  next
    case 3
    then show ?thesis using assms by (simp add: give_up_def Let_def)
  qed
qed

interpretation scheduler: op_invariant "sched_step limit" "sched_ok limit" for limit
proof
  fix s x
  assume s: "sched_ok limit s"
  show "sched_ok limit (sched_step limit s x)"
  proof (cases x)
    case (CancelRequest i)
    have "sched_ok limit (s\<lparr>sd_cancel := snd (reg_cancel i (sd_cancel s))\<rparr>)"
      using s by (simp add: sched_ok_def get_semaphore_def present_def reg_wf_cancel)
    then show ?thesis using CancelRequest by simp
  qed (use s in \<open>simp_all add: arrive_ok resume_ok leave_ok give_up_ok\<close>)
qed

lemmas schedule_ok = scheduler.run_inv [OF sched_ok_init]



section \<open>Fairness\<close>

text \<open>How many wait before an invocation, and how often a slot is given back in a run.\<close>

definition ahead :: "string \<Rightarrow> string list \<Rightarrow> nat" where
  "ahead i q = length (takeWhile (\<lambda>j. j \<noteq> i) q)"

fun given_back :: "nat \<Rightarrow> sched \<Rightarrow> sched_op list \<Rightarrow> nat" where
  "given_back limit s [] = 0"
| "given_back limit s (x # xs) =
     (case x of Leave i \<Rightarrow> if i \<in> set (sd_holding s) then 1 else 0 | _ \<Rightarrow> 0) + given_back limit (sched_step limit s x) xs"

abbreviation queue :: "nat \<Rightarrow> sched \<Rightarrow> string list" where
  "queue limit s \<equiv> gt_waiting (get_semaphore limit s)"

lemma ahead_append: "i \<in> set q \<Longrightarrow> ahead i (q @ r) = ahead i q"
  by (induction q) (auto simp: ahead_def)

lemma ahead_Cons: "ahead i (j # q) = (if j = i then 0 else Suc (ahead i q))"
  by (simp add: ahead_def)

lemma ahead_drop: "distinct q \<Longrightarrow> i \<in> set (drop n q) \<Longrightarrow> ahead i (drop n q) \<le> ahead i q"
proof (induction q arbitrary: n)
  case (Cons j q)
  show ?case
  proof (cases n)
    case (Suc m)
    then have "i \<in> set (drop m q)" "j \<noteq> i" using Cons.prems by (auto dest: in_set_dropD)
    then show ?thesis using Cons.IH [of m] Cons.prems Suc by (simp add: ahead_Cons)
  qed simp
qed simp

lemma ahead_tl: "distinct q \<Longrightarrow> i \<in> set (tl q) \<Longrightarrow> Suc (ahead i (tl q)) = ahead i q"
  by (cases q) (auto simp: ahead_Cons)

lemma ahead_remove1: "i \<in> set (remove1 j q) \<Longrightarrow> distinct q \<Longrightarrow> ahead i (remove1 j q) \<le> ahead i q"
  by (induction q) (auto simp: ahead_Cons split: if_splits)

lemma queue_simps [simp]: "queue limit (s\<lparr>sd_gate := Some g, sd_holding := h\<rparr>) = gt_waiting g"
  "queue limit (s\<lparr>sd_gate := Some g\<rparr>) = gt_waiting g" "queue limit (s\<lparr>sd_cancel := c\<rparr>) = queue limit s"
  by (simp_all add: get_semaphore_def)

text \<open>One step: nobody overtakes, and every slot that is given back moves the queue on.\<close>

lemma step_ahead:
  assumes ok: "sched_ok limit s" and i: "i \<in> set (queue limit s)" "i \<in> set (queue limit (sched_step limit s x))"
  shows "ahead i (queue limit (sched_step limit s x)) + given_back limit s [x] \<le> ahead i (queue limit s)"
proof -
  let ?g = "get_semaphore limit s"
  have d: "distinct (gt_waiting ?g)" using ok by (simp add: sched_ok_def apart_def)
  have wake: "i \<in> set (gt_waiting (wake_all r)) \<Longrightarrow> distinct (gt_waiting r) \<Longrightarrow> ahead i (gt_waiting (wake_all r)) \<le> ahead i (gt_waiting r)" for r
    using wake_all_facts [of r] ahead_drop by metis
  show ?thesis
  proof (cases x)
    case (Arrive j)
    then show ?thesis using i(1) by (auto simp: arrive_def Let_def ahead_append get_semaphore_def)
  next
    case (Resume j)
    then show ?thesis using i wake [of "?g\<lparr>gt_woken := remove1 j (gt_woken ?g)\<rparr>"] d by (auto simp: resume_def Let_def split: if_splits)
  next
    case (Leave j)
    then show ?thesis
      using i ahead_tl [OF d] by (auto simp: leave_def release_facts(3) get_semaphore_def split: if_splits)
  next
    case (GiveUp j)
    show ?thesis
    proof (cases "j \<in> set (gt_woken ?g)")
      case True
      then show ?thesis
        using GiveUp i wake [of "?g\<lparr>gt_value := Suc (gt_value ?g), gt_woken := remove1 j (gt_woken ?g)\<rparr>"] d
        by (auto simp: give_up_def Let_def get_semaphore_def)
    next
      case False
      show ?thesis
      proof (cases "j \<in> set (gt_waiting ?g)")
        case True
        let ?r = "?g\<lparr>gt_waiting := remove1 j (gt_waiting ?g)\<rparr>"
        have q: "queue limit (sched_step limit s x) = gt_waiting (wake_all ?r)"
          using GiveUp False True by (simp add: give_up_def Let_def get_semaphore_def)
        then have r: "i \<in> set (gt_waiting (wake_all ?r))" using i(2) by simp
        then have "i \<in> set (gt_waiting ?r)" using wake_all_facts [of ?r] by (metis in_set_dropD)
        then have "ahead i (gt_waiting ?r) \<le> ahead i (gt_waiting ?g)" using ahead_remove1 [of i j] d by simp
        moreover have "ahead i (gt_waiting (wake_all ?r)) \<le> ahead i (gt_waiting ?r)" using wake [OF r] d by simp
        ultimately show ?thesis using q GiveUp by simp
      qed (use GiveUp False in \<open>simp add: give_up_def Let_def\<close>)
    qed
  qed simp
qed

lemma run_ahead:
  "sched_ok limit s \<Longrightarrow> \<forall>n \<le> length later. i \<in> set (queue limit (foldl (sched_step limit) s (take n later)))
     \<Longrightarrow> given_back limit s later \<le> ahead i (queue limit s)"
proof (induction later arbitrary: s)
  case (Cons x later)
  let ?s = "sched_step limit s x"
  have all: "i \<in> set (queue limit (foldl (sched_step limit) ?s (take n later)))" if "n \<le> length later" for n
    using Cons.prems(2) [rule_format, of "Suc n"] that by simp
  have "i \<in> set (queue limit s)" using Cons.prems(2) [rule_format, of 0] by simp
  from step_ahead [OF Cons.prems(1) this] all [of 0]
  have "ahead i (queue limit ?s) + given_back limit s [x] \<le> ahead i (queue limit s)" by simp
  moreover have "given_back limit ?s later \<le> ahead i (queue limit ?s)"
    by (rule Cons.IH) (use Cons.prems(1) all scheduler.step_inv in auto)
  ultimately show ?case by simp
qed simp

text \<open>C6.  Waiting is fair: an invocation that waits for a slot with \<open>n\<close> others before it waits no longer once slots have been given
back more than \<open>n\<close> times, whatever else arrives, resumes or is cancelled meanwhile.\<close>

theorem waiting_is_fair:
  assumes "s = foldl (sched_step limit) sched_init ops" and "ahead i (gt_waiting (get_semaphore limit s)) < given_back limit s later"
  shows "\<exists>n \<le> length later. i \<notin> set (gt_waiting (get_semaphore limit (foldl (sched_step limit) s (take n later))))"
  using run_ahead [of limit s later i] schedule_ok [of limit ops] assms by (meson not_le)

theorem waiting_is_fair_witness:
  "\<exists>n \<le> 2. ''c'' \<notin> set (gt_waiting (get_semaphore 1 (foldl (sched_step 1) (foldl (sched_step 1) sched_init
      [Arrive ''a'', Arrive ''b'', Arrive ''c'', Leave ''a'', Resume ''b'']) (take n [Arrive ''d'', Leave ''b'']))))"
proof -
  have "ahead ''c'' (gt_waiting (get_semaphore 1 (foldl (sched_step 1) sched_init
      [Arrive ''a'', Arrive ''b'', Arrive ''c'', Leave ''a'', Resume ''b''])))
    < given_back 1 (foldl (sched_step 1) sched_init [Arrive ''a'', Arrive ''b'', Arrive ''c'', Leave ''a'', Resume ''b'']) [Arrive ''d'', Leave ''b'']"
    by code_simp
  from waiting_is_fair [OF refl this] show ?thesis by (simp add: numeral_2_eq_2)
qed

end
