(* ===== verification/Device_Stream.thy ===== *)
theory Device_Stream
  imports Integrations
begin

text \<open>
  The forwarding of device events, \<open>stream_device_events\<close> of \<open>app/integrations/devices/client.py\<close>: a WebSocket to the
  devices service is read until a deadline, and what arrives is published for an invocation.  The socket is
  outside: opening it, each receive and closing it have their duration and outcome from the record \<open>ws_env\<close>.  A frame
  is its text.  The loop is a partial function; that it ends is \<open>device_stream_ends\<close>.
\<close>

section \<open>The loop\<close>

record ws_env =
  wv_connect :: "nat \<Rightarrow> string \<Rightarrow> seconds \<times> (exc + unit)"
  wv_recv :: "nat \<Rightarrow> seconds \<times> (exc + string)"
  wv_close :: "nat \<Rightarrow> seconds \<times> (exc + unit)"

text \<open>\<open>s.replace(old, new)\<close> for a nonempty \<open>old\<close>: the counter skips the rest of a match.\<close>

fun replace_go :: "string \<Rightarrow> string \<Rightarrow> nat \<Rightarrow> string \<Rightarrow> string" where
  "replace_go old new k [] = []"
| "replace_go old new (Suc k) (c # cs) = replace_go old new k cs"
| "replace_go old new 0 (c # cs) =
     (if startswith (c # cs) old then new @ replace_go old new (length old - 1) cs else c # replace_go old new 0 cs)"

definition events_url :: "backend_cfg \<Rightarrow> string \<Rightarrow> string" where
  "events_url cfg dev =
     replace_go ''https://'' ''wss://'' 0 (replace_go ''http://'' ''ws://'' 0 (bc_devices_url cfg))
     @ ''/internal/devices/'' @ dev @ ''/events''"

text \<open>\<open>{"device_id": device_id, **event}\<close>: a field \<open>device_id\<close> of the event takes the place of the given one.\<close>

definition device_event :: "string \<Rightarrow> jdict \<Rightarrow> event" where
  "device_event dev d =
     \<lparr>ev_type = ''device_event'', ev_data = JObj (fold (\<lambda>(k, v). dict_set k v) d [(''device_id'', JStr dev)]), ev_final = False\<rparr>"

definition forward_frame :: "string \<Rightarrow> string \<Rightarrow> string \<Rightarrow> ('w bus_world_scheme, exc, unit) pm" where
  "forward_frame dev iv raw w =
     (case loads raw of
        None \<Rightarrow> (Inl (Exc ValueErr ''malformed JSON''), w)
      | Some (JObj d) \<Rightarrow> (Inr (), emit_event iv (device_event dev d) w)
      | Some _ \<Rightarrow> (Inl (Exc TypeErr ''object is not a mapping''), w))"

definition receive :: "ws_env \<Rightarrow> ('w bus_world_scheme, exc, string) pm" where
  "receive env = wait_for 5 (\<lambda>w. net_op (NWebSocket ''recv'') (wv_recv env (net_tick w)) w)"

text \<open>One pass of the loop: \<open>Inr True\<close> is going on, \<open>Inr False\<close> the break.\<close>

definition stream_pass :: "ws_env \<Rightarrow> string \<Rightarrow> string \<Rightarrow> ('w bus_world_scheme, exc, bool) pm" where
  "stream_pass env dev iv =
     pm_catch (pm_bind (receive env) (\<lambda>raw. pm_then (forward_frame dev iv raw) (pm_return True)))
       (\<lambda>e. if is_timeout_exc e then pm_return True else if is_exception e then pm_return False else pm_raise e)"

partial_function (option) stream_loop ::
  "ws_env \<Rightarrow> string \<Rightarrow> string \<Rightarrow> seconds \<Rightarrow> 'w bus_world_scheme \<Rightarrow> ((exc + unit) \<times> 'w bus_world_scheme) option" where
  "stream_loop env dev iv deadline w =
     (if nw_now w < deadline then
        (case stream_pass env dev iv w of
           (r, w') \<Rightarrow>
             (case r of
                Inl e \<Rightarrow> Some (Inl e, w')
              | Inr go \<Rightarrow> if go then stream_loop env dev iv deadline w' else Some (Inr (), w')))
      else Some (Inr (), w))"

text \<open>Leaving \<open>async with\<close> closes the socket; what closing raises takes the place of how the body ended.\<close>

definition stream_device_events ::
  "ws_env \<Rightarrow> backend_cfg \<Rightarrow> string \<Rightarrow> string \<Rightarrow> seconds \<Rightarrow> 'w bus_world_scheme \<Rightarrow> ((exc + unit) \<times> 'w bus_world_scheme) option" where
  "stream_device_events env cfg dev iv timeout w =
     (let logged = (\<lambda>(r, w'). (case r of Inl e \<Rightarrow> if is_exception e then Inr () else Inl e | Inr u \<Rightarrow> Inr u, w')) in
      case net_op (NWebSocket ''connect'') (wv_connect env (net_tick w) (events_url cfg dev)) w of
        (Inl e, w1) \<Rightarrow> Some (logged (Inl e, w1))
      | (Inr _, w1) \<Rightarrow>
          map_option
            (\<lambda>(r, w2). logged
               (case net_op (NWebSocket ''close'') (wv_close env (net_tick w2)) w2 of
                  (Inl e, w3) \<Rightarrow> (Inl e, w3)
                | (Inr _, w3) \<Rightarrow> (r, w3)))
            (stream_loop env dev iv (nw_now w1 + timeout) w1))"

section \<open>Properties\<close>

lemma receive_eq:
  assumes "nw_deadlines w = []" and "0 \<le> fst (wv_recv env (net_tick w))"
  shows "receive env w =
     (if 5 < fst (wv_recv env (net_tick w)) then Inl timeout_exc else snd (wv_recv env (net_tick w)),
      w\<lparr>nw_log := nw_log w @ [NWebSocket ''recv''], nw_now := nw_now w + min 5 (fst (wv_recv env (net_tick w)))\<rparr>)"
proof -
  have "w\<lparr>nw_deadlines := []\<rparr> = w" using assms(1) by (cases w) simp
  then show ?thesis
    using assms by (simp add: receive_def wait_for_def net_op_def net_tick_def Let_def split: sum.split)
qed

text \<open>What a computation does that forwards frames: the deadlines stay, the time passes, events are added.\<close>

definition forwards :: "string \<Rightarrow> string \<Rightarrow> 'w bus_world_scheme \<Rightarrow> 'w bus_world_scheme \<Rightarrow> bool" where
  "forwards dev iv w w' \<longleftrightarrow> nw_deadlines w' = [] \<and> (\<exists>ds. bw_events w' = bw_events w @ map (\<lambda>d. (iv, device_event dev d)) ds)"

lemma forwards_refl: "nw_deadlines w = [] \<Longrightarrow> forwards dev iv w w"
  unfolding forwards_def by (simp add: exI [of _ "[]"])

lemma forwards_trans: "forwards dev iv w w' \<Longrightarrow> forwards dev iv w' w'' \<Longrightarrow> forwards dev iv w w''"
  unfolding forwards_def by (metis append.assoc map_append)

lemma forward_frame_forwards:
  assumes "nw_deadlines w = []"
  shows "forwards dev iv w (snd (forward_frame dev iv raw w)) \<and> nw_now (snd (forward_frame dev iv raw w)) = nw_now w
     \<and> (\<forall>e. fst (forward_frame dev iv raw w) = Inl e \<longrightarrow> is_exception e)"
proof -
  have 1: "forwards dev iv w (emit_event iv (device_event dev d) w)" for d
    unfolding forwards_def using assms by (auto simp: emit_event_def intro: exI [of _ "[d]"])
  show ?thesis
    using assms 1 by (auto simp: forward_frame_def forwards_refl is_exception_iff split: option.split json.split)
      (simp_all add: emit_event_def)
qed

lemma stream_pass_step:
  assumes dl: "nw_deadlines w = []" and d: "0 < \<delta>" "\<delta> \<le> fst (wv_recv env (net_tick w))"
    and p: "stream_pass env dev iv w = (r, w')"
  shows "forwards dev iv w w'" "nw_now w + min 5 \<delta> \<le> nw_now w'" "nw_now w' \<le> nw_now w + 5"
    "r = Inl e \<Longrightarrow> \<not> is_exception e"
proof -
  let ?R = "wv_recv env (net_tick w)"
  define w1 where "w1 = w\<lparr>nw_log := nw_log w @ [NWebSocket ''recv''], nw_now := nw_now w + min 5 (fst ?R)\<rparr>"
  have rc: "receive env w = (if 5 < fst ?R then Inl timeout_exc else snd ?R, w1)"
    using receive_eq [of w env] dl d by (simp add: w1_def)
  have w1: "nw_deadlines w1 = []" "nw_now w1 = nw_now w + min 5 (fst ?R)" "bw_events w1 = bw_events w"
    using dl by (simp_all add: w1_def)
  have f1: "forwards dev iv w w1" using w1 by (simp add: forwards_def exI [of _ "[]"])
  have "snd (stream_pass env dev iv w) = (case fst (receive env w) of Inl _ \<Rightarrow> w1 | Inr raw \<Rightarrow> snd (forward_frame dev iv raw w1))"
    using rc by (cases "fst (receive env w)") (auto simp: stream_pass_def pm_defs split: sum.split prod.split)
  then have "w' = w1 \<or> (\<exists>raw. w' = snd (forward_frame dev iv raw w1))"
    using p by (cases "fst (receive env w)") auto
  then have "forwards dev iv w w' \<and> nw_now w' = nw_now w1"
    using f1 forward_frame_forwards [OF w1(1)] forwards_trans [OF f1] by auto
  then show "forwards dev iv w w'" "nw_now w + min 5 \<delta> \<le> nw_now w'" "nw_now w' \<le> nw_now w + 5"
    using w1(2) d(2) by auto
  show "r = Inl e \<Longrightarrow> \<not> is_exception e"
    using p by (auto simp: stream_pass_def pm_defs split: sum.splits prod.splits if_splits)
qed

lemma stream_loop_ends:
  assumes "\<And>n. \<delta> \<le> fst (wv_recv env n)" and "0 < \<delta>"
  shows "nw_deadlines w = [] \<Longrightarrow> deadline - nw_now w \<le> of_nat n * min 5 \<delta> \<Longrightarrow>
     \<exists>r w'. stream_loop env dev iv deadline w = Some (r, w') \<and> forwards dev iv w w'
       \<and> nw_now w \<le> nw_now w' \<and> nw_now w' \<le> max (nw_now w) (deadline + 5) \<and> (\<forall>e. r = Inl e \<longrightarrow> \<not> is_exception e)"
proof (induction n arbitrary: w)
  case 0
  then have "\<not> nw_now w < deadline" by simp
  then have "stream_loop env dev iv deadline w = Some (Inr (), w)" by (subst stream_loop.simps) simp
  then show ?case using 0 by (simp add: forwards_refl)
next
  case (Suc n)
  show ?case
  proof (cases "nw_now w < deadline")
    case False
    then have "stream_loop env dev iv deadline w = Some (Inr (), w)" by (subst stream_loop.simps) simp
    then show ?thesis using Suc.prems by (simp add: forwards_refl)
  next
    case True
    obtain r w' where p: "stream_pass env dev iv w = (r, w')" by (cases "stream_pass env dev iv w")
    note st = stream_pass_step [OF Suc.prems(1) assms(2) assms(1) p]
    have eq: "stream_loop env dev iv deadline w =
        (case r of Inl e \<Rightarrow> Some (Inl e, w') | Inr go \<Rightarrow> if go then stream_loop env dev iv deadline w' else Some (Inr (), w'))"
      using True p by (subst stream_loop.simps) simp
    have le: "nw_now w \<le> nw_now w'" using st(2) assms(2) by (simp add: min_def split: if_splits)
    show ?thesis
    proof (cases "r = Inr True")
      case False
      then have "\<exists>r'. stream_loop env dev iv deadline w = Some (r', w') \<and> (\<forall>e. r' = Inl e \<longrightarrow> \<not> is_exception e)"
        using eq st(4) by (cases r) auto
      then show ?thesis using st(1, 3) le True by (auto simp: max_def)
    next
      case go: True
      have "nw_deadlines w' = []" using st(1) by (simp add: forwards_def)
      moreover have "deadline - nw_now w' \<le> of_nat n * min 5 \<delta>"
        using Suc.prems(2) st(2) by (simp add: algebra_simps)
      ultimately obtain r'' w'' where "stream_loop env dev iv deadline w' = Some (r'', w'')" "forwards dev iv w' w''"
        "nw_now w' \<le> nw_now w''" "nw_now w'' \<le> max (nw_now w') (deadline + 5)" "\<forall>e. r'' = Inl e \<longrightarrow> \<not> is_exception e"
        using Suc.IH [of w'] by blast
      moreover have "max (nw_now w') (deadline + 5) \<le> max (nw_now w) (deadline + 5)" using st(3) True by (simp add: max_def)
      ultimately show ?thesis
        using eq go forwards_trans [OF st(1)] le by (intro exI [of _ r''] exI [of _ w'']) auto
    qed
  qed
qed

text \<open>
  Forwarding always ends, at most five seconds after its deadline and the time closing takes, if receiving a frame takes
  at least some \<open>\<delta>\<close>.  It raises nothing but a cancellation or the like, and what it publishes are events of the
  invocation that are not final: no device can end the stream of an invocation.
\<close>

theorem device_stream_ends:
  assumes "\<And>n. \<delta> \<le> fst (wv_recv env n)" and "0 < \<delta>" and "nw_deadlines w = []" and "0 \<le> timeout"
    and "\<And>n u. 0 \<le> fst (wv_connect env n u) \<and> fst (wv_connect env n u) \<le> c" and "\<And>n. 0 \<le> fst (wv_close env n) \<and> fst (wv_close env n) \<le> cl"
  shows "\<exists>r w'. stream_device_events env cfg dev iv timeout w = Some (r, w') \<and> (\<forall>e. r = Inl e \<longrightarrow> \<not> is_exception e)
     \<and> nw_now w' \<le> nw_now w + c + timeout + 5 + cl
     \<and> (\<exists>ds. bw_events w' = bw_events w @ map (\<lambda>d. (iv, device_event dev d)) ds)"
proof -
  let ?C = "wv_connect env (net_tick w) (events_url cfg dev)"
  define w1 where "w1 = w\<lparr>nw_log := nw_log w @ [NWebSocket ''connect''], nw_now := nw_now w + fst ?C\<rparr>"
  have op: "net_op (NWebSocket ''connect'') ?C w = (snd ?C, w1)"
    using assms(3) by (simp add: net_op_def w1_def Let_def)
  have w1: "nw_deadlines w1 = []" "nw_now w1 \<le> nw_now w + c" "bw_events w1 = bw_events w"
    using assms(3, 5) by (simp_all add: w1_def)
  show ?thesis
  proof (cases "snd ?C")
    case (Inl e)
    then have "stream_device_events env cfg dev iv timeout w = Some (if is_exception e then Inr () else Inl e, w1)"
      using op by (simp add: stream_device_events_def)
    moreover have "0 \<le> cl" using assms(6) [of 0] by linarith
    ultimately show ?thesis using w1 assms(4) by (auto intro!: exI [of _ "[]"])
  next
    case (Inr u)
    obtain n where "timeout \<le> of_nat n * min 5 \<delta>"
      using reals_Archimedean3 assms(2) ex_less_of_nat_mult [of "min 5 \<delta>" timeout] by (auto intro: less_imp_le)
    then obtain r w2 where l: "stream_loop env dev iv (nw_now w1 + timeout) w1 = Some (r, w2)" "forwards dev iv w1 w2"
      "nw_now w2 \<le> nw_now w1 + timeout + 5" "\<forall>e. r = Inl e \<longrightarrow> \<not> is_exception e"
      using stream_loop_ends [OF assms(1, 2) w1(1), of "nw_now w1 + timeout" n dev iv] assms(4) by (auto simp: max_def)
    let ?L = "wv_close env (net_tick w2)"
    define w3 where "w3 = w2\<lparr>nw_log := nw_log w2 @ [NWebSocket ''close''], nw_now := nw_now w2 + fst ?L\<rparr>"
    have "net_op (NWebSocket ''close'') ?L w2 = (snd ?L, w3)"
      using l(2) by (simp add: net_op_def w3_def Let_def forwards_def)
    then have "\<exists>r'. stream_device_events env cfg dev iv timeout w = Some (r', w3) \<and> (\<forall>e. r' = Inl e \<longrightarrow> \<not> is_exception e)"
      using op Inr l(1, 4) by (auto simp: stream_device_events_def split: sum.split)
    moreover have "nw_now w3 \<le> nw_now w + c + timeout + 5 + cl"
      using l(3) w1(2) assms(6) [of "net_tick w2"] by (simp add: w3_def)
    moreover have "\<exists>ds. bw_events w3 = bw_events w @ map (\<lambda>d. (iv, device_event dev d)) ds"
      using l(2) w1(3) by (simp add: forwards_def w3_def)
    ultimately show ?thesis by blast
  qed
qed

text \<open>The device named in a forwarded event is whatever the frame says.\<close>

lemma device_event_impersonation:
  "ev_data (device_event ''d1'' [(''device_id'', JStr ''d2'')]) = JObj [(''device_id'', JStr ''d2'')]"
  by (simp add: device_event_def)

end
