(* ===== verification/Stream_Manager.thy ===== *)
theory Stream_Manager
  imports Py_Prelude
begin

text \<open>
  The WebSocket bookkeeping of \<open>app/core/streaming/stream_manager.py\<close>.  A socket is a number, a set of
  sockets a list without duplicates.  Both maps are \<open>defaultdict(set)\<close>: subscripting a missing key
  stores an empty set under it (\<open>dd_touch\<close>), which \<open>.get\<close> does not.  Whether sending to a socket
  succeeds is the argument \<open>alive\<close>; a send that succeeds is recorded in the returned list.
\<close>

record streams =
  connections :: "(string, nat list) dict"
  invocation_waiters :: "(string, nat list) dict"

definition streams_init :: streams where
  "streams_init = \<lparr>connections = [], invocation_waiters = []\<rparr>"

type_synonym sockets = "(string, nat list) dict"

definition dd_at :: "sockets \<Rightarrow> string \<Rightarrow> nat list" where
  "dd_at d k = dict_get_or d k []"

definition dd_add :: "string \<Rightarrow> nat \<Rightarrow> sockets \<Rightarrow> sockets" where
  "dd_add k ws d = dict_set k (List.insert ws (dd_at d k)) d"

definition dd_discard :: "string \<Rightarrow> nat \<Rightarrow> sockets \<Rightarrow> sockets" where
  "dd_discard k ws d = dict_set k (removeAll ws (dd_at d k)) d"

definition sm_connect :: "nat \<Rightarrow> string \<Rightarrow> streams \<Rightarrow> streams" where
  "sm_connect ws org s = s\<lparr>connections := dd_add org ws (connections s)\<rparr>"

definition sm_disconnect :: "nat \<Rightarrow> string \<Rightarrow> streams \<Rightarrow> streams" where
  "sm_disconnect ws org s =
     (let c1 = dd_discard org ws (connections s);
          c2 = (if dd_at c1 org = [] then dict_pop org c1 else c1)
      in s\<lparr>connections := c2,
           invocation_waiters := map (\<lambda>(i, w). (i, removeAll ws w)) (invocation_waiters s)\<rparr>)"

definition sm_subscribe_invocation :: "nat \<Rightarrow> string \<Rightarrow> streams \<Rightarrow> streams" where
  "sm_subscribe_invocation ws i s = s\<lparr>invocation_waiters := dd_add i ws (invocation_waiters s)\<rparr>"

definition sm_unsubscribe_invocation :: "nat \<Rightarrow> string \<Rightarrow> streams \<Rightarrow> streams" where
  "sm_unsubscribe_invocation ws i s = s\<lparr>invocation_waiters := dd_discard i ws (invocation_waiters s)\<rparr>"

definition sm_send_to_waiters ::
  "(nat \<Rightarrow> bool) \<Rightarrow> string \<Rightarrow> string \<Rightarrow> streams \<Rightarrow> (nat \<times> string) list \<times> streams" where
  "sm_send_to_waiters alive i payload s =
     (let waiters = dd_at (invocation_waiters s) i;
          dead = filter (\<lambda>ws. \<not> alive ws) waiters
      in (map (\<lambda>ws. (ws, payload)) (filter alive waiters),
          s\<lparr>invocation_waiters := fold (dd_discard i) dead (invocation_waiters s)\<rparr>))"

definition sm_broadcast ::
  "(nat \<Rightarrow> bool) \<Rightarrow> string \<Rightarrow> string \<Rightarrow> streams \<Rightarrow> (nat \<times> string) list \<times> streams" where
  "sm_broadcast alive org payload s =
     (let conns = dd_at (connections s) org;
          dead = filter (\<lambda>ws. \<not> alive ws) conns
      in (map (\<lambda>ws. (ws, payload)) (filter alive conns),
          s\<lparr>connections := fold (dd_discard org) dead (connections s)\<rparr>))"

definition connection_count :: "streams \<Rightarrow> nat" where
  "connection_count s = sum_list (map (length \<circ> snd) (connections s))"

datatype stream_op =
    Connect nat string | Disconnect nat string | SubInv nat string | UnsubInv nat string
  | SendWaiters "nat \<Rightarrow> bool" string string | Broadcast "nat \<Rightarrow> bool" string string

fun stream_step :: "streams \<Rightarrow> stream_op \<Rightarrow> streams" where
  "stream_step s (Connect ws org) = sm_connect ws org s"
| "stream_step s (Disconnect ws org) = sm_disconnect ws org s"
| "stream_step s (SubInv ws i) = sm_subscribe_invocation ws i s"
| "stream_step s (UnsubInv ws i) = sm_unsubscribe_invocation ws i s"
| "stream_step s (SendWaiters alive i p) = snd (sm_send_to_waiters alive i p s)"
| "stream_step s (Broadcast alive org p) = snd (sm_broadcast alive org p s)"

section \<open>Well-formedness\<close>

definition dd_wf :: "sockets \<Rightarrow> bool" where
  "dd_wf d \<longleftrightarrow> dict_wf d \<and> (\<forall>k. distinct (dd_at d k))"

definition streams_wf :: "streams \<Rightarrow> bool" where
  "streams_wf s \<longleftrightarrow> dd_wf (connections s) \<and> dd_wf (invocation_waiters s)"

lemma dd_at_add: "dd_at (dd_add k ws d) k' = (if k' = k then List.insert ws (dd_at d k) else dd_at d k')"
  by (simp add: dd_add_def dd_at_def dict_get_or_def)

lemma dd_at_discard: "dd_at (dd_discard k ws d) k' = (if k' = k then removeAll ws (dd_at d k) else dd_at d k')"
  by (simp add: dd_discard_def dd_at_def dict_get_or_def)

lemma dd_at_pop: "dd_at (dict_pop k d) k' = (if k' = k then [] else dd_at d k')"
  by (simp add: dd_at_def dict_get_or_def)

lemma dd_at_map: "dd_at (map (\<lambda>(i, w). (i, f w)) d) k = (if dict_get d k = None then [] else f (dd_at d k))"
  by (induction d) (auto simp: dd_at_def dict_get_or_def)

lemma dd_at_map_remove: "dd_at (map (\<lambda>(i, w). (i, removeAll ws w)) d) k = removeAll ws (dd_at d k)"
  by (simp add: dd_at_map) (simp add: dd_at_def dict_get_or_def)

lemma dd_wf_ops [simp]:
  assumes "dd_wf d"
  shows "dd_wf (dd_add k ws d)" "dd_wf (dd_discard k ws d)" "dd_wf (dict_pop k d)"
    "dd_wf (map (\<lambda>(i, w). (i, removeAll ws w)) d)"
proof -
  show "dd_wf (dd_add k ws d)" "dd_wf (dd_discard k ws d)" "dd_wf (dict_pop k d)"
    using assms unfolding dd_wf_def dd_at_add dd_at_discard dd_at_pop
    by (auto simp: dd_add_def dd_discard_def distinct_removeAll)
  have "map fst (map (\<lambda>(i, w). (i, removeAll ws w)) d) = map fst d"
    by (simp add: case_prod_beta)
  then show "dd_wf (map (\<lambda>(i, w). (i, removeAll ws w)) d)"
    using assms unfolding dd_wf_def dd_at_map_remove dict_wf_def
    by (simp only: distinct_removeAll simp_thms)
qed

lemma dd_fold_discard:
  "dd_wf d \<Longrightarrow> dd_wf (fold (dd_discard k) wss d) \<and>
   dd_at (fold (dd_discard k) wss d) k' =
     (if k' = k then filter (\<lambda>w. w \<notin> set wss) (dd_at d k) else dd_at d k')"
  by (induction wss arbitrary: d) (auto simp: dd_at_discard removeAll_filter_not_eq intro: filter_cong)

interpretation stream_ops: op_invariant stream_step streams_wf
proof
  fix s x
  assume w: "streams_wf s"
  then show "streams_wf (stream_step s x)"
    using dd_fold_discard
    by (cases x) (simp_all add: streams_wf_def sm_connect_def sm_disconnect_def sm_subscribe_invocation_def
        sm_unsubscribe_invocation_def sm_send_to_waiters_def sm_broadcast_def Let_def)
qed

lemma streams_wf_init [simp]: "streams_wf streams_init"
  by (simp add: streams_wf_def streams_init_def dd_wf_def dd_at_def dict_get_or_def)

section \<open>Delivery\<close>

text \<open>C17.  In every state reached from start-up, a broadcast to an organisation is received exactly once
by each of its connected sockets that is alive and by no other socket; afterwards the organisation's set
holds exactly its live sockets and no other organisation's set has changed.\<close>

theorem broadcast_exact:
  assumes "s = foldl stream_step streams_init ops" and "sm_broadcast alive org payload s = (sent, s')"
  shows "distinct sent
    \<and> set sent = {(ws, payload) | ws. ws \<in> set (dd_at (connections s) org) \<and> alive ws}
    \<and> (\<forall>k. set (dd_at (connections s') k) =
          (if k = org then {ws \<in> set (dd_at (connections s) org). alive ws} else set (dd_at (connections s) k)))
    \<and> invocation_waiters s' = invocation_waiters s"
proof -
  have w: "dd_wf (connections s)"
    using assms(1) stream_ops.run_inv [OF streams_wf_init, of ops] by (simp add: streams_wf_def)
  let ?dead = "filter (\<lambda>ws. \<not> alive ws) (dd_at (connections s) org)"
  have sent: "sent = map (\<lambda>ws. (ws, payload)) (filter alive (dd_at (connections s) org))"
    and s': "s' = s\<lparr>connections := fold (dd_discard org) ?dead (connections s)\<rparr>"
    using assms(2) by (auto simp: sm_broadcast_def Let_def)
  have "distinct sent"
    using w unfolding sent by (auto simp: distinct_map dd_wf_def inj_on_def)
  then show ?thesis
    using dd_fold_discard [OF w, of org ?dead] unfolding s' by (auto simp: sent)
qed

theorem broadcast_exact_witness:
  "set (fst (sm_broadcast (\<lambda>ws. ws \<noteq> 2) ''o'' ''m''
      (foldl stream_step streams_init [Connect 1 ''o'', Connect 2 ''o'', Connect 3 ''p''])))
   = {(1, ''m'')}"
  using broadcast_exact [OF refl prod.collapse [symmetric], of "\<lambda>ws. ws \<noteq> 2" "''o''" "''m''"
      "[Connect 1 ''o'', Connect 2 ''o'', Connect 3 ''p'']"]
  by (auto simp: sm_connect_def streams_init_def dd_add_def dd_at_def dict_get_or_def List.insert_def)

lemma disconnect_connections:
  "set (dd_at (connections (sm_disconnect ws org s)) k) =
     set (dd_at (connections s) k) - (if k = org then {ws} else {})"
proof (cases "removeAll ws (dd_at (connections s) org) = []")
  case True
  then have "set (dd_at (connections s) org) - {ws} = {}" by (metis empty_set set_removeAll)
  with True show ?thesis by (simp add: sm_disconnect_def Let_def dd_at_discard dd_at_pop)
next
  case False
  then show ?thesis by (simp add: sm_disconnect_def Let_def dd_at_discard)
qed

lemma dd_keys:
  "fst ` set d \<subseteq> fst ` set (dd_discard k w d)" "fst ` set d \<subseteq> fst ` set (dd_add k w d)"
  unfolding dd_discard_def dd_add_def
  by (metis dict_keys_set Un_upper1 order_refl set_append list.set_map)+

lemma dd_keys_fold: "fst ` set d \<subseteq> fst ` set (fold (dd_discard k) wss d)"
proof (induction wss arbitrary: d)
  case (Cons w wss)
  show ?case using dd_keys(1) [of d k w] Cons [of "dd_discard k w d"] by auto
qed simp

lemma waiters_keys_grow:
  "fst ` set (invocation_waiters s) \<subseteq> fst ` set (invocation_waiters (stream_step s x))"
proof (cases x)
  case (Disconnect w o')
  then show ?thesis by (simp add: sm_disconnect_def Let_def image_image case_prod_beta)
qed (use dd_keys dd_keys_fold in \<open>simp_all add: sm_connect_def sm_subscribe_invocation_def
    sm_unsubscribe_invocation_def sm_send_to_waiters_def sm_broadcast_def Let_def\<close>)

text \<open>Disconnecting a socket removes it from its organisation and from every invocation it waits
for, leaves every other socket where it was, and drops the organisation's entry when it was the last;
the entries of the invocations, in contrast, are never dropped by any operation.\<close>

lemma disconnect_removes:
  "(\<forall>k. set (dd_at (connections (sm_disconnect ws org s)) k)
        = set (dd_at (connections s) k) - (if k = org then {ws} else {}))
   \<and> (\<forall>i. set (dd_at (invocation_waiters (sm_disconnect ws org s)) i)
        = set (dd_at (invocation_waiters s) i) - {ws})
   \<and> dict_get (connections (sm_disconnect ws org s)) org \<noteq> Some []
   \<and> fst ` set (invocation_waiters s) \<subseteq> fst ` set (invocation_waiters (stream_step s x))"
proof (intro conjI allI)
  show "dict_get (connections (sm_disconnect ws org s)) org \<noteq> Some []"
    by (simp add: sm_disconnect_def Let_def dd_at_discard) (simp add: dd_discard_def)
qed (rule disconnect_connections waiters_keys_grow |
     simp add: sm_disconnect_def Let_def dd_at_map_remove)+

end
