(* ===== verification/App_World.thy ===== *)
theory App_World
  imports Execution_Outcome Stream_Manager
begin

text \<open>
  The state of one process as the request handlers see it: beside the world of the execution service it
  holds the live server connections of \<open>app/core/lifecycle/server_manager.py\<close>, the WebSocket registries and
  the state of the request's database session.  Handlers share the clock, the network, the database and
  Redis with the execution service.

  A database transaction, the statements up to a \<open>commit\<close>, is one operation: either all of it is stored or
  it raises and nothing is.  The script \<open>ew_faults\<close> gives the transactions that raise for a reason outside
  the service.  A session in which a statement has raised refuses every further one until it is rolled back
  (\<open>ap_aborted\<close>); \<open>with_session\<close>, the dependency \<open>get_db\<close> of \<open>app/db/database.py\<close>, rolls back at the end of
  the request.  Likewise \<open>ap_redis_faults\<close> gives the Redis operations that raise.
\<close>

record app_env =
  ae_exec :: exec_env
  ae_new_id :: "nat \<Rightarrow> uuid"
  ae_iso :: "seconds \<Rightarrow> string"
  ae_ms :: "seconds \<Rightarrow> json"

record app_world =
  ap_exec :: exec_world
  ap_ids :: nat
  ap_active :: "(string, wrapper) dict"
  ap_streams :: streams
  ap_aborted :: bool
  ap_redis_faults :: "exc option list"

abbreviation ae_net :: "app_env \<Rightarrow> net_env" where
  "ae_net env \<equiv> re_net (xe_router (ae_exec env))"

abbreviation ap_db :: "app_world \<Rightarrow> database" where
  "ap_db w \<equiv> ew_db (ap_exec w)"

abbreviation ap_now :: "app_world \<Rightarrow> seconds" where
  "ap_now w \<equiv> nw_now (ap_exec w)"

abbreviation ap_redis :: "app_world \<Rightarrow> redis" where
  "ap_redis w \<equiv> bw_redis (ap_exec w)"

section \<open>Access to the parts\<close>

definition on_exec :: "(exec_world, exc, 'a) pm \<Rightarrow> (app_world, exc, 'a) pm" where
  "on_exec m w = (case m (ap_exec w) of (r, x) \<Rightarrow> (r, w\<lparr>ap_exec := x\<rparr>))"

definition set_db :: "database \<Rightarrow> app_world \<Rightarrow> app_world" where
  "set_db d w = w\<lparr>ap_exec := (ap_exec w)\<lparr>ew_db := d\<rparr>\<rparr>"

definition aborted_exc :: exc where
  "aborted_exc = Exc (OtherErr ''PendingRollbackError'') ''the transaction has to be rolled back first''"

text \<open>One transaction; its body may itself raise, for a violated constraint.\<close>

definition set_faults :: "exc option list \<Rightarrow> app_world \<Rightarrow> app_world" where
  "set_faults fs w = w\<lparr>ap_exec := (ap_exec w)\<lparr>ew_faults := fs\<rparr>\<rparr>"

definition transact :: "(database \<Rightarrow> exc + 'a \<times> database) \<Rightarrow> (app_world, exc, 'a) pm" where
  "transact f w =
     (case f (ap_db w) of
        Inl e \<Rightarrow> (Inl e, w\<lparr>ap_aborted := True\<rparr>)
      | Inr (x, d) \<Rightarrow> (Inr x, set_db d w))"

definition sql_run :: "(database \<Rightarrow> exc + 'a \<times> database) \<Rightarrow> (app_world, exc, 'a) pm" where
  "sql_run f w =
     (if ap_aborted w then (Inl aborted_exc, w)
      else
        (case ew_faults (ap_exec w) of
           [] \<Rightarrow> transact f w
         | None # fs \<Rightarrow> transact f (set_faults fs w)
         | Some e # fs \<Rightarrow> (Inl e, (set_faults fs w)\<lparr>ap_aborted := True\<rparr>)))"

definition sql :: "(database \<Rightarrow> database) \<Rightarrow> (app_world, exc, unit) pm" where
  "sql f = sql_run (\<lambda>d. Inr ((), f d))"

definition sql_query :: "(database \<Rightarrow> 'a) \<Rightarrow> (app_world, exc, 'a) pm" where
  "sql_query f = sql_run (\<lambda>d. Inr (f d, d))"

definition with_session :: "(app_world, exc, 'a) pm \<Rightarrow> (app_world, exc, 'a) pm" where
  "with_session m = pm_finally m (\<lambda>w. w\<lparr>ap_aborted := False\<rparr>)"

definition fresh_id :: "app_env \<Rightarrow> (app_world, exc, uuid) pm" where
  "fresh_id env w = (Inr (ae_new_id env (ap_ids w)), w\<lparr>ap_ids := Suc (ap_ids w)\<rparr>)"

text \<open>One Redis operation at the current time.\<close>

definition set_redis :: "redis \<Rightarrow> app_world \<Rightarrow> app_world" where
  "set_redis r w = w\<lparr>ap_exec := (ap_exec w)\<lparr>bw_redis := r\<rparr>\<rparr>"

definition redis_call :: "(seconds \<Rightarrow> redis \<Rightarrow> 'a \<times> redis) \<Rightarrow> (app_world, exc, 'a) pm" where
  "redis_call f w = (case f (ap_now w) (ap_redis w) of (x, r) \<Rightarrow> (Inr x, set_redis r w))"

definition redis_do :: "(seconds \<Rightarrow> redis \<Rightarrow> 'a \<times> redis) \<Rightarrow> (app_world, exc, 'a) pm" where
  "redis_do f w =
     (case ap_redis_faults w of
        [] \<Rightarrow> redis_call f w
      | None # fs \<Rightarrow> redis_call f (w\<lparr>ap_redis_faults := fs\<rparr>)
      | Some e # fs \<Rightarrow> (Inl e, w\<lparr>ap_redis_faults := fs\<rparr>))"

definition app_cache_set :: "string \<Rightarrow> json \<Rightarrow> int option \<Rightarrow> (app_world, exc, unit) pm" where
  "app_cache_set k v ttl = redis_do (\<lambda>now r. ((), cache_set now k v ttl r))"

definition app_cache_get :: "string \<Rightarrow> (app_world, exc, json) pm" where
  "app_cache_get k = redis_do (\<lambda>now r. cache_get now k r)"

definition app_cache_delete :: "string \<Rightarrow> (app_world, exc, unit) pm" where
  "app_cache_delete k = redis_do (\<lambda>now r. ((), cache_delete k r))"

section \<open>A process without faults\<close>

definition calm :: "app_world \<Rightarrow> bool" where
  "calm w \<longleftrightarrow> ew_faults (ap_exec w) = [] \<and> \<not> ap_aborted w \<and> ap_redis_faults w = []"

lemma sql_run_calm: "calm w \<Longrightarrow> sql_run f w = transact f w"
  by (simp add: sql_run_def calm_def)

lemma sql_calm: "calm w \<Longrightarrow> sql f w = (Inr (), set_db (f (ap_db w)) w)"
  by (simp add: sql_def sql_run_calm transact_def)

lemma set_db_id [simp]: "set_db (ap_db w) w = w"
  by (simp add: set_db_def)

lemma sql_query_calm: "calm w \<Longrightarrow> sql_query f w = (Inr (f (ap_db w)), w)"
  by (simp add: sql_query_def sql_run_calm transact_def)

lemma redis_do_calm: "calm w \<Longrightarrow> redis_do f w = redis_call f w"
  by (simp add: redis_do_def calm_def)

lemma app_cache_set_calm: "calm w \<Longrightarrow> app_cache_set k v ttl w = (Inr (), set_redis (cache_set (ap_now w) k v ttl (ap_redis w)) w)"
  by (simp add: app_cache_set_def redis_do_calm redis_call_def)

lemma app_cache_delete_calm: "calm w \<Longrightarrow> app_cache_delete k w = (Inr (), set_redis (cache_delete k (ap_redis w)) w)"
  by (simp add: app_cache_delete_def redis_do_calm redis_call_def)

lemma app_cache_get_calm:
  "calm w \<Longrightarrow> app_cache_get k w = (Inr (fst (cache_get (ap_now w) k (ap_redis w))), set_redis (snd (cache_get (ap_now w) k (ap_redis w))) w)"
  by (simp add: app_cache_get_def redis_do_calm redis_call_def case_prod_beta)

lemmas calm_ops = sql_calm sql_query_calm app_cache_set_calm app_cache_get_calm app_cache_delete_calm

lemma calm_updates [simp]:
  "calm (set_db d w) = calm w" "calm (w\<lparr>ap_ids := n\<rparr>) = calm w" "calm (w\<lparr>ap_active := a\<rparr>) = calm w"
  "calm (w\<lparr>ap_streams := s\<rparr>) = calm w" "calm (set_redis r w) = calm w"
  by (simp_all add: calm_def set_db_def set_redis_def)

lemma set_db_parts [simp]:
  "ap_db (set_db d w) = d" "ap_now (set_db d w) = ap_now w" "ap_redis (set_db d w) = ap_redis w"
  "ap_active (set_db d w) = ap_active w" "ap_streams (set_db d w) = ap_streams w" "ap_ids (set_db d w) = ap_ids w"
  "ap_aborted (set_db d w) = ap_aborted w" "ap_redis_faults (set_db d w) = ap_redis_faults w"
  by (simp_all add: set_db_def)

lemma set_redis_parts [simp]:
  "ap_db (set_redis r w) = ap_db w" "ap_now (set_redis r w) = ap_now w" "ap_redis (set_redis r w) = r"
  "ap_active (set_redis r w) = ap_active w" "ap_streams (set_redis r w) = ap_streams w" "ap_ids (set_redis r w) = ap_ids w"
  "ap_aborted (set_redis r w) = ap_aborted w" "ap_redis_faults (set_redis r w) = ap_redis_faults w"
  by (simp_all add: set_redis_def)

section \<open>What the primitives touch\<close>

lemma keeps_sql_run:
  assumes "\<And>w fs. g (set_faults fs w) = g w" "\<And>w b. g (w\<lparr>ap_aborted := b\<rparr>) = g w" "\<And>w d. g (set_db d w) = g w"
  shows "keeps g (sql_run f)"
  unfolding keeps_def sql_run_def transact_def using assms by (auto split: list.split option.split sum.split)

lemma keeps_sql:
  assumes "\<And>w fs. g (set_faults fs w) = g w" "\<And>w b. g (w\<lparr>ap_aborted := b\<rparr>) = g w" "\<And>w d. g (set_db d w) = g w"
  shows "keeps g (sql h)" and "keeps g (sql_query q)"
  unfolding sql_def sql_query_def by (rule keeps_sql_run [OF assms])+

lemma set_faults_parts [simp]:
  "ap_db (set_faults fs w) = ap_db w" "ap_active (set_faults fs w) = ap_active w" "ap_streams (set_faults fs w) = ap_streams w"
  "ap_redis (set_faults fs w) = ap_redis w" "ap_now (set_faults fs w) = ap_now w" "ap_ids (set_faults fs w) = ap_ids w"
  by (simp_all add: set_faults_def)

lemma keeps_query_db [keeps_intros]: "keeps ap_db (sql_query f)"
  unfolding keeps_def sql_query_def sql_run_def transact_def by (auto split: list.split option.split)

lemma keeps_redis_do:
  assumes "\<And>w fs. g (w\<lparr>ap_redis_faults := fs\<rparr>) = g w" "\<And>w r. g (set_redis r w) = g w"
  shows "keeps g (redis_do f)"
  unfolding keeps_def redis_do_def redis_call_def using assms by (auto split: list.split option.split prod.split)

lemma keeps_cache:
  assumes "\<And>w fs. g (w\<lparr>ap_redis_faults := fs\<rparr>) = g w" "\<And>w r. g (set_redis r w) = g w"
  shows "keeps g (app_cache_set k v ttl)" "keeps g (app_cache_get k)" "keeps g (app_cache_delete k)"
  unfolding app_cache_set_def app_cache_get_def app_cache_delete_def by (rule keeps_redis_do [OF assms])+

lemma keeps_parts [keeps_intros]:
  "keeps ap_active (sql_run f)" "keeps ap_active (sql h)" "keeps ap_active (sql_query q)" "keeps ap_active (redis_do r)"
  "keeps ap_active (app_cache_set k v ttl)" "keeps ap_active (app_cache_get k)" "keeps ap_active (app_cache_delete k)"
  "keeps ap_db (redis_do r)" "keeps ap_db (app_cache_set k v ttl)" "keeps ap_db (app_cache_get k)" "keeps ap_db (app_cache_delete k)"
  "keeps ap_active (fresh_id env)" "keeps ap_db (fresh_id env)"
  by (intro keeps_sql_run keeps_sql keeps_cache keeps_redis_do; simp)+ (simp_all add: keeps_def fresh_id_def)

text \<open>Outbound operations leave everything but the clock and the log as it was.\<close>

lemma exec_more:
  fixes x y :: exec_world
  assumes "net_world.more y = net_world.more x"
  shows "ew_db y = ew_db x \<and> bw_redis y = bw_redis x \<and> ew_faults y = ew_faults x \<and> rw_tools y = rw_tools x
    \<and> ew_cancel y = ew_cancel x \<and> ew_tasks y = ew_tasks x \<and> bw_events y = bw_events x"
  using assms by (cases x; cases y) simp

lemma on_exec_net:
  assumes "net_only m" and "on_exec m w = (r, w')"
  shows "ap_db w' = ap_db w" "ap_redis w' = ap_redis w" "calm w' = calm w" "ap_active w' = ap_active w"
    "ap_ids w' = ap_ids w" "ap_streams w' = ap_streams w" "ew_faults (ap_exec w') = ew_faults (ap_exec w)"
    "ap_redis_faults w' = ap_redis_faults w" "ap_aborted w' = ap_aborted w"
proof -
  obtain x where x: "m (ap_exec w) = (r, x)" "w' = w\<lparr>ap_exec := x\<rparr>"
    using assms(2) by (auto simp: on_exec_def split: prod.splits)
  have "net_world.more x = net_world.more (ap_exec w)"
    using assms(1) x(1) unfolding net_only_def by (metis snd_conv)
  from exec_more [OF this] x(2)
  show "ap_db w' = ap_db w" "ap_redis w' = ap_redis w" "calm w' = calm w" "ap_active w' = ap_active w"
    "ap_ids w' = ap_ids w" "ap_streams w' = ap_streams w" "ew_faults (ap_exec w') = ew_faults (ap_exec w)"
    "ap_redis_faults w' = ap_redis_faults w" "ap_aborted w' = ap_aborted w"
    by (simp_all add: calm_def)
qed

lemma net_only_wait_for [net_only_intros]: "net_only m \<Longrightarrow> net_only (wait_for t m)"
  unfolding net_only_def wait_for_def
  by (auto simp: case_prod_beta) (metis net_world.select_convs(1) net_world.surjective net_world.update_convs(3))+

section \<open>A process for the concrete checks\<close>

definition demo_app_env :: app_env where
  "demo_app_env = \<lparr>ae_exec = demo_exec, ae_new_id = (\<lambda>n. nat_str n), ae_iso = (\<lambda>_. ''now''), ae_ms = (\<lambda>_. JInt 0)\<rparr>"

definition demo_app :: app_world where
  "demo_app = \<lparr>ap_exec = demo_exec_world, ap_ids = 0, ap_active = [], ap_streams = streams_init, ap_aborted = False,
     ap_redis_faults = []\<rparr>"

lemma demo_app_calm [simp]: "calm demo_app"
  by (simp add: calm_def demo_app_def demo_exec_world_def)

end
