(* ===== verification/Server_Registry.thy ===== *)
theory Server_Registry
  imports App_World
begin

text \<open>
  The registries of servers, tools and capabilities: \<open>app/core/registry/server_registry.py\<close>,
  \<open>tool_registry.py\<close>, \<open>capability_registry.py\<close>, and the capability negotiation of
  \<open>app/core/protocol/negotiation.py\<close>.  The constraints of the tables that these operations can violate
  are part of the model: primary and foreign keys, unique slugs, the lengths of the text columns, columns
  that are not nullable, and the rule that one \<open>INSERT .. ON CONFLICT DO UPDATE\<close> may not touch a row twice.
\<close>

section \<open>Capabilities\<close>

definition cache_capabilities :: "string \<Rightarrow> json \<Rightarrow> (app_world, exc, unit) pm" where
  "cache_capabilities sid caps = app_cache_set (key_server_capabilities sid) caps (Some TTL_CAPABILITIES)"

definition get_cached_capabilities :: "string \<Rightarrow> (app_world, exc, json) pm" where
  "get_cached_capabilities sid = app_cache_get (key_server_capabilities sid)"

fun merge_capabilities :: "jdict \<Rightarrow> jdict \<Rightarrow> jdict" where
  "merge_capabilities merged [] = merged"
| "merge_capabilities merged ((k, v) # kvs) =
     merge_capabilities (if dict_get merged k = None then dict_set k v merged else merged) kvs"

definition capabilities_payload :: "string \<Rightarrow> json list \<Rightarrow> json list \<Rightarrow> json list \<Rightarrow> json" where
  "capabilities_payload sid tools resources prompts =
     JObj [(''server_id'', JStr sid), (''tools'', JList tools), (''resources'', JList resources), (''prompts'', JList prompts)]"

text \<open>No caller passes resources or prompts.\<close>

definition store_capabilities :: "string \<Rightarrow> json list \<Rightarrow> (app_world, exc, unit) pm" where
  "store_capabilities sid tools =
     app_cache_set (key_server_capabilities sid) (capabilities_payload sid tools [] []) (Some TTL_CAPABILITIES)"

definition get_capabilities :: "string \<Rightarrow> (app_world, exc, json) pm" where
  "get_capabilities sid = app_cache_get (key_server_capabilities sid)"

definition invalidate_capabilities :: "string \<Rightarrow> (app_world, exc, unit) pm" where
  "invalidate_capabilities sid = app_cache_delete (key_server_capabilities sid)"

section \<open>Servers\<close>

definition get_server :: "uuid \<Rightarrow> uuid \<Rightarrow> (app_world, exc, server_row option) pm" where
  "get_server sid org = sql_query (\<lambda>d. first_row (\<lambda>s. sv_id s = sid \<and> sv_org s = org) (db_servers d))"

text \<open>\<open>order_by(created_at.desc())\<close>: newest first; rows of the same time keep their order here.\<close>

fun insert_newest :: "server_row \<Rightarrow> server_row list \<Rightarrow> server_row list" where
  "insert_newest s [] = [s]"
| "insert_newest s (x # xs) = (if sv_created x \<le> sv_created s then s # x # xs else x # insert_newest s xs)"

definition newest_first :: "server_row list \<Rightarrow> server_row list" where
  "newest_first rs = foldr insert_newest rs []"

definition list_servers :: "uuid \<Rightarrow> server_status option \<Rightarrow> (app_world, exc, server_row list) pm" where
  "list_servers org st =
     sql_query (\<lambda>d. newest_first (filter (\<lambda>s. sv_org s = org \<and> (case st of None \<Rightarrow> True | Some x \<Rightarrow> sv_status s = x)) (db_servers d)))"

record server_data =
  sd_name :: string
  sd_slug :: string
  sd_type :: string
  sd_transport :: string
  sd_endpoint :: "string option"
  sd_config :: jdict

definition integrity_error :: exc where
  "integrity_error = Exc (OtherErr ''IntegrityError'') ''constraint violated''"

definition data_error :: exc where
  "data_error = Exc (OtherErr ''DBAPIError'') ''invalid input for query argument''"

definition has_server :: "uuid \<Rightarrow> database \<Rightarrow> bool" where
  "has_server sid d \<longleftrightarrow> list_ex (\<lambda>s. sv_id s = sid) (db_servers d)"

definition new_server_row :: "uuid \<Rightarrow> seconds \<Rightarrow> uuid \<Rightarrow> server_data \<Rightarrow> server_row" where
  "new_server_row sid now org data =
     \<lparr>sv_id = sid, sv_org = org, sv_name = sd_name data, sv_slug = sd_slug data, sv_type = sd_type data,
      sv_transport = sd_transport data, sv_endpoint = sd_endpoint data, sv_config = sd_config data,
      sv_status = SInactive, sv_created = now\<rparr>"

definition create_server :: "app_env \<Rightarrow> uuid \<Rightarrow> server_data \<Rightarrow> (app_world, exc, server_row) pm" where
  "create_server env org data =
     pm_bind (fresh_id env) (\<lambda>sid w.
       (let row = new_server_row sid (ap_now w) org data in
        sql_run (\<lambda>d. if has_server sid d \<or> list_ex (\<lambda>s. sv_org s = org \<and> sv_slug s = sd_slug data) (db_servers d)
                     then Inl integrity_error
                     else Inr (row, d\<lparr>db_servers := db_servers d @ [row]\<rparr>)) w))"

text \<open>Deleting a server deletes its tools, with their assignments, and its connections; invocations of a
deleted tool keep no reference to it.\<close>

definition delete_server_rows :: "uuid \<Rightarrow> database \<Rightarrow> database" where
  "delete_server_rows sid d =
     (let gone = (\<lambda>t. \<exists>r\<in>set (db_tools d). tl_server r = sid \<and> tl_id r = t) in
      d\<lparr>db_servers := filter (\<lambda>s. sv_id s \<noteq> sid) (db_servers d),
        db_connections := filter (\<lambda>c. cn_server c \<noteq> sid) (db_connections d),
        db_tools := filter (\<lambda>t. tl_server t \<noteq> sid) (db_tools d),
        db_org_tools := filter (\<lambda>o'. \<not> gone (ot_tool o')) (db_org_tools d),
        db_project_tools := filter (\<lambda>p. \<not> gone (pt_tool p)) (db_project_tools d),
        db_invocations := map (\<lambda>i. case iv_tool i of Some t \<Rightarrow> if gone t then i\<lparr>iv_tool := None\<rparr> else i | None \<Rightarrow> i) (db_invocations d)\<rparr>)"

definition delete_server :: "server_row \<Rightarrow> (app_world, exc, unit) pm" where
  "delete_server s = sql (delete_server_rows (sv_id s))"

section \<open>Tools\<close>

text \<open>\<open>t["name"]\<close>.\<close>

fun json_name :: "json \<Rightarrow> exc + json" where
  "json_name (JObj kvs) = (case dict_get kvs ''name'' of None \<Rightarrow> Inl (Exc KeyErr (CHR 0x27 # ''name'' @ [CHR 0x27])) | Some v \<Rightarrow> Inr v)"
| "json_name _ = Inl (Exc TypeErr ''indices must be integers'')"

fun collect :: "(exc + 'a) list \<Rightarrow> exc + 'a list" where
  "collect [] = Inr []"
| "collect (Inl e # xs) = Inl e"
| "collect (Inr x # xs) = (case collect xs of Inl e \<Rightarrow> Inl e | Inr ys \<Rightarrow> Inr (x # ys))"

definition tool_names :: "json \<Rightarrow> exc + json list" where
  "tool_names tools = (case json_iter tools of Inl e \<Rightarrow> Inl e | Inr ts \<Rightarrow> collect (map json_name ts))"

text \<open>A bound value of a text column that is not nullable, of limited length if a limit is given.\<close>

fun text_col :: "nat option \<Rightarrow> json \<Rightarrow> exc + string" where
  "text_col n (JStr s) = (if (case n of None \<Rightarrow> True | Some m \<Rightarrow> length s \<le> m) then Inr s else Inl data_error)"
| "text_col n JNull = Inl integrity_error"
| "text_col n _ = Inl data_error"

definition jor :: "json \<Rightarrow> json \<Rightarrow> json" where
  "jor a b = (if truthy a then a else b)"

text \<open>The values of one row of the \<open>INSERT\<close>.\<close>

definition tool_values :: "uuid \<Rightarrow> uuid \<Rightarrow> json \<Rightarrow> exc + (uuid \<Rightarrow> tool_row)" where
  "tool_values sid org t =
     (case t of
        JObj kvs \<Rightarrow>
          (case (text_col (Some 255) (jget kvs ''name''), text_col None (dict_get_or kvs ''description'' (JStr [])),
                 text_col (Some 100) (dict_get_or kvs ''tool_type'' (JStr ''generic'')),
                 if jget kvs ''category'' = JNull then Inr None else map_sum id Some (text_col (Some 100) (jget kvs ''category''))) of
             (Inr n, Inr d, Inr ty, Inr c) \<Rightarrow>
               Inr (\<lambda>i. \<lparr>tl_id = i, tl_server = sid, tl_org = org, tl_project = None, tl_name = n, tl_description = d,
                 tl_schema = jor (jget kvs ''input_schema'') (jor (jget kvs ''inputSchema'') (JObj [])),
                 tl_type = ty, tl_category = c, tl_status = TAvailable\<rparr>)
           | (Inl e, _, _, _) \<Rightarrow> Inl e
           | (_, Inl e, _, _) \<Rightarrow> Inl e
           | (_, _, Inl e, _) \<Rightarrow> Inl e
           | (_, _, _, Inl e) \<Rightarrow> Inl e)
      | _ \<Rightarrow> Inl (Exc AttributeErr ''object has no attribute get''))"

definition same_tool :: "tool_row \<Rightarrow> tool_row \<Rightarrow> bool" where
  "same_tool a b \<longleftrightarrow> tl_server a = tl_server b \<and> tl_org a = tl_org b \<and> tl_name a = tl_name b"

definition upsert_row :: "tool_row \<Rightarrow> tool_row list \<Rightarrow> tool_row list" where
  "upsert_row t rs =
     (if \<exists>r\<in>set rs. same_tool r t
      then update_rows (\<lambda>r. same_tool r t)
             (\<lambda>r. r\<lparr>tl_description := tl_description t, tl_schema := tl_schema t, tl_status := TAvailable\<rparr>) rs
      else rs @ [t])"

definition mark_vanished :: "uuid \<Rightarrow> json list \<Rightarrow> tool_row list \<Rightarrow> tool_row list" where
  "mark_vanished sid names =
     update_rows (\<lambda>r. tl_server r = sid \<and> JStr (tl_name r) \<notin> set names) (\<lambda>r. r\<lparr>tl_status := TUnavailable\<rparr>)"

text \<open>The two statements of \<open>upsert_tools\<close> on the table, given the fresh identifiers.\<close>

definition upsert_rows :: "uuid \<Rightarrow> uuid \<Rightarrow> (nat \<Rightarrow> uuid) \<Rightarrow> json list \<Rightarrow> json list \<Rightarrow> tool_row list \<Rightarrow> exc + tool_row list" where
  "upsert_rows sid org ids ts names rs =
     (case collect (map (tool_values sid org) ts) of
        Inl e \<Rightarrow> Inl e
      | Inr vs \<Rightarrow>
          if \<not> distinct names
          then Inl (Exc (OtherErr ''CardinalityViolationError'') ''ON CONFLICT DO UPDATE command cannot affect row a second time'')
          else Inr (fold upsert_row (map (\<lambda>(n, v). v (ids n)) (enumerate 0 vs)) (mark_vanished sid names rs)))"

definition upsert_tools :: "app_env \<Rightarrow> uuid \<Rightarrow> uuid \<Rightarrow> json \<Rightarrow> (app_world, exc, nat) pm" where
  "upsert_tools env sid org tools =
     (if \<not> truthy tools then pm_return 0
      else
        (case (json_iter tools, tool_names tools) of
           (Inr ts, Inr names) \<Rightarrow>
             (\<lambda>w. let n0 = ap_ids w in
                pm_then
                  (sql_run (\<lambda>d. if \<not> has_server sid d then Inl integrity_error
                     else
                       (case upsert_rows sid org (\<lambda>n. ae_new_id env (n0 + n)) ts names (db_tools d) of
                          Inl e \<Rightarrow> Inl e
                        | Inr rs \<Rightarrow> Inr ((), d\<lparr>db_tools := rs\<rparr>))))
                  (pm_return (length ts)) (w\<lparr>ap_ids := n0 + length ts\<rparr>))
         | (Inl e, _) \<Rightarrow> pm_raise e
         | (_, Inl e) \<Rightarrow> pm_raise e))"

definition get_tools_for_server :: "uuid \<Rightarrow> uuid \<Rightarrow> (app_world, exc, tool_row list) pm" where
  "get_tools_for_server sid org = sql_query (\<lambda>d. filter (\<lambda>t. tl_server t = sid \<and> tl_org t = org) (db_tools d))"

section \<open>The tool table as a map\<close>

text \<open>The abstraction: the tool of a server and organisation under a name.\<close>

definition tool_at :: "tool_row list \<Rightarrow> uuid \<Rightarrow> uuid \<Rightarrow> string \<Rightarrow> tool_row option" where
  "tool_at rs s o' n = find (\<lambda>r. tl_server r = s \<and> tl_org r = o' \<and> tl_name r = n) rs"

definition refresh :: "tool_row \<Rightarrow> tool_row \<Rightarrow> tool_row" where
  "refresh t r = r\<lparr>tl_description := tl_description t, tl_schema := tl_schema t, tl_status := TAvailable\<rparr>"

lemma find_update_rows:
  assumes "\<And>r. Q (f r) = Q r"
  shows "find Q (update_rows P f rs) = map_option (\<lambda>r. if P r then f r else r) (find Q rs)"
  by (induction rs) (auto simp: update_rows_def assms)

lemma find_append: "find P (xs @ ys) = (case find P xs of None \<Rightarrow> find P ys | Some x \<Rightarrow> Some x)"
  by (induction xs) auto

lemma tool_at_None: "tool_at rs s o' n = None \<longleftrightarrow> (\<forall>r\<in>set rs. \<not> (tl_server r = s \<and> tl_org r = o' \<and> tl_name r = n))"
  unfolding tool_at_def find_None_iff by auto

lemma find_SomeD: "find P xs = Some x \<Longrightarrow> P x \<and> x \<in> set xs"
  by (auto simp: find_Some_iff)

lemma tool_at_upsert:
  "tool_at (upsert_row t rs) s o' n =
     (if tl_server t = s \<and> tl_org t = o' \<and> tl_name t = n
      then Some (case tool_at rs s o' n of None \<Rightarrow> t | Some r \<Rightarrow> refresh t r)
      else tool_at rs s o' n)"
proof (cases "\<exists>r\<in>set rs. same_tool r t")
  case True
  let ?Q = "\<lambda>r. tl_server r = s \<and> tl_org r = o' \<and> tl_name r = n"
  have u: "tool_at (upsert_row t rs) s o' n = map_option (\<lambda>r. if same_tool r t then refresh t r else r) (find ?Q rs)"
    using True unfolding upsert_row_def tool_at_def refresh_def [symmetric]
    by (simp add: find_update_rows refresh_def)
  show ?thesis
  proof (cases "find ?Q rs")
    case None
    then have "\<not> (tl_server t = s \<and> tl_org t = o' \<and> tl_name t = n)"
      using True unfolding find_None_iff same_tool_def by blast
    then show ?thesis using u None by (auto simp: tool_at_def)
  next
    case (Some r)
    then have "?Q r" by (auto dest: find_SomeD)
    then have "same_tool r t \<longleftrightarrow> tl_server t = s \<and> tl_org t = o' \<and> tl_name t = n"
      unfolding same_tool_def by auto
    then show ?thesis using u Some unfolding tool_at_def by simp
  qed
next
  case False
  then have "tool_at rs (tl_server t) (tl_org t) (tl_name t) = None"
    by (auto simp: tool_at_None same_tool_def)
  then show ?thesis
    using False by (auto simp: upsert_row_def tool_at_def find_append split: option.split)
qed

lemma tool_at_fold_upsert:
  assumes "distinct (map tl_name vs)" and "\<forall>v\<in>set vs. tl_server v = sid \<and> tl_org v = org"
  shows "tool_at (fold upsert_row vs rs) s o' n =
     (case find (\<lambda>v. tl_server v = s \<and> tl_org v = o' \<and> tl_name v = n) vs of
        None \<Rightarrow> tool_at rs s o' n
      | Some v \<Rightarrow> Some (case tool_at rs s o' n of None \<Rightarrow> v | Some r \<Rightarrow> refresh v r))"
  using assms
proof (induction vs arbitrary: rs)
  case (Cons v vs)
  have "find (\<lambda>u. tl_server u = s \<and> tl_org u = o' \<and> tl_name u = n) vs = None" if vn: "tl_name v = n"
    unfolding find_None_iff
  proof
    assume "\<exists>u. u \<in> set vs \<and> tl_server u = s \<and> tl_org u = o' \<and> tl_name u = n"
    then obtain u where "u \<in> set vs" "tl_name v = tl_name u" using vn by auto
    then have "tl_name v \<in> tl_name ` set vs" by (rule image_eqI [rotated])
    with Cons.prems(1) show False by simp
  qed
  then show ?case
    using Cons.prems by (auto simp: Cons.IH tool_at_upsert split: option.split)
qed simp

lemma tool_at_vanished:
  "tool_at (mark_vanished sid names rs) s o' n =
     map_option (\<lambda>r. if s = sid \<and> JStr n \<notin> set names then r\<lparr>tl_status := TUnavailable\<rparr> else r) (tool_at rs s o' n)"
proof -
  have "find Q (mark_vanished sid names rs)
      = map_option (\<lambda>r. if tl_server r = sid \<and> JStr (tl_name r) \<notin> set names then r\<lparr>tl_status := TUnavailable\<rparr> else r) (find Q rs)"
    if "\<And>r. Q (r\<lparr>tl_status := TUnavailable\<rparr>) = Q r" for Q
    unfolding mark_vanished_def using that by (simp add: find_update_rows)
  then have "tool_at (mark_vanished sid names rs) s o' n
      = map_option (\<lambda>r. if tl_server r = sid \<and> JStr (tl_name r) \<notin> set names then r\<lparr>tl_status := TUnavailable\<rparr> else r) (tool_at rs s o' n)"
    unfolding tool_at_def by simp
  moreover have "tl_server r = s \<and> tl_name r = n" if "tool_at rs s o' n = Some r" for r
    using that unfolding tool_at_def by (auto dest: find_SomeD)
  ultimately show ?thesis by (cases "tool_at rs s o' n") auto
qed

text \<open>The values of the statement carry the names of the listing.\<close>

lemma collect_map_Inr: "collect (map Inr ys) = Inr ys"
  by (induction ys) auto

lemma collect_Inr: "collect xs = Inr ys \<longleftrightarrow> xs = map Inr ys"
proof
  show "collect xs = Inr ys \<Longrightarrow> xs = map Inr ys"
    by (induction xs arbitrary: ys rule: collect.induct) (auto split: sum.splits)
qed (simp add: collect_map_Inr)

lemma text_col_Inr: "text_col n j = Inr s \<Longrightarrow> j = JStr s"
  by (cases j) (auto split: if_splits)

lemma tool_values_fields:
  assumes "tool_values sid org t = Inr v" and "json_name t = Inr m"
  shows "m = JStr (tl_name (v i)) \<and> tl_server (v i) = sid \<and> tl_org (v i) = org \<and> tl_status (v i) = TAvailable"
proof (cases t)
  case (JObj kvs)
  then have m: "jget kvs ''name'' = m"
    using assms(2) by (simp add: jget_def dict_get_or_def split: option.splits)
  obtain n d ty c where v: "text_col (Some 255) (jget kvs ''name'') = Inr n"
    "v = (\<lambda>i. \<lparr>tl_id = i, tl_server = sid, tl_org = org, tl_project = None, tl_name = n, tl_description = d,
       tl_schema = jor (jget kvs ''input_schema'') (jor (jget kvs ''inputSchema'') (JObj [])),
       tl_type = ty, tl_category = c, tl_status = TAvailable\<rparr>)"
    using assms(1) unfolding tool_values_def JObj json.case prod.case
    by (cases "text_col (Some 255) (jget kvs ''name'')";
        cases "text_col None (dict_get_or kvs ''description'' (JStr []))";
        cases "text_col (Some 100) (dict_get_or kvs ''tool_type'' (JStr ''generic''))";
        cases "if jget kvs ''category'' = JNull then Inr None else map_sum id Some (text_col (Some 100) (jget kvs ''category''))")
      (simp_all only: sum.case prod.case sum.inject sum.distinct, blast)
  then show ?thesis using text_col_Inr [OF v(1)] m by simp
qed (use assms(2) in simp_all)

lemma listed_values:
  assumes "map (tool_values sid org) ts = map Inr vs" and "map json_name ts = map Inr names"
  shows "names = map (JStr \<circ> tl_name) (map (\<lambda>(n, v). v (ids n)) (enumerate k vs))
    \<and> (\<forall>v\<in>set (map (\<lambda>(n, v). v (ids n)) (enumerate k vs)). tl_server v = sid \<and> tl_org v = org \<and> tl_status v = TAvailable)"
  using assms
proof (induction ts arbitrary: vs names k)
  case (Cons t ts)
  then obtain v vs' m names' where c: "vs = v # vs'" "names = m # names'" "tool_values sid org t = Inr v" "json_name t = Inr m"
    "map (tool_values sid org) ts = map Inr vs'" "map json_name ts = map Inr names'"
    by (cases vs; cases names) auto
  then show ?case
    using Cons.IH [OF c(5,6), of "Suc k"] tool_values_fields [OF c(3,4), of "ids k"] by auto
qed auto

lemma find_listed:
  assumes "\<forall>v\<in>set vs. tl_server v = sid \<and> tl_org v = org \<and> tl_status v = TAvailable"
  shows "find (\<lambda>v. tl_server v = s \<and> tl_org v = o' \<and> tl_name v = n) vs = None
    \<longleftrightarrow> \<not> (s = sid \<and> o' = org \<and> n \<in> tl_name ` set vs)"
  using assms by (auto simp: find_None_iff)

lemma upsert_rows_spec:
  assumes u: "upsert_rows sid org ids ts names rs = Inr rs'" and n: "collect (map json_name ts) = Inr names"
  obtains vs where "distinct (map tl_name vs)" "names = map (JStr \<circ> tl_name) vs"
    "\<forall>v\<in>set vs. tl_server v = sid \<and> tl_org v = org \<and> tl_status v = TAvailable"
    "rs' = fold upsert_row vs (mark_vanished sid names rs)"
proof -
  obtain vs where vs: "map (tool_values sid org) ts = map Inr vs" "distinct names"
    "rs' = fold upsert_row (map (\<lambda>(n, v). v (ids n)) (enumerate 0 vs)) (mark_vanished sid names rs)"
    using u by (auto simp: upsert_rows_def collect_Inr split: sum.splits if_splits)
  let ?vs = "map (\<lambda>(n, v). v (ids n)) (enumerate 0 vs)"
  have l: "names = map (JStr \<circ> tl_name) ?vs" "\<forall>v\<in>set ?vs. tl_server v = sid \<and> tl_org v = org \<and> tl_status v = TAvailable"
    using listed_values [OF vs(1) n [unfolded collect_Inr], of ids 0] by auto
  have "distinct (map JStr (map tl_name ?vs))" using vs(2) l(1) by (simp add: comp_assoc)
  then have "distinct (map tl_name ?vs)" by (simp only: distinct_map)
  with l vs(3) show ?thesis by (intro that [of ?vs])
qed


definition listed_app :: app_world where
  "listed_app = set_db (db_empty\<lparr>db_servers := [demo_server]\<rparr>) demo_app"


text \<open>A listing that is empty changes nothing: every tool of the server stays as it was.\<close>

lemma upsert_tools_empty: "\<not> truthy tools \<Longrightarrow> upsert_tools env sid org tools w = (Inr 0, w)"
  by (simp add: upsert_tools_def pm_return_def)

lemma upsert_tools_duplicate:
  assumes "calm w" "tool_names tools = Inr names" "truthy tools" "\<not> distinct names"
    and "json_iter tools = Inr ts" "collect (map (tool_values sid org) ts) = Inr vs"
  shows "\<exists>e w'. upsert_tools env sid org tools w = (Inl e, w') \<and> is_exception e \<and> ap_aborted w' \<and> ap_db w' = ap_db w"
  using assms
  by (auto simp: upsert_tools_def Let_def pm_then_def sql_run_calm transact_def upsert_rows_def is_exception_iff integrity_error_def)

section \<open>Merging capabilities\<close>

lemma merge_capabilities_get:
  "dict_get (merge_capabilities a b) k = (case dict_get a k of Some v \<Rightarrow> Some v | None \<Rightarrow> dict_get b k)"
proof (induction a b rule: merge_capabilities.induct)
  case (2 merged k' v kvs)
  then show ?case by (auto split: option.split)
qed (simp split: option.split)

end
