(* ===== verification/Server_Manager.thy ===== *)
theory Server_Manager
  imports Server_Registry
begin

text \<open>
  The lifecycle of server connections, \<open>app/core/lifecycle/server_manager.py\<close>, and the background health
  monitor, \<open>app/core/lifecycle/health_monitor.py\<close>.  A server is given by the row the handler has read.
\<close>

section \<open>Recording the state\<close>

definition health_payload :: "app_env \<Rightarrow> string \<Rightarrow> string \<Rightarrow> string option \<Rightarrow> seconds \<Rightarrow> json" where
  "health_payload env sid status error now =
     JObj ([(''server_id'', JStr sid), (''status'', JStr status), (''checked_at'', JStr (ae_iso env now))]
           @ (if str_truthy error then [(''error'', JStr (the error))] else []))"

definition write_health :: "app_env \<Rightarrow> string \<Rightarrow> string \<Rightarrow> string \<Rightarrow> string option \<Rightarrow> (app_world, exc, unit) pm" where
  "write_health env org sid status error w =
     app_cache_set (key_server_health org sid) (health_payload env sid status error (ap_now w)) (Some TTL_HEALTH) w"

definition set_server_status :: "uuid \<Rightarrow> server_status \<Rightarrow> database \<Rightarrow> database" where
  "set_server_status sid st d = d\<lparr>db_servers := update_rows (\<lambda>s. sv_id s = sid) (\<lambda>s. s\<lparr>sv_status := st\<rparr>) (db_servers d)\<rparr>"

definition record_connected :: "app_env \<Rightarrow> server_row \<Rightarrow> json \<Rightarrow> (app_world, exc, unit) pm" where
  "record_connected env s caps =
     pm_bind (fresh_id env) (\<lambda>cid w.
       (let row = \<lparr>cn_id = cid, cn_server = sv_id s, cn_org = sv_org s, cn_status = ''connected'',
                   cn_connected = Some (ap_now w), cn_disconnected = None, cn_metadata = JObj [(''capabilities'', caps)]\<rparr>
        in pm_then (sql_run (\<lambda>d. if \<not> has_server (sv_id s) d then Inl integrity_error
                                 else Inr ((), (set_server_status (sv_id s) SActive d)\<lparr>db_connections := db_connections d @ [row]\<rparr>)))
             (write_health env (uuid_str (sv_org s)) (uuid_str (sv_id s)) ''connected'' None) w))"

definition record_error :: "app_env \<Rightarrow> server_row \<Rightarrow> string \<Rightarrow> (app_world, exc, unit) pm" where
  "record_error env s error =
     pm_then (sql (set_server_status (sv_id s) SError))
       (write_health env (uuid_str (sv_org s)) (uuid_str (sv_id s)) ''error'' (Some error))"

section \<open>Connecting and disconnecting\<close>

definition connect_remote :: "app_env \<Rightarrow> server_row \<Rightarrow> (app_world, exc, json) pm" where
  "connect_remote env s =
     (let sid = uuid_str (sv_id s);
          client = new_wrapper (the (sv_endpoint s)) (if sv_type s = REMOTE_SSE then ''sse'' else ''http'')
      in pm_bind (on_exec (mw_connect (ae_net env) client)) (\<lambda>(client', caps).
           pm_then (pm_modify (\<lambda>w. w\<lparr>ap_active := dict_set sid client' (ap_active w)\<rparr>))
             (pm_then (cache_capabilities sid caps)
               (pm_then (record_connected env s caps)
                 (pm_return (JObj [(''status'', JStr ''connected''), (''server_id'', JStr sid), (''capabilities'', caps)]))))))"

definition server_connect :: "app_env \<Rightarrow> server_row \<Rightarrow> (app_world, exc, json) pm" where
  "server_connect env s w =
     (let sid = uuid_str (sv_id s) in
      if dict_get (ap_active w) sid \<noteq> None
      then (Inr (JObj [(''status'', JStr ''already_connected''), (''server_id'', JStr sid)]), w)
      else
        pm_then (sql (set_server_status (sv_id s) SConnecting))
          (if sv_type s = LOCAL_PLUGIN then
             pm_then (record_connected env s (JObj []))
               (pm_return (JObj [(''status'', JStr ''connected''), (''server_id'', JStr sid), (''type'', JStr ''local_plugin'')]))
           else if \<not> str_truthy (sv_endpoint s) then
             pm_then (record_error env s ''No endpoint URL configured'')
               (pm_raise (Exc ValueErr (''Server '' @ sid @ '' has no endpoint_url'')))
           else
             pm_catch (connect_remote env s)
               (\<lambda>e. if is_exception e then pm_then (record_error env s (exc_msg e)) (pm_raise e) else pm_raise e)) w)"

text \<open>The connection to mark as closed: the latest open one of the server.\<close>

fun later_conn :: "connection_row option \<Rightarrow> connection_row \<Rightarrow> connection_row option" where
  "later_conn None c = Some c"
| "later_conn (Some b) c =
     (case (cn_connected b, cn_connected c) of
        (None, _) \<Rightarrow> Some b
      | (Some _, None) \<Rightarrow> Some c
      | (Some x, Some y) \<Rightarrow> if x < y then Some c else Some b)"

definition latest_connection :: "uuid \<Rightarrow> connection_row list \<Rightarrow> connection_row option" where
  "latest_connection sid cs = foldl later_conn None (filter (\<lambda>c. cn_server c = sid \<and> cn_status c = ''connected'') cs)"

definition close_latest :: "uuid \<Rightarrow> seconds \<Rightarrow> connection_row list \<Rightarrow> connection_row list" where
  "close_latest sid now cs =
     (case latest_connection sid cs of
        None \<Rightarrow> cs
      | Some c \<Rightarrow> update_rows (\<lambda>r. r = c) (\<lambda>r. r\<lparr>cn_status := ''disconnected'', cn_disconnected := Some now\<rparr>) cs)"

definition close_client :: "app_env \<Rightarrow> string \<Rightarrow> (app_world, exc, unit) pm" where
  "close_client env sid w =
     (case dict_get (ap_active w) sid of
        None \<Rightarrow> (Inr (), w)
      | Some client \<Rightarrow>
          (case mw_disconnect (ae_net env) client (ap_exec w) of
             (r, _, x) \<Rightarrow>
               (case r of Inl e \<Rightarrow> if is_exception e then Inr () else Inl e | Inr _ \<Rightarrow> Inr (),
                w\<lparr>ap_active := dict_pop sid (ap_active w), ap_exec := x\<rparr>)))"

definition server_disconnect :: "app_env \<Rightarrow> server_row \<Rightarrow> (app_world, exc, unit) pm" where
  "server_disconnect env s =
     (let sid = uuid_str (sv_id s) in
      pm_then (close_client env sid)
        (\<lambda>w. pm_then
           (sql (\<lambda>d. (set_server_status (sv_id s) SInactive d)\<lparr>db_connections := close_latest (sv_id s) (ap_now w) (db_connections d)\<rparr>))
           (write_health env (uuid_str (sv_org s)) sid ''disconnected'' None) w))"

definition get_client :: "string \<Rightarrow> app_world \<Rightarrow> wrapper option" where
  "get_client sid w = dict_get (ap_active w) sid"

definition active_server_ids :: "app_world \<Rightarrow> string list" where
  "active_server_ids w = map fst (ap_active w)"

section \<open>The health monitor\<close>

definition POLL_INTERVAL :: seconds where
  "POLL_INTERVAL = 30"

definition monitor_key :: "string \<Rightarrow> string" where
  "monitor_key sid = ''mcp:health:'' @ sid"

definition monitor_payload :: "string \<Rightarrow> string \<Rightarrow> json \<Rightarrow> string option \<Rightarrow> json" where
  "monitor_payload sid status latency error =
     JObj ([(''server_id'', JStr sid), (''status'', JStr status), (''latency_ms'', latency)]
           @ (if str_truthy error then [(''error'', JStr (the error))] else []))"

definition check_one :: "app_env \<Rightarrow> string \<times> wrapper \<Rightarrow> (app_world, exc, unit) pm" where
  "check_one env sc w =
     (case sc of (sid, client) \<Rightarrow>
        let report = (\<lambda>status latency error.
              app_cache_set (monitor_key sid) (monitor_payload sid status latency error) (Some (TTL_HEALTH * 3)))
        in
          (case on_exec (wait_for 10 (mw_list_tools (ae_net env) client)) w of
             (Inr _, w') \<Rightarrow> report ''healthy'' (ae_ms env (ap_now w' - ap_now w)) None w'
           | (Inl e, w') \<Rightarrow>
               if is_timeout_exc e then report ''timeout'' (JInt 10000) (Some ''Health check timed out'') w'
               else if is_exception e then report ''error'' (ae_ms env (ap_now w' - ap_now w)) (Some (exc_msg e)) w'
               else (Inl e, w')))"

fun check_list :: "app_env \<Rightarrow> (string \<times> wrapper) list \<Rightarrow> (app_world, exc, unit) pm" where
  "check_list env [] = pm_return ()"
| "check_list env (sc # scs) = pm_then (check_one env sc) (check_list env scs)"

definition check_all :: "app_env \<Rightarrow> (app_world, exc, unit) pm" where
  "check_all env w = check_list env (ap_active w) w"

definition log_exception :: "(app_world, exc, unit) pm \<Rightarrow> (app_world, exc, unit) pm" where
  "log_exception m = pm_catch m (\<lambda>e. if is_exception e then pm_return () else pm_raise e)"

text \<open>One pass of the loop; how the sleep ends is the argument.\<close>

definition monitor_pass :: "app_env \<Rightarrow> seconds \<Rightarrow> exc + unit \<Rightarrow> (app_world, exc, unit) pm" where
  "monitor_pass env max_idle slept =
     pm_then (log_exception (check_all env))
       (pm_then (log_exception (on_exec (evict_idle (ae_net env) max_idle)))
         (on_exec (net_op (NSleep POLL_INTERVAL) (POLL_INTERVAL, slept))))"

record monitor =
  hm_running :: bool
  hm_task :: bool

definition monitor_start :: "monitor \<Rightarrow> monitor" where
  "monitor_start m = (if hm_running m then m else \<lparr>hm_running = True, hm_task = True\<rparr>)"

definition monitor_stop :: "monitor \<Rightarrow> monitor" where
  "monitor_stop m = m\<lparr>hm_running := False\<rparr>"

text \<open>The loop over the outcomes of its sleeps: a cancellation leaves it, any other pass goes on.\<close>

fun monitor_loop :: "app_env \<Rightarrow> seconds \<Rightarrow> (exc + unit) list \<Rightarrow> (app_world, exc, unit) pm" where
  "monitor_loop env max_idle [] = pm_return ()"
| "monitor_loop env max_idle (s # ss) = pm_then (monitor_pass env max_idle s) (monitor_loop env max_idle ss)"

section \<open>What connecting records\<close>

lemma update_rows_twice:
  "(\<And>r. P (g r) = P r) \<Longrightarrow> update_rows P f (update_rows P g rs) = update_rows P (f \<circ> g) rs"
  by (simp add: update_rows_def)

lemma live_health:
  "live now (cache_set now (key_server_health org sid) v (Some TTL_HEALTH) r) (key_server_health org sid) = Some (serialise v)"
  by (simp add: live_cache_set TTL_HEALTH_def)

text \<open>What the tables, the cache and the live connections show of a server.\<close>

definition server_shown :: "app_env \<Rightarrow> server_row \<Rightarrow> server_status \<Rightarrow> string \<Rightarrow> string option \<Rightarrow> app_world \<Rightarrow> app_world \<Rightarrow> bool" where
  "server_shown env s st health error w w' \<longleftrightarrow>
     db_servers (ap_db w') = update_rows (\<lambda>x. sv_id x = sv_id s) (\<lambda>x. x\<lparr>sv_status := st\<rparr>) (db_servers (ap_db w))
     \<and> live (ap_now w') (ap_redis w') (key_server_health (uuid_str (sv_org s)) (uuid_str (sv_id s)))
         = Some (serialise (health_payload env (uuid_str (sv_id s)) health error (ap_now w')))"

lemma record_connected_calm:
  assumes "calm w" and "has_server (sv_id s) (ap_db w)"
  shows "\<exists>w' row. record_connected env s caps w = (Inr (), w') \<and> calm w' \<and> ap_active w' = ap_active w
    \<and> server_shown env s SActive ''connected'' None w w'
    \<and> db_connections (ap_db w') = db_connections (ap_db w) @ [row] \<and> cn_server row = sv_id s \<and> cn_status row = ''connected''"
  using assms
  by (simp add: record_connected_def fresh_id_def pm_bind_def pm_then_def sql_run_calm transact_def write_health_def app_cache_set_calm
      server_shown_def set_server_status_def live_health Let_def)

lemma record_error_calm:
  assumes "calm w"
  shows "\<exists>w'. record_error env s m w = (Inr (), w') \<and> calm w' \<and> ap_active w' = ap_active w
    \<and> server_shown env s SError ''error'' (Some m) w w' \<and> db_connections (ap_db w') = db_connections (ap_db w)"
  using assms
  by (simp add: record_error_def pm_then_def sql_calm write_health_def app_cache_set_calm
      server_shown_def set_server_status_def live_health)

lemma has_server_status [simp]: "has_server i (set_server_status sid st d) = has_server i d"
proof -
  have "list_ex P (update_rows Q f rs) = list_ex P rs" if "\<And>r. P (f r) = P r" for P Q f and rs :: "server_row list"
    using that by (induction rs) (simp_all add: update_rows_def)
  then show ?thesis by (simp add: has_server_def set_server_status_def)
qed

lemma shown_after_status:
  "server_shown env s st h e (set_db (set_server_status (sv_id s) st' (ap_db w)) w) w' = server_shown env s st h e w w'"
proof -
  have "(\<lambda>x. x\<lparr>sv_status := st\<rparr>) \<circ> (\<lambda>x. x\<lparr>sv_status := st'\<rparr>) = (\<lambda>x. x\<lparr>sv_status := st\<rparr> :: server_row)"
    by (simp add: fun_eq_iff)
  then show ?thesis by (simp add: server_shown_def set_server_status_def update_rows_twice)
qed

definition joined :: "app_env \<Rightarrow> server_row \<Rightarrow> app_world \<Rightarrow> app_world \<Rightarrow> bool" where
  "joined env s w w' \<longleftrightarrow> server_shown env s SActive ''connected'' None w w'
     \<and> (\<exists>row. db_connections (ap_db w') = db_connections (ap_db w) @ [row] \<and> cn_server row = sv_id s \<and> cn_status row = ''connected'')"

lemma connect_remote_calm:
  assumes "calm w" and "has_server (sv_id s) (ap_db w)" and "connect_remote env s w = (r, w')"
  shows "(\<exists>e. r = Inl e \<and> calm w' \<and> ap_active w' = ap_active w \<and> ap_db w' = ap_db w)
    \<or> (\<exists>j. r = Inr j \<and> dict_get (ap_active w') (uuid_str (sv_id s)) \<noteq> None \<and> joined env s w w')"
proof -
  let ?c = "new_wrapper (the (sv_endpoint s)) (if sv_type s = REMOTE_SSE then ''sse'' else ''http'')"
  obtain r1 w1 where m: "on_exec (mw_connect (ae_net env) ?c) w = (r1, w1)" by (cases "on_exec (mw_connect (ae_net env) ?c) w")
  note n = on_exec_net [OF net_only_connect m]
  show ?thesis
  proof (cases r1)
    case (Inl e)
    then show ?thesis using assms n m by (auto simp: connect_remote_def Let_def pm_bind_def)
  next
    case (Inr cc)
    obtain c caps where cc: "cc = (c, caps)" by (cases cc)
    define w2 where "w2 = set_redis (cache_set (ap_now w1) (key_server_capabilities (uuid_str (sv_id s))) caps (Some TTL_CAPABILITIES) (ap_redis w1))
      (w1\<lparr>ap_active := dict_set (uuid_str (sv_id s)) c (ap_active w1)\<rparr>)"
    have c2: "calm w2" "has_server (sv_id s) (ap_db w2)" using assms(1,2) n(1,3) by (simp_all add: w2_def)
    obtain w3 row where w3: "record_connected env s caps w2 = (Inr (), w3)" "ap_active w3 = ap_active w2"
      "server_shown env s SActive ''connected'' None w2 w3"
      "db_connections (ap_db w3) = db_connections (ap_db w2) @ [row]" "cn_server row = sv_id s" "cn_status row = ''connected''"
      using record_connected_calm [OF c2, of env caps] by blast
    have "cache_capabilities (uuid_str (sv_id s)) caps (w1\<lparr>ap_active := dict_set (uuid_str (sv_id s)) c (ap_active w1)\<rparr>) = (Inr (), w2)"
      using assms(1) n(3) by (simp add: cache_capabilities_def app_cache_set_calm w2_def)
    then have "r = Inr (JObj [(''status'', JStr ''connected''), (''server_id'', JStr (uuid_str (sv_id s))), (''capabilities'', caps)]) \<and> w' = w3"
      using assms(3) m Inr cc w3(1) by (simp add: connect_remote_def Let_def pm_bind_def pm_then_def pm_modify_def pm_return_def)
    moreover have "ap_db w2 = ap_db w" using n(1) by (simp add: w2_def)
    ultimately show ?thesis
      using w3 by (auto simp: joined_def server_shown_def w2_def)
  qed
qed

text \<open>A connect of a server that is not connected, from where it has been marked as connecting.\<close>

lemma server_connect_go:
  assumes "calm w" "dict_get (ap_active w) (uuid_str (sv_id s)) = None" "w1 = set_db (set_server_status (sv_id s) SConnecting (ap_db w)) w"
  shows "server_connect env s w =
      (if sv_type s = LOCAL_PLUGIN then
             pm_then (record_connected env s (JObj []))
               (pm_return (JObj [(''status'', JStr ''connected''), (''server_id'', JStr (uuid_str (sv_id s))), (''type'', JStr ''local_plugin'')]))
           else if \<not> str_truthy (sv_endpoint s) then
             pm_then (record_error env s ''No endpoint URL configured'')
               (pm_raise (Exc ValueErr (''Server '' @ uuid_str (sv_id s) @ '' has no endpoint_url'')))
           else
             pm_catch (connect_remote env s)
               (\<lambda>e. if is_exception e then pm_then (record_error env s (exc_msg e)) (pm_raise e) else pm_raise e)) w1"
  using assms unfolding server_connect_def Let_def
  by (subst pm_then_def) (simp add: sql_calm)

lemma connect_remote_outcome:
  assumes "calm w1" "has_server (sv_id s) (ap_db w1)"
    and "pm_catch (connect_remote env s)
         (\<lambda>e. if is_exception e then pm_then (record_error env s (exc_msg e)) (pm_raise e) else pm_raise e) w1 = (r, w')"
  shows "(\<forall>j. r = Inr j \<longrightarrow> joined env s w1 w' \<and> dict_get (ap_active w') (uuid_str (sv_id s)) \<noteq> None)
    \<and> (\<forall>e. r = Inl e \<and> is_exception e \<longrightarrow> server_shown env s SError ''error'' (Some (exc_msg e)) w1 w'
         \<and> db_connections (ap_db w') = db_connections (ap_db w1) \<and> ap_active w' = ap_active w1)"
proof -
  obtain r2 w2 where r2: "connect_remote env s w1 = (r2, w2)" by (cases "connect_remote env s w1")
  from connect_remote_calm [OF assms(1,2) r2] show ?thesis
  proof (elim disjE exE conjE)
    fix e
    assume e: "r2 = Inl e" "calm w2" "ap_active w2 = ap_active w1" "ap_db w2 = ap_db w1"
    obtain v where v: "record_error env s (exc_msg e) w2 = (Inr (), v)" "ap_active v = ap_active w2"
      "server_shown env s SError ''error'' (Some (exc_msg e)) w2 v" "db_connections (ap_db v) = db_connections (ap_db w2)"
      using record_error_calm [OF e(2)] by blast
    have "server_shown env s SError ''error'' (Some (exc_msg e)) w1 v"
      using v(3) e(4) by (simp add: server_shown_def)
    then show ?thesis
      using assms(3) e v r2 by (auto simp: pm_catch_def pm_then_def pm_raise_def split: if_splits)
  qed (use assms(3) r2 in \<open>auto simp: pm_catch_def\<close>)
qed



section \<open>Faults in the middle\<close>

text \<open>A database fault between opening the client and recording it is not repaired: the call raises, the
server stays \<open>CONNECTING\<close> in the table because the error cannot be recorded in the failed transaction, the
client stays among the live connections, and every later attempt to connect answers that the server is
already connected.\<close>

theorem connect_fault_leaves_client:
  assumes "\<not> ap_aborted w" and "ap_redis_faults w = []" and "ew_faults (ap_exec w) = [None, Some e]" and "is_exception e"
    and "dict_get (ap_active w) (uuid_str (sv_id s)) = None" and "sv_type s \<noteq> LOCAL_PLUGIN" and "str_truthy (sv_endpoint s)"
    and "nw_deadlines (ap_exec w) = []"
    and "\<And>x :: exec_world. nw_deadlines x = [] \<Longrightarrow> \<exists>caps y. mw_connect (ae_net env)
           (new_wrapper (the (sv_endpoint s)) (if sv_type s = REMOTE_SSE then ''sse'' else ''http'')) x = (Inr (c, caps), y)"
  shows "\<exists>e' w'. server_connect env s w = (Inl e', w') \<and> ap_db w' = set_server_status (sv_id s) SConnecting (ap_db w)
    \<and> get_client (uuid_str (sv_id s)) w' = Some c
    \<and> server_connect env s (w'\<lparr>ap_aborted := False\<rparr>)
        = (Inr (JObj [(''status'', JStr ''already_connected''), (''server_id'', JStr (uuid_str (sv_id s)))]), w'\<lparr>ap_aborted := False\<rparr>)"
proof -
  let ?sid = "uuid_str (sv_id s)"
  let ?c = "new_wrapper (the (sv_endpoint s)) (if sv_type s = REMOTE_SSE then ''sse'' else ''http'')"
  define w1 where "w1 = set_db (set_server_status (sv_id s) SConnecting (ap_db w)) (set_faults [Some e] w)"
  obtain caps y where m: "mw_connect (ae_net env) ?c (ap_exec w1) = (Inr (c, caps), y)" using assms(8) assms(9) [of "ap_exec w1"] by (auto simp: w1_def set_db_def set_faults_def)
  then have o: "on_exec (mw_connect (ae_net env) ?c) w1 = (Inr (c, caps), w1\<lparr>ap_exec := y\<rparr>)" by (simp add: on_exec_def)
  note n = on_exec_net [OF net_only_connect o]
  have f: "ew_faults (ap_exec w1) = [Some e]" "\<not> ap_aborted w1" "ap_redis_faults w1 = []"
    "ap_db w1 = set_server_status (sv_id s) SConnecting (ap_db w)"
    using assms(1,2) by (simp_all add: w1_def set_db_def set_faults_def)
  define w2 where "w2 = set_redis (cache_set (nw_now y) (key_server_capabilities ?sid) caps (Some TTL_CAPABILITIES) (bw_redis y))
      (w1\<lparr>ap_exec := y, ap_active := dict_set ?sid c (ap_active w1)\<rparr>)"
  have cc: "cache_capabilities ?sid caps (w1\<lparr>ap_exec := y, ap_active := dict_set ?sid c (ap_active w1)\<rparr>) = (Inr (), w2)"
    using f(3) by (simp add: cache_capabilities_def app_cache_set_def redis_do_def redis_call_def w2_def)
  have f2: "ew_faults (ap_exec w2) = [Some e]" "\<not> ap_aborted w2" "ap_active w2 = dict_set ?sid c (ap_active w1)"
    "ap_db w2 = set_server_status (sv_id s) SConnecting (ap_db w)"
    using n f by (simp_all add: w2_def set_redis_def)
  let ?w3 = "(set_faults [] (w2\<lparr>ap_ids := Suc (ap_ids w2)\<rparr>))\<lparr>ap_aborted := True\<rparr>"
  have "record_connected env s caps w2 = (Inl e, ?w3)"
    using f2 by (simp add: record_connected_def pm_bind_def fresh_id_def pm_then_def sql_run_def Let_def)
  then have "connect_remote env s w1 = (Inl e, ?w3)"
    using o cc by (simp add: connect_remote_def Let_def pm_bind_def pm_then_def pm_modify_def)
  moreover have "record_error env s (exc_msg e) ?w3 = (Inl aborted_exc, ?w3)"
    by (simp add: record_error_def pm_then_def sql_def sql_run_def)
  moreover have "sql (set_server_status (sv_id s) SConnecting) w = (Inr (), w1)"
    using assms(1,3) by (simp add: sql_def sql_run_def transact_def w1_def)
  ultimately have "server_connect env s w = (Inl aborted_exc, ?w3)"
    using assms(4-7) unfolding server_connect_def Let_def
    by (simp add: pm_then_def pm_catch_def)
  then show ?thesis
    using f2 by (intro exI [of _ aborted_exc] exI [of _ ?w3]) (simp add: get_client_def server_connect_def)
qed

definition open_env :: app_env where
  "open_env = demo_app_env\<lparr>ae_exec := demo_exec\<lparr>xe_router := demo_router\<lparr>re_net := dead_net
     \<lparr>ne_open := (\<lambda>_ _ _. (1, Inr \<lparr>ss_id = 7, ss_name = ''n'', ss_version = ''1'', ss_capabilities = None\<rparr>))\<rparr>\<rparr>\<rparr>\<rparr>"

theorem connect_fault_leaves_client_witness:
  "\<exists>e' w' c. server_connect open_env demo_server (set_faults [None, Some (Exc RuntimeErr ''gone'')] demo_app) = (Inl e', w')
     \<and> get_client (uuid_str ''s'') w' = Some c"
proof -
  let ?m = "new_wrapper ''http://internal'' ''http''"
  have "\<exists>caps y. mw_connect (ae_net open_env) ?m x = (Inr (?m\<lparr>mw_session := Some 7\<rparr>, caps), y)"
    if "nw_deadlines x = []" for x :: exec_world
    using that by (simp add: mw_connect_def net_op_def Let_def open_env_def)
  then show ?thesis
    using connect_fault_leaves_client [of "set_faults [None, Some (Exc RuntimeErr ''gone'')] demo_app" "Exc RuntimeErr ''gone''"
        demo_server open_env "?m\<lparr>mw_session := Some 7\<rparr>"]
    by (auto simp: demo_app_def set_faults_def demo_exec_world_def demo_server_def server_type_defs is_exception_iff)
qed

section \<open>Disconnecting\<close>

lemma close_client_calm:
  assumes "close_client env sid w = (r, w')"
  shows "calm w' = calm w \<and> ap_db w' = ap_db w \<and> ap_active w' = dict_pop sid (ap_active w)"
proof (cases "dict_get (ap_active w) sid")
  case None
  then have "dict_pop sid (ap_active w) = ap_active w"
    by (simp add: dict_get_None_iff delete_id)
  then show ?thesis using assms None by (simp add: close_client_def)
next
  case (Some client)
  obtain q m x where d: "mw_disconnect (ae_net env) client (ap_exec w) = (q, m, x)" by (cases "mw_disconnect (ae_net env) client (ap_exec w)")
  have "net_world.more x = net_world.more (ap_exec w)" using d disconnect_more [of "ae_net env" client "ap_exec w"] by simp
  from exec_more [OF this] show ?thesis using assms Some d by (auto simp: close_client_def calm_def)
qed

lemma server_disconnect_outcome:
  assumes "calm w" and "server_disconnect env s w = (Inr (), w')"
  shows "server_shown env s SInactive ''disconnected'' None w w'
    \<and> ap_active w' = dict_pop (uuid_str (sv_id s)) (ap_active w)
    \<and> (\<exists>t. db_connections (ap_db w') = close_latest (sv_id s) t (db_connections (ap_db w)))"
proof -
  obtain r w1 where c: "close_client env (uuid_str (sv_id s)) w = (r, w1)" by (cases "close_client env (uuid_str (sv_id s)) w")
  note k = close_client_calm [OF c]
  then have "calm w1" using assms(1) by simp
  then show ?thesis
    using assms(2) c k
    by (auto simp: server_disconnect_def pm_then_def sql_calm write_health_def app_cache_set_calm server_shown_def
        set_server_status_def live_health Let_def split: sum.splits)
qed

end
