(* ===== verification/Services.thy ===== *)
theory Services
  imports Server_Manager
begin

text \<open>
  The services over the registries: tool discovery (\<open>app/services/discovery_service.py\<close>), sessions
  (\<open>app/services/session_service.py\<close>) and registration with a first connection attempt
  (\<open>app/services/registry_service.py\<close>).
\<close>

section \<open>Discovery\<close>

definition app_tools :: "app_world \<Rightarrow> json list" where
  "app_tools w = list_local_tools (ts_reg (rw_tools (ap_exec w)))"

definition tool_entry_name :: "json \<Rightarrow> json" where
  "tool_entry_name t = (case t of JObj kvs \<Rightarrow> jget kvs ''name'' | _ \<Rightarrow> JNull)"

definition discover_local :: "string \<Rightarrow> (app_world, exc, nat) pm" where
  "discover_local sid w =
     (let tools = app_tools w
      in pm_then (store_capabilities sid (map tool_entry_name tools)) (pm_return (length tools)) w)"

definition discover_remote :: "app_env \<Rightarrow> server_row \<Rightarrow> wrapper \<Rightarrow> (app_world, exc, nat) pm" where
  "discover_remote env s client =
     pm_bind (on_exec (mw_list_tools (ae_net env) client)) (\<lambda>raw.
       pm_bind (upsert_tools env (sv_id s) (sv_org s) raw) (\<lambda>count.
         pm_bind (pm_lift (tool_names raw)) (\<lambda>names.
           pm_then (store_capabilities (uuid_str (sv_id s)) names) (pm_return count))))"

definition discover_server :: "app_env \<Rightarrow> server_row \<Rightarrow> (app_world, exc, nat) pm" where
  "discover_server env s w =
     (if sv_type s = LOCAL_PLUGIN then discover_local (uuid_str (sv_id s)) w
      else
        (case get_client (uuid_str (sv_id s)) w of
           None \<Rightarrow> (Inr 0, w)
         | Some client \<Rightarrow> discover_remote env s client w))"

text \<open>The loop: a failing server is logged and counts nothing.\<close>

definition discover_or_zero :: "app_env \<Rightarrow> server_row \<Rightarrow> (app_world, exc, nat) pm" where
  "discover_or_zero env s = pm_catch (discover_server env s) (\<lambda>e. if is_exception e then pm_return 0 else pm_raise e)"

fun discover_list :: "app_env \<Rightarrow> server_row list \<Rightarrow> nat \<Rightarrow> (app_world, exc, nat) pm" where
  "discover_list env [] n = pm_return n"
| "discover_list env (s # ss) n = pm_bind (discover_or_zero env s) (\<lambda>count. discover_list env ss (n + count))"

definition servers_to_discover :: "uuid \<Rightarrow> uuid option \<Rightarrow> database \<Rightarrow> server_row list" where
  "servers_to_discover org sid d =
     (case sid of
        Some i \<Rightarrow> (case first_row (\<lambda>s. sv_id s = i \<and> sv_org s = org) (db_servers d) of None \<Rightarrow> [] | Some s \<Rightarrow> [s])
      | None \<Rightarrow> filter (\<lambda>s. sv_org s = org \<and> sv_status s = SActive) (db_servers d))"

definition discover :: "app_env \<Rightarrow> uuid \<Rightarrow> uuid option \<Rightarrow> (app_world, exc, nat) pm" where
  "discover env org sid =
     pm_bind (sql_query (servers_to_discover org sid)) (\<lambda>servers.
       pm_bind (discover_list env servers 0) (\<lambda>n.
         pm_then (app_cache_delete (key_org_tools (uuid_str org))) (pm_return n)))"

section \<open>Sessions\<close>

record session_req =
  sq_org :: uuid
  sq_project :: "uuid option"
  sq_user :: "string option"
  sq_servers :: "uuid list"
  sq_ttl :: int

definition session_payload :: "uuid \<Rightarrow> session_req \<Rightarrow> json" where
  "session_payload i q = JObj [(''session_id'', JStr (uuid_str i)), (''org_id'', JStr (uuid_str (sq_org q))), (''user_id'', opt_json (sq_user q))]"

definition session_create :: "app_env \<Rightarrow> session_req \<Rightarrow> (app_world, exc, session_row) pm" where
  "session_create env q =
     pm_bind (fresh_id env) (\<lambda>i w.
       (let row = \<lparr>sn_id = i, sn_org = sq_org q, sn_project = sq_project q, sn_user = sq_user q, sn_servers = sq_servers q,
                   sn_metadata = JObj [], sn_created = ap_now w, sn_expires = Some (ap_now w + of_int (sq_ttl q))\<rparr>
        in pm_then (sql_run (\<lambda>d. if list_ex (\<lambda>s. sn_id s = i) (db_sessions d) then Inl integrity_error
                                 else Inr ((), d\<lparr>db_sessions := db_sessions d @ [row]\<rparr>)))
             (pm_then (app_cache_set (key_session (uuid_str i)) (session_payload i q) (Some (sq_ttl q))) (pm_return row)) w))"

definition session_get :: "uuid \<Rightarrow> uuid \<Rightarrow> (app_world, exc, session_row option) pm" where
  "session_get i org = sql_query (\<lambda>d. first_row (\<lambda>s. sn_id s = i \<and> sn_org s = org) (db_sessions d))"

text \<open>Deleting a session clears the reference of its invocations.\<close>

definition session_end :: "session_row \<Rightarrow> (app_world, exc, unit) pm" where
  "session_end s =
     pm_then
       (sql (\<lambda>d. d\<lparr>db_sessions := filter (\<lambda>r. sn_id r \<noteq> sn_id s) (db_sessions d),
                   db_invocations := map (\<lambda>i. if iv_session i = Some (sn_id s) then i\<lparr>iv_session := None\<rparr> else i) (db_invocations d)\<rparr>))
       (app_cache_delete (key_session (uuid_str (sn_id s))))"

section \<open>Registration\<close>

definition register_and_connect :: "app_env \<Rightarrow> uuid \<Rightarrow> server_data \<Rightarrow> (app_world, exc, server_row \<times> json) pm" where
  "register_and_connect env org data =
     pm_bind (create_server env org data) (\<lambda>s.
       pm_bind (pm_catch (server_connect env s)
                  (\<lambda>e. if is_exception e then pm_return (JObj [(''status'', JStr ''error''), (''error'', JStr (exc_msg e))]) else pm_raise e))
         (\<lambda>res. pm_return (s, res)))"

section \<open>Discovery is contained\<close>

lemma redis_ok:
  assumes "ap_redis_faults w = []"
  shows "app_cache_set k v ttl w = (Inr (), set_redis (cache_set (ap_now w) k v ttl (ap_redis w)) w)"
    and "app_cache_delete k w = (Inr (), set_redis (cache_delete k (ap_redis w)) w)"
  using assms by (simp_all add: app_cache_set_def app_cache_delete_def redis_do_def redis_call_def)

lemma sql_run_redis_faults: "ap_redis_faults (snd (sql_run f w)) = ap_redis_faults w"
  by (auto simp: sql_run_def transact_def set_faults_def split: list.split option.split sum.split)

lemma upsert_redis_faults: "keeps ap_redis_faults (upsert_tools env sid org tools)"
proof -
  have "ap_redis_faults (snd (pm_then (sql_run f) (pm_return k) w)) = ap_redis_faults w"
    for f :: "database \<Rightarrow> exc + unit \<times> database" and w and k :: nat
    by (rule keeps_at [OF keeps_then]) (simp_all add: keeps_def sql_run_redis_faults pm_return_def)
  then show ?thesis
    by (simp add: keeps_def upsert_tools_def Let_def pm_return_def pm_raise_def split: sum.split)
qed

lemma redis_ok_keeps:
  assumes "ap_redis_faults w = []"
  shows "ap_redis_faults (snd (discover_server env s w)) = []"
proof -
  have st: "ap_redis_faults v = [] \<Longrightarrow> ap_redis_faults (snd (store_capabilities i ns v)) = []" for i ns v
    by (simp add: store_capabilities_def redis_ok)
  have rem: "ap_redis_faults (snd (discover_remote env s c w)) = []" for c
  proof -
    obtain r1 w1 where m: "on_exec (mw_list_tools (ae_net env) c) w = (r1, w1)" by (cases "on_exec (mw_list_tools (ae_net env) c) w")
    have 1: "ap_redis_faults w1 = []" using on_exec_net(8) [OF net_only_list_tools m] assms by simp
    show ?thesis
    proof (cases r1)
      case (Inr raw)
      obtain r2 w2 where u: "upsert_tools env (sv_id s) (sv_org s) raw w1 = (r2, w2)" by (cases "upsert_tools env (sv_id s) (sv_org s) raw w1")
      have "ap_redis_faults w2 = []" using keeps_run [OF upsert_redis_faults u] 1 by simp
      then show ?thesis
        using m u Inr st by (auto simp: discover_remote_def pm_bind_def pm_then_def pm_lift_def pm_return_def case_prod_beta split: sum.split)
    qed (use m 1 in \<open>simp add: discover_remote_def pm_bind_def\<close>)
  qed
  show ?thesis
    using assms rem by (auto simp: discover_server_def discover_local_def Let_def pm_then_def pm_return_def store_capabilities_def redis_ok split: option.split)
qed

lemma discover_list_contained:
  assumes "ap_redis_faults w = []" and "discover_list env ss n w = (r, w')"
  shows "ap_redis_faults w' = [] \<and> (\<forall>e. r = Inl e \<longrightarrow> \<not> is_exception e)"
  using assms
proof (induction ss arbitrary: n w)
  case (Cons s ss)
  obtain r1 w1 where d: "discover_server env s w = (r1, w1)" by (cases "discover_server env s w")
  have 1: "ap_redis_faults w1 = []" using redis_ok_keeps [OF Cons.prems(1), of env s] d by simp
  show ?case
    using Cons.prems(2) Cons.IH [OF 1] d 1
    by (auto simp: discover_or_zero_def pm_bind_def pm_catch_def pm_return_def pm_raise_def split: sum.splits if_splits)
qed (auto simp: pm_return_def)

lemma live_cache_delete: "live t (cache_delete k r) k' = (if k' = k then None else live t r k')"
  unfolding cache_delete_def live_delete by simp

text \<open>Discovery is robust: with working Redis and a working query for the servers, no failure of a single
server, in its connection, its listing or the database, gets out of \<open>discover\<close>; only a cancellation
can.  When it returns, the cached tool list of the organisation is gone.\<close>

theorem discover_contained:
  assumes "calm w" and "discover env org sid w = (r, w')"
  shows "(\<forall>e. r = Inl e \<longrightarrow> \<not> is_exception e) \<and> (\<forall>n t. r = Inr n \<longrightarrow> live t (ap_redis w') (key_org_tools (uuid_str org)) = None)"
proof -
  let ?ss = "servers_to_discover org sid (ap_db w)"
  obtain r1 w1 where l: "discover_list env ?ss 0 w = (r1, w1)" by (cases "discover_list env ?ss 0 w")
  have "ap_redis_faults w = []" using assms(1) by (simp add: calm_def)
  from discover_list_contained [OF this l] have 1: "ap_redis_faults w1 = []" "\<forall>e. r1 = Inl e \<longrightarrow> \<not> is_exception e" by auto
  show ?thesis
    using assms l 1
    by (auto simp: discover_def pm_bind_def pm_then_def pm_return_def sql_query_calm redis_ok live_cache_delete split: sum.splits)
qed

theorem discover_contained_witness:
  "live 0 (ap_redis (snd (discover demo_app_env ''o'' None (set_redis (cache_set 0 (key_org_tools (uuid_str ''o'')) (JList []) None redis_init) demo_app))))
     (key_org_tools (uuid_str ''o'')) = None"
proof -
  let ?w = "set_redis (cache_set 0 (key_org_tools (uuid_str ''o'')) (JList []) None redis_init) demo_app"
  obtain r w' where d: "discover demo_app_env ''o'' None ?w = (r, w')" by (cases "discover demo_app_env ''o'' None ?w")
  have "r = Inr 0"
    using d by (simp add: discover_def pm_bind_def sql_query_calm servers_to_discover_def demo_app_def demo_exec_world_def db_empty_def
        set_redis_def calm_def pm_then_def pm_return_def redis_ok)
  then show ?thesis using discover_contained [of ?w, OF _ d] d by simp
qed

section \<open>One bad listing blocks the others\<close>

lemma sql_run_aborted: "ap_aborted w \<Longrightarrow> sql_run f w = (Inl aborted_exc, w)"
  by (simp add: sql_run_def)

lemma upsert_aborted:
  assumes "ap_aborted w"
  shows "ap_aborted (snd (upsert_tools env sid org tools w)) \<and> ap_db (snd (upsert_tools env sid org tools w)) = ap_db w"
  using assms by (simp add: upsert_tools_def Let_def pm_return_def pm_raise_def pm_then_def sql_run_aborted split: sum.split)

lemma redis_do_aborted:
  "ap_aborted (snd (redis_do f w)) = ap_aborted w" "ap_db (snd (redis_do f w)) = ap_db w"
  by (auto simp: redis_do_def redis_call_def split: list.split option.split prod.split)

definition stuck :: "app_world \<Rightarrow> database \<Rightarrow> bool" where
  "stuck w d \<longleftrightarrow> ap_aborted w \<and> ap_db w = d"

lemma store_stuck: "stuck w d \<Longrightarrow> stuck (snd (store_capabilities i ns w)) d"
  by (simp add: stuck_def store_capabilities_def app_cache_set_def redis_do_aborted)

lemma discover_server_stuck:
  assumes "stuck w d"
  shows "stuck (snd (discover_server env s w)) d"
proof -
  have rem: "stuck (snd (discover_remote env s c w)) d" for c
  proof -
    obtain r1 w1 where m: "on_exec (mw_list_tools (ae_net env) c) w = (r1, w1)" by (cases "on_exec (mw_list_tools (ae_net env) c) w")
    have 1: "stuck w1 d" using on_exec_net(1,9) [OF net_only_list_tools m] assms by (simp add: stuck_def)
    show ?thesis
    proof (cases r1)
      case (Inr raw)
      obtain r2 w2 where u: "upsert_tools env (sv_id s) (sv_org s) raw w1 = (r2, w2)" by (cases "upsert_tools env (sv_id s) (sv_org s) raw w1")
      have "stuck w2 d" using upsert_aborted [of w1 env "sv_id s" "sv_org s" raw] u 1 by (simp add: stuck_def)
      then show ?thesis
        using m u Inr store_stuck by (auto simp: discover_remote_def pm_bind_def pm_then_def pm_lift_def pm_return_def case_prod_beta split: sum.split)
    qed (use m 1 in \<open>simp add: discover_remote_def pm_bind_def\<close>)
  qed
  show ?thesis
    using assms rem store_stuck
    by (auto simp: discover_server_def discover_local_def Let_def pm_then_def pm_return_def case_prod_beta split: option.split sum.split)
qed

lemma discover_list_stuck: "stuck w d \<Longrightarrow> stuck (snd (discover_list env ss n w)) d"
proof (induction ss arbitrary: n w)
  case (Cons s ss)
  obtain r1 w1 where s: "discover_server env s w = (r1, w1)" by (cases "discover_server env s w")
  have "stuck w1 d" using discover_server_stuck [OF Cons.prems, of env s] s by simp
  then show ?case
    using Cons.IH s by (auto simp: discover_or_zero_def pm_bind_def pm_catch_def pm_return_def pm_raise_def split: sum.split)
qed (simp add: pm_return_def)

text \<open>A server whose listing names a tool twice blocks the discovery of the servers after it: its listing
is refused by the database, the session stays unusable for the rest of the request, and no listing of a
later server is stored, whatever these servers answer.\<close>

theorem duplicate_listing_blocks:
  assumes "calm w" and "servers_to_discover org None (ap_db w) = s # ss" and "sv_type s \<noteq> LOCAL_PLUGIN"
    and "get_client (uuid_str (sv_id s)) w = Some client"
    and "on_exec (mw_list_tools (ae_net env) client) w = (Inr raw, w1)"
    and "truthy raw" "json_iter raw = Inr ts" "collect (map (tool_values (sv_id s) (sv_org s)) ts) = Inr vs"
    and "tool_names raw = Inr names" "\<not> distinct names"
  shows "ap_db (snd (discover env org None w)) = ap_db w"
proof -
  have 1: "calm w1" "ap_db w1 = ap_db w" using on_exec_net(1,3) [OF net_only_list_tools assms(5)] assms(1) by simp_all
  obtain e w2 where u: "upsert_tools env (sv_id s) (sv_org s) raw w1 = (Inl e, w2)" "is_exception e" "stuck w2 (ap_db w)"
    using upsert_tools_duplicate [OF 1(1) assms(9,6,10,7,8), of env] 1(2) by (auto simp: stuck_def)
  have "discover_list env (s # ss) 0 w = discover_list env ss 0 w2"
    using u assms(3,4,5) by (simp add: discover_or_zero_def discover_server_def discover_remote_def pm_bind_def pm_catch_def pm_return_def)
  moreover have "stuck (snd (discover_list env ss 0 w2)) (ap_db w)" by (rule discover_list_stuck [OF u(3)])
  ultimately have k: "ap_db (snd (discover_list env (s # ss) 0 w)) = ap_db w" by (simp add: stuck_def)
  have "ap_db (snd (app_cache_delete i v)) = ap_db v" for i v by (simp add: app_cache_delete_def redis_do_aborted)
  then show ?thesis
    using k assms(1,2)
    by (simp add: discover_def pm_bind_def pm_then_def pm_return_def sql_query_calm case_prod_beta del: discover_list.simps split: sum.split)
qed

text \<open>A server that lists the same tool twice, before one that lists a tool.\<close>

definition twice_env :: app_env where
  "twice_env = demo_app_env\<lparr>ae_exec := demo_exec\<lparr>xe_router := demo_router\<lparr>re_net := dead_net
     \<lparr>ne_list := (\<lambda>_ sid. (0, Inr (replicate (if sid = 1 then 2 else 1) \<lparr>st_name = ''t'', st_description = None, st_schema = JObj []\<rparr>)))\<rparr>\<rparr>\<rparr>\<rparr>"

definition twice_app :: app_world where
  "twice_app = (set_db (db_empty\<lparr>db_servers := [demo_server\<lparr>sv_id := ''a''\<rparr>, demo_server\<lparr>sv_id := ''b''\<rparr>]\<rparr>) demo_app)
     \<lparr>ap_active := [(uuid_str ''a'', \<lparr>mw_url = ''x'', mw_transport = ''http'', mw_session = Some 1\<rparr>),
                    (uuid_str ''b'', \<lparr>mw_url = ''y'', mw_transport = ''http'', mw_session = Some 2\<rparr>)]\<rparr>"

theorem duplicate_listing_blocks_witness: "db_tools (ap_db (snd (discover twice_env ''other'' None twice_app))) = []"
proof -
  let ?t = "JObj [(''name'', JStr ''t''), (''description'', JStr []), (''input_schema'', JObj [])]"
  let ?s = "demo_server\<lparr>sv_id := ''a''\<rparr>"
  have "\<exists>v w1. on_exec (mw_list_tools (ae_net twice_env) \<lparr>mw_url = ''x'', mw_transport = ''http'', mw_session = Some 1\<rparr>) twice_app = (Inr (JList [?t, ?t]), w1)
      \<and> collect (map (tool_values (sv_id ?s) (sv_org ?s)) [?t, ?t]) = Inr [v, v]"
    by (simp add: on_exec_def mw_list_tools_def net_op_def Let_def twice_env_def twice_app_def demo_app_def demo_exec_world_def set_db_def
        sdk_tool_json_def numeral_2_eq_2 tool_values_def jget_def dict_get_or_def)
  then obtain v w1 where l: "on_exec (mw_list_tools (ae_net twice_env) \<lparr>mw_url = ''x'', mw_transport = ''http'', mw_session = Some 1\<rparr>) twice_app = (Inr (JList [?t, ?t]), w1)"
      "collect (map (tool_values (sv_id ?s) (sv_org ?s)) [?t, ?t]) = Inr [v, v]" by blast
  have "ap_db (snd (discover twice_env ''other'' None twice_app)) = ap_db twice_app"
    by (rule duplicate_listing_blocks [of _ _ ?s "[demo_server\<lparr>sv_id := ''b''\<rparr>]" _ _ "JList [?t, ?t]" w1 "[?t, ?t]" "[v, v]" "[JStr ''t'', JStr ''t'']"])
      (use l in \<open>simp_all add: twice_app_def servers_to_discover_def demo_server_def server_type_defs get_client_def truthy_def tool_names_def\<close>)
  then show ?thesis by (simp add: twice_app_def db_empty_def)
qed

section \<open>Sessions\<close>

text \<open>C27.  Sessions: a session that was created is found again by its own organisation
with the data it was created with, by no other organisation, and after it was ended by none; its cache entry
lives exactly from creation to its expiry or end.\<close>

theorem session_lifecycle:
  assumes "calm w" and "session_create env q w = (Inr row, w1)" and "0 < sq_ttl q"
    and "session_end row w1 = (Inr u, w2)"
  shows "sn_org row = sq_org q \<and> sn_user row = sq_user q \<and> sn_expires row = Some (sn_created row + of_int (sq_ttl q))
    \<and> fst (session_get (sn_id row) (sq_org q) w1) = Inr (Some row)
    \<and> (\<forall>org. org \<noteq> sq_org q \<longrightarrow> fst (session_get (sn_id row) org w1) = Inr None)
    \<and> (\<forall>org. fst (session_get (sn_id row) org w2) = Inr None)
    \<and> (\<forall>t. live t (ap_redis w1) (key_session (uuid_str (sn_id row))) \<noteq> None \<longleftrightarrow> t < the (sn_expires row))
    \<and> (\<forall>t. live t (ap_redis w2) (key_session (uuid_str (sn_id row))) = None)"
proof -
  let ?i = "ae_new_id env (ap_ids w)"
  have row: "row = \<lparr>sn_id = ?i, sn_org = sq_org q, sn_project = sq_project q, sn_user = sq_user q, sn_servers = sq_servers q,
      sn_metadata = JObj [], sn_created = ap_now w, sn_expires = Some (ap_now w + of_int (sq_ttl q))\<rparr>"
    and w1: "w1 = set_redis (cache_set (ap_now w) (key_session (uuid_str ?i)) (session_payload ?i q) (Some (sq_ttl q)) (ap_redis w))
      (set_db ((ap_db w)\<lparr>db_sessions := db_sessions (ap_db w) @ [row]\<rparr>) (w\<lparr>ap_ids := Suc (ap_ids w)\<rparr>))"
    and fresh: "\<forall>s\<in>set (db_sessions (ap_db w)). sn_id s \<noteq> ?i"
    using assms(1,2)
    by (auto simp: session_create_def fresh_id_def pm_bind_def pm_then_def pm_return_def Let_def calm_ops sql_run_calm transact_def
        list_ex_iff split: if_splits)
  have c: "calm w1" using assms(1) by (simp add: w1)
  have w2: "calm w2" "db_sessions (ap_db w2) = filter (\<lambda>r. sn_id r \<noteq> ?i) (db_sessions (ap_db w1))"
    "ap_redis w2 = cache_delete (key_session (uuid_str ?i)) (ap_redis w1)"
    using assms(4) c row by (auto simp: session_end_def pm_then_def calm_ops)
  have f: "find (\<lambda>s. sn_id s = ?i \<and> sn_org s = org) (db_sessions (ap_db w)) = None" for org
    using fresh by (auto simp: find_None_iff)
  have g1: "fst (session_get (sn_id row) org w1) = Inr (if org = sq_org q then Some row else None)" for org
    using c f by (simp add: session_get_def sql_query_calm first_row_def w1 find_append row)
  have g2: "fst (session_get (sn_id row) org w2) = Inr None" for org
    using w2 by (simp add: session_get_def sql_query_calm first_row_def row find_None_iff)
  have l1: "live t (ap_redis w1) (key_session (uuid_str ?i)) \<noteq> None \<longleftrightarrow> t < ap_now w + of_int (sq_ttl q)" for t
    using assms(3) by (simp add: w1 live_cache_set not_le)
  show ?thesis using g1 g2 l1 w2(3) by (auto simp: row live_cache_delete)
qed

theorem session_lifecycle_witness:
  "\<exists>row w1 w2. session_create demo_app_env \<lparr>sq_org = ''o'', sq_project = None, sq_user = Some ''u'', sq_servers = [], sq_ttl = 60\<rparr> demo_app = (Inr row, w1)
     \<and> session_end row w1 = (Inr (), w2) \<and> fst (session_get (sn_id row) ''o'' w2) = Inr None"
proof -
  let ?q = "\<lparr>sq_org = ''o'', sq_project = None, sq_user = Some ''u'', sq_servers = [], sq_ttl = 60\<rparr>"
  obtain row w1 where c: "session_create demo_app_env ?q demo_app = (Inr row, w1)" "calm w1"
    by (simp add: session_create_def fresh_id_def pm_bind_def pm_then_def pm_return_def Let_def calm_ops sql_run_calm transact_def
        demo_app_def [THEN arg_cong, of ap_exec] demo_exec_world_def db_empty_def)
  obtain w2 where e: "session_end row w1 = (Inr (), w2)"
    using c(2) by (simp add: session_end_def pm_then_def calm_ops)
  have "fst (session_get (sn_id row) ''o'' w2) = Inr None"
    using session_lifecycle [OF demo_app_calm c(1) _ e] by simp
  with c e show ?thesis by blast
qed

end
