(* ===== verification/Security.thy ===== *)
theory Security
  imports Services
begin

text \<open>
  Authentication and authorisation of requests: \<open>app/security/auth.py\<close> and \<open>app/security/permissions.py\<close>.
  A bearer token is checked by the backend; its answer, the claims, is any JSON value.  An
  \<open>HTTPException\<close> is the class \<open>HTTPExc\<close> with its status code.
\<close>

section \<open>Tokens\<close>

record auth_ctx =
  au_user :: string
  au_org :: string
  au_project :: "string option"
  au_role :: json
  au_raw :: jdict

definition require_internal :: "backend_cfg \<Rightarrow> string option \<Rightarrow> exc + unit" where
  "require_internal cfg header =
     (let token = (case header of None \<Rightarrow> [] | Some t \<Rightarrow> t) in
      if token = [] \<or> token \<noteq> bc_internal_key cfg
      then Inl (Exc (HTTPExc 403) ''Invalid or missing internal service key'') else Inr ())"

definition validate_request :: "backend_cfg \<Rightarrow> string \<Rightarrow> http_req" where
  "validate_request cfg token =
     \<lparr>rq_method = ''GET'', rq_url = bc_backend_url cfg @ ''/internal/auth/validate'',
      rq_headers = [(''Authorization'', ''Bearer '' @ token), (''X-Internal-Service-Key'', bc_internal_key cfg)], rq_json = None\<rparr>"

definition validate_token :: "backend_cfg \<Rightarrow> net_env \<Rightarrow> string \<Rightarrow> ('w net_world_scheme, exc, json) pm" where
  "validate_token cfg env token =
     pm_bind (do_http env (validate_request cfg token)) (\<lambda>r.
       if rp_status r = 200 then resp_json r
       else if rp_status r \<in> {401, 403} then pm_raise (Exc (HTTPExc 401) ''Invalid or expired token'')
       else pm_raise (Exc (HTTPExc 502) ''Authentication service unavailable''))"

fun is_http_exc :: "exc \<Rightarrow> bool" where
  "is_http_exc (Exc (HTTPExc _) _) = True"
| "is_http_exc _ = False"

definition context_of_claims :: "json \<Rightarrow> exc + auth_ctx" where
  "context_of_claims claims =
     (case claims of
        JObj c \<Rightarrow>
          (let user = jor (jget c ''sub'') (jget c ''user_id''); org = jor (jget c ''org_id'') (jget c ''organization_id'') in
           if \<not> truthy user \<or> \<not> truthy org then Inl (Exc (HTTPExc 401) ''Token missing required claims (sub, org_id)'')
           else Inr \<lparr>au_user = py_str user, au_org = py_str org,
                     au_project = (if truthy (jget c ''project_id'') then Some (py_str (jget c ''project_id'')) else None),
                     au_role = dict_get_or c ''role'' (JStr ''member''), au_raw = c\<rparr>)
      | _ \<Rightarrow> Inl (Exc AttributeErr ''object has no attribute get''))"

definition get_auth_context :: "backend_cfg \<Rightarrow> net_env \<Rightarrow> string option \<Rightarrow> ('w net_world_scheme, exc, auth_ctx) pm" where
  "get_auth_context cfg env credentials =
     (case credentials of
        None \<Rightarrow> pm_raise (Exc (HTTPExc 401) ''Missing Authorization header'')
      | Some token \<Rightarrow>
          pm_bind
            (pm_catch (validate_token cfg env token)
              (\<lambda>e. if is_http_exc e then pm_raise e
                   else if is_exception e then pm_raise (Exc (HTTPExc 502) ''Authentication service error'')
                   else pm_raise e))
            (\<lambda>claims. pm_lift (context_of_claims claims)))"

definition get_optional_auth_context :: "backend_cfg \<Rightarrow> net_env \<Rightarrow> string option \<Rightarrow> ('w net_world_scheme, exc, auth_ctx option) pm" where
  "get_optional_auth_context cfg env credentials =
     (if credentials = None then pm_return None
      else pm_catch (pm_bind (get_auth_context cfg env credentials) (\<lambda>a. pm_return (Some a)))
             (\<lambda>e. if is_http_exc e then pm_return None else pm_raise e))"

definition get_ws_auth_context :: "backend_cfg \<Rightarrow> net_env \<Rightarrow> string \<Rightarrow> ('w net_world_scheme, exc, auth_ctx) pm" where
  "get_ws_auth_context cfg env token =
     (if token = [] then pm_raise (Exc (HTTPExc 401) ''Missing token'') else get_auth_context cfg env (Some token))"

section \<open>Permissions\<close>

definition parse_uuid :: "string \<Rightarrow> (app_world, exc, uuid) pm" where
  "parse_uuid s = (case uuid_parse s of None \<Rightarrow> pm_raise uuid_error | Some u \<Rightarrow> pm_return u)"

definition assert_tool_accessible :: "uuid \<Rightarrow> auth_ctx \<Rightarrow> (app_world, exc, tool_row) pm" where
  "assert_tool_accessible t auth =
     pm_bind (parse_uuid (au_org auth)) (\<lambda>org.
       pm_bind (sql_query (\<lambda>d. first_row (\<lambda>r. tl_id r = t \<and> tl_org r = org) (db_tools d))) (\<lambda>tool.
         case tool of
           None \<Rightarrow> pm_raise (Exc (HTTPExc 404) ''Tool not found'')
         | Some found \<Rightarrow>
             pm_bind (sql_query (\<lambda>d. first_row (\<lambda>r. ot_tool r = t \<and> ot_org r = org) (db_org_tools d))) (\<lambda>orow.
               if (case orow of None \<Rightarrow> False | Some r \<Rightarrow> \<not> ot_enabled r)
               then pm_raise (Exc (HTTPExc 403) ''Tool disabled for org'')
               else if str_truthy (au_project auth) then
                 pm_bind (parse_uuid (the (au_project auth))) (\<lambda>proj.
                   pm_bind (sql_query (\<lambda>d. first_row (\<lambda>r. pt_tool r = t \<and> pt_project r = proj) (db_project_tools d))) (\<lambda>prow.
                     if (case prow of None \<Rightarrow> False | Some r \<Rightarrow> \<not> pt_enabled r)
                     then pm_raise (Exc (HTTPExc 403) ''Tool disabled for project'')
                     else pm_return found))
               else pm_return found)))"

definition assert_server_owned_by_org :: "uuid \<Rightarrow> auth_ctx \<Rightarrow> (app_world, exc, unit) pm" where
  "assert_server_owned_by_org sid auth =
     pm_bind (parse_uuid (au_org auth)) (\<lambda>org.
       pm_bind (sql_query (\<lambda>d. first_row (\<lambda>s. sv_id s = sid \<and> sv_org s = org) (db_servers d))) (\<lambda>s.
         if s = None then pm_raise (Exc (HTTPExc 404) ''Server not found'') else pm_return ()))"

text \<open>The message names the role as \<open>str\<close> prints it and the list as \<open>repr\<close> does.\<close>

definition require_role :: "string list \<Rightarrow> auth_ctx \<Rightarrow> exc + auth_ctx" where
  "require_role allowed auth =
     (if au_role auth \<in> JStr ` set allowed then Inr auth
      else Inl (Exc (HTTPExc 403) (''Role '' @ [CHR 0x27] @ py_str (au_role auth) @ [CHR 0x27] @ '' not permitted. Required: ''
             @ py_repr (JList (map JStr allowed)))))"

section \<open>Authentication is sound\<close>

lemma do_http_log: "nw_log (snd (do_http env req w)) = nw_log w @ [NHttp req]"
  by (simp add: do_http_def)

lemma resp_json_outcome: "resp_json r w = (case rp_json r of None \<Rightarrow> (Inl (Exc ValueErr ''Expecting value''), w) | Some j \<Rightarrow> (Inr j, w))"
  by (simp add: resp_json_def pm_raise_def pm_return_def split: option.split)

text \<open>The HTTP client raises exceptions of its own, never those of the web framework.\<close>

definition client_errors :: "net_env \<Rightarrow> bool" where
  "client_errors env \<longleftrightarrow> (\<forall>n q e. snd (ne_http env n q) = Inl e \<longrightarrow> \<not> is_http_exc e)"

lemma do_http_client_error:
  assumes "client_errors env" and "do_http env q w = (Inl e, w')"
  shows "\<not> is_http_exc e"
proof -
  have "fst (do_http env q w) = snd (ne_http env (net_tick w) q) \<or> fst (do_http env q w) = Inl cancelled_exc"
    unfolding do_http_def by (rule net_op_cases)
  with assms show ?thesis unfolding client_errors_def by (auto simp: cancelled_exc_def)
qed

text \<open>C25.  Nobody gets an identity the backend did not confirm: a context is returned only after exactly one
request to the backend's validation endpoint, carrying the presented token and the service key, that was
answered with status 200 and an object with a user and an organisation, which are those of the context.
Every ordinary failure to authenticate against a backend that answers with an object is reported as 401
or 502.\<close>

theorem auth_context_sound:
  "(\<forall>a w'. get_auth_context cfg env cred w = (Inr a, w') \<longrightarrow>
      (\<exists>token r c. cred = Some token \<and> do_http env (validate_request cfg token) w = (Inr r, w') \<and> rp_status r = 200
         \<and> rp_json r = Some (JObj c) \<and> nw_log w' = nw_log w @ [NHttp (validate_request cfg token)]
         \<and> truthy (jor (jget c ''sub'') (jget c ''user_id'')) \<and> au_user a = py_str (jor (jget c ''sub'') (jget c ''user_id''))
         \<and> truthy (jor (jget c ''org_id'') (jget c ''organization_id'')) \<and> au_org a = py_str (jor (jget c ''org_id'') (jget c ''organization_id''))))
   \<and> (\<forall>e w'. get_auth_context cfg env cred w = (Inl e, w') \<and> is_exception e \<and> client_errors env
         \<and> (\<forall>token r j. cred = Some token \<and> do_http env (validate_request cfg token) w = (Inr r, w') \<and> rp_json r = Some j \<longrightarrow> is_obj j)
       \<longrightarrow> exc_class e \<in> {HTTPExc 401, HTTPExc 502})"
proof (cases cred)
  case None
  then show ?thesis by (simp add: get_auth_context_def pm_raise_def)
next
  case (Some token)
  obtain q w1 where h: "do_http env (validate_request cfg token) w = (q, w1)" by (cases "do_http env (validate_request cfg token) w")
  have log: "nw_log w1 = nw_log w @ [NHttp (validate_request cfg token)]"
    using do_http_log [of env "validate_request cfg token" w] h by simp
  show ?thesis
  proof (cases q)
    case (Inl x)
    then show ?thesis
      using Some h do_http_client_error [of env _ w x w1] by (cases x rule: is_http_exc.cases)
        (auto simp: get_auth_context_def validate_token_def pm_defs split: if_splits)
  next
    case (Inr r)
    show ?thesis
    proof (cases "rp_status r = 200")
      case False
      then show ?thesis
        using Some h Inr by (auto simp: get_auth_context_def validate_token_def pm_defs)
    next
      case True
      then show ?thesis
        using Some h Inr log
        by (cases "rp_json r")
          (auto simp: get_auth_context_def validate_token_def pm_defs resp_json_def context_of_claims_def Let_def is_exception_iff
            split: json.splits if_splits)
    qed
  qed
qed

definition vouching_net :: net_env where
  "vouching_net = dead_net\<lparr>ne_http := (\<lambda>_ _. (1, Inr \<lparr>rp_status = 200, rp_json = Some (JObj [(''sub'', JStr ''u''), (''org_id'', JStr ''o'')]), rp_text = []\<rparr>))\<rparr>"

definition demo_backend :: backend_cfg where
  "demo_backend = re_backend demo_router"

theorem auth_context_sound_witness:
  "\<exists>a w'. get_auth_context demo_backend vouching_net (Some ''tok'') demo_exec_world = (Inr a, w') \<and> au_org a = ''o''
     \<and> nw_log w' = [NHttp (validate_request demo_backend ''tok'')]"
proof -
  let ?g = "get_auth_context demo_backend vouching_net (Some ''tok'') demo_exec_world"
  have "\<exists>a. fst ?g = Inr a"
    by (simp add: get_auth_context_def validate_token_def do_http_def net_op_def Let_def vouching_net_def demo_exec_world_def pm_defs
        resp_json_def context_of_claims_def jor_def jget_def dict_get_or_def truthy_def)
  then obtain a w' where g: "?g = (Inr a, w')" by (cases ?g) auto
  have r: "do_http vouching_net q demo_exec_world = (Inr r, v) \<Longrightarrow> rp_json r = Some (JObj [(''sub'', JStr ''u''), (''org_id'', JStr ''o'')])" for q r v
    by (auto simp: do_http_def net_op_def Let_def vouching_net_def demo_exec_world_def)
  from auth_context_sound [of demo_backend vouching_net "Some ''tok''" demo_exec_world] g r
  have "au_org a = ''o'' \<and> nw_log w' = [NHttp (validate_request demo_backend ''tok'')]"
    by (fastforce simp: jor_def jget_def dict_get_or_def truthy_def demo_exec_world_def)
  with g show ?thesis by blast
qed

section \<open>Access to tools\<close>

text \<open>The specification: a tool of the organisation that neither the organisation nor the project has disabled.\<close>

definition tool_enabled :: "database \<Rightarrow> uuid \<Rightarrow> uuid \<Rightarrow> uuid option \<Rightarrow> bool" where
  "tool_enabled d t org proj \<longleftrightarrow>
     (\<forall>r. first_row (\<lambda>r. ot_tool r = t \<and> ot_org r = org) (db_org_tools d) = Some r \<longrightarrow> ot_enabled r)
     \<and> (\<forall>p r. proj = Some p \<and> first_row (\<lambda>r. pt_tool r = t \<and> pt_project r = p) (db_project_tools d) = Some r \<longrightarrow> pt_enabled r)"



end
