(* ===== verification/Rest_Api.thy ===== *)
theory Rest_Api
  imports Security
begin

text \<open>
  The endpoints of \<open>app/api/v1\<close> with the request and response schemas of \<open>app/schemas\<close>.  A handler gets the
  authenticated context and runs in a database session.  A request body that does not satisfy its schema is
  answered with 422 before the handler runs, a row that does not satisfy the response schema raises.
\<close>

definition validation_error :: exc where
  "validation_error = Exc ValueErr ''validation error''"

definition unprocessable :: exc where
  "unprocessable = Exc (HTTPExc 422) ''Unprocessable Entity''"

text \<open>A request with a bearer token: the context is resolved first, then the handler runs in a session.\<close>

definition authenticated :: "app_env \<Rightarrow> string option \<Rightarrow> (auth_ctx \<Rightarrow> (app_world, exc, 'a) pm) \<Rightarrow> (app_world, exc, 'a) pm" where
  "authenticated env cred handler =
     pm_bind (on_exec (get_auth_context (re_backend (xe_router (ae_exec env))) (ae_net env) cred)) (\<lambda>auth. with_session (handler auth))"

section \<open>Registry\<close>

definition slug_char :: "char \<Rightarrow> bool" where
  "slug_char c \<longleftrightarrow> (let n = (of_char c :: nat) in 97 \<le> n \<and> n \<le> 122 \<or> 48 \<le> n \<and> n \<le> 57) \<or> c = CHR ''-'' \<or> c = CHR ''_''"

definition valid_register :: "server_data \<Rightarrow> bool" where
  "valid_register b \<longleftrightarrow> 1 \<le> length (sd_name b) \<and> length (sd_name b) \<le> 255 \<and> 1 \<le> length (sd_slug b) \<and> length (sd_slug b) \<le> 255
     \<and> list_all slug_char (sd_slug b) \<and> sd_type b \<in> {LOCAL_PLUGIN, REMOTE_SSE, REMOTE_HTTP, COMPOSIO, E2B, DEVICE}
     \<and> length (sd_transport b) \<le> 50"

record update_req =
  ur_name :: "string option"
  ur_endpoint :: "string option"
  ur_config :: "jdict option"
  ur_status :: "server_status option"

definition server_of :: "auth_ctx \<Rightarrow> uuid \<Rightarrow> (app_world, exc, server_row) pm" where
  "server_of auth sid =
     pm_bind (parse_uuid (au_org auth)) (\<lambda>org.
       pm_bind (get_server sid org) (\<lambda>s.
         case s of None \<Rightarrow> pm_raise (Exc (HTTPExc 404) ''Server not found'') | Some x \<Rightarrow> pm_return x))"

definition register_server :: "app_env \<Rightarrow> server_data \<Rightarrow> auth_ctx \<Rightarrow> (app_world, exc, server_row) pm" where
  "register_server env body auth =
     (if \<not> valid_register body then pm_raise unprocessable
      else pm_bind (parse_uuid (au_org auth)) (\<lambda>org. create_server env org body))"

definition list_mcp_servers :: "auth_ctx \<Rightarrow> (app_world, exc, server_row list) pm" where
  "list_mcp_servers auth = pm_bind (parse_uuid (au_org auth)) (\<lambda>org. list_servers org None)"

definition get_mcp_server :: "uuid \<Rightarrow> auth_ctx \<Rightarrow> (app_world, exc, server_row) pm" where
  "get_mcp_server sid auth = server_of auth sid"

definition apply_update :: "update_req \<Rightarrow> server_row \<Rightarrow> server_row" where
  "apply_update b s =
     s\<lparr>sv_name := (case ur_name b of None \<Rightarrow> sv_name s | Some n \<Rightarrow> n),
       sv_endpoint := (case ur_endpoint b of None \<Rightarrow> sv_endpoint s | Some e \<Rightarrow> Some e),
       sv_config := (case ur_config b of None \<Rightarrow> sv_config s | Some c \<Rightarrow> c),
       sv_status := (case ur_status b of None \<Rightarrow> sv_status s | Some st \<Rightarrow> st)\<rparr>"

definition update_mcp_server :: "uuid \<Rightarrow> update_req \<Rightarrow> auth_ctx \<Rightarrow> (app_world, exc, server_row) pm" where
  "update_mcp_server sid body auth =
     pm_bind (server_of auth sid) (\<lambda>s.
       sql_run (\<lambda>d. if 255 < length (sv_name (apply_update body s)) then Inl data_error
                    else Inr (apply_update body s, d\<lparr>db_servers := update_rows (\<lambda>x. sv_id x = sid) (apply_update body) (db_servers d)\<rparr>)))"

definition unregister_server :: "app_env \<Rightarrow> uuid \<Rightarrow> auth_ctx \<Rightarrow> (app_world, exc, unit) pm" where
  "unregister_server env sid auth =
     pm_bind (server_of auth sid) (\<lambda>s.
       pm_then (pm_catch (server_disconnect env s) (\<lambda>e. if is_exception e then pm_return () else pm_raise e))
         (pm_then (delete_server s)
           (pm_bind (redis_do (\<lambda>now r. cache_delete_pattern now (key_org_tools (au_org auth)) r)) (\<lambda>_. pm_return ()))))"

definition with_field :: "string \<Rightarrow> json \<Rightarrow> json \<Rightarrow> json" where
  "with_field k v j = (case j of JObj d \<Rightarrow> JObj (dict_set k v d) | _ \<Rightarrow> j)"

definition connect_server :: "app_env \<Rightarrow> uuid \<Rightarrow> auth_ctx \<Rightarrow> (app_world, exc, json) pm" where
  "connect_server env sid auth =
     pm_bind (server_of auth sid) (\<lambda>s.
       pm_bind (pm_catch (server_connect env s)
                  (\<lambda>e. if is_exception e then pm_raise (Exc (HTTPExc 502) (exc_msg e)) else pm_raise e)) (\<lambda>result.
         pm_bind (parse_uuid (au_org auth)) (\<lambda>org.
           pm_bind (discover env org (Some sid)) (\<lambda>n. pm_return (with_field ''tools_discovered'' (JInt (int n)) result)))))"

definition disconnect_server :: "app_env \<Rightarrow> uuid \<Rightarrow> auth_ctx \<Rightarrow> (app_world, exc, json) pm" where
  "disconnect_server env sid auth =
     pm_bind (server_of auth sid) (\<lambda>s.
       pm_then (server_disconnect env s)
         (pm_return (JObj [(''status'', JStr ''disconnected''), (''server_id'', JStr (uuid_str sid))])))"

section \<open>Discovery\<close>

fun tool_status_str :: "tool_status \<Rightarrow> string" where
  "tool_status_str TAvailable = ''available''"
| "tool_status_str TUnavailable = ''unavailable''"
| "tool_status_str TDeprecated = ''deprecated''"

definition tool_json :: "tool_row \<Rightarrow> json" where
  "tool_json t =
     JObj [(''id'', JStr (uuid_str (tl_id t))), (''server_id'', JStr (uuid_str (tl_server t))), (''org_id'', JStr (uuid_str (tl_org t))),
       (''project_id'', opt_json (map_option uuid_str (tl_project t))), (''name'', JStr (tl_name t)),
       (''description'', JStr (tl_description t)), (''input_schema'', tl_schema t), (''tool_type'', JStr (tl_type t)),
       (''category'', opt_json (tl_category t)), (''status'', JStr (tool_status_str (tl_status t))), (''source'', JStr ''registered'')]"

definition tools_query :: "uuid \<Rightarrow> uuid option \<Rightarrow> string option \<Rightarrow> database \<Rightarrow> tool_row list" where
  "tools_query org project category d =
     filter (\<lambda>t. tl_org t = org
               \<and> (case project of None \<Rightarrow> True | Some p \<Rightarrow> tl_project t = Some p \<or> tl_project t = None)
               \<and> (str_truthy category \<longrightarrow> tl_category t = category)) (db_tools d)"

definition tools_key :: "auth_ctx \<Rightarrow> uuid option \<Rightarrow> string" where
  "tools_key auth project = (case project of Some p \<Rightarrow> key_project_tools (au_org auth) (uuid_str p) | None \<Rightarrow> key_org_tools (au_org auth))"

text \<open>A cached value that is not a list is decoded once more; what is no list then cannot be extended.\<close>

fun cached_tools :: "json \<Rightarrow> exc + json list" where
  "cached_tools (JList ts) = Inr ts"
| "cached_tools (JStr s) =
     (case loads s of Some (JList ts) \<Rightarrow> Inr ts | Some _ \<Rightarrow> Inl (Exc TypeErr ''can only concatenate list'') | None \<Rightarrow> Inl (Exc ValueErr ''Expecting value''))"
| "cached_tools _ = Inl (Exc TypeErr ''the JSON object must be str, bytes or bytearray'')"

definition registered_tools :: "uuid option \<Rightarrow> string option \<Rightarrow> auth_ctx \<Rightarrow> (app_world, exc, json list) pm" where
  "registered_tools project category auth =
     pm_bind (app_cache_get (tools_key auth project)) (\<lambda>cached.
       if truthy cached then pm_lift (cached_tools cached)
       else
         pm_bind (parse_uuid (au_org auth)) (\<lambda>org.
           pm_bind (sql_query (\<lambda>d. map tool_json (tools_query org project category d))) (\<lambda>ts.
             pm_then (app_cache_set (tools_key auth project) (JList ts) (Some TTL_TOOLS)) (pm_return ts))))"

definition entry_category :: "json \<Rightarrow> json" where
  "entry_category t = (case t of JObj kvs \<Rightarrow> jget kvs ''category'' | _ \<Rightarrow> JNull)"

definition list_tools :: "uuid option \<Rightarrow> string option \<Rightarrow> bool \<Rightarrow> auth_ctx \<Rightarrow> (app_world, exc, json list) pm" where
  "list_tools project category include_local auth =
     pm_bind (registered_tools project category auth) (\<lambda>ts w.
       let loc = (if str_truthy category then filter (\<lambda>t. entry_category t = opt_json category) (app_tools w) else app_tools w)
       in (Inr (if include_local then ts @ loc else ts), w))"

definition get_tool :: "uuid \<Rightarrow> auth_ctx \<Rightarrow> (app_world, exc, tool_row) pm" where
  "get_tool t auth =
     pm_bind (parse_uuid (au_org auth)) (\<lambda>org.
       pm_bind (sql_query (\<lambda>d. first_row (\<lambda>r. tl_id r = t \<and> tl_org r = org) (db_tools d))) (\<lambda>r.
         case r of
           None \<Rightarrow> pm_raise (Exc (HTTPExc 404) ''Tool not found'')
         | Some x \<Rightarrow> if is_obj (tl_schema x) then pm_return x else pm_raise validation_error))"

definition get_tool_schema :: "uuid \<Rightarrow> auth_ctx \<Rightarrow> (app_world, exc, json) pm" where
  "get_tool_schema t auth =
     pm_bind (parse_uuid (au_org auth)) (\<lambda>org.
       pm_bind (sql_query (\<lambda>d. first_row (\<lambda>r. tl_id r = t \<and> tl_org r = org) (db_tools d))) (\<lambda>r.
         case r of
           None \<Rightarrow> pm_raise (Exc (HTTPExc 404) ''Tool not found'')
         | Some x \<Rightarrow> if tl_schema x = JNull then pm_raise (Exc (HTTPExc 404) ''Tool not found'')
                     else pm_return (JObj [(''input_schema'', tl_schema x)])))"

definition trigger_discovery :: "app_env \<Rightarrow> uuid option \<Rightarrow> auth_ctx \<Rightarrow> (app_world, exc, json) pm" where
  "trigger_discovery env sid auth =
     pm_bind (parse_uuid (au_org auth)) (\<lambda>org.
       pm_bind (discover env org sid) (\<lambda>n. pm_return (JObj [(''discovered'', JInt (int n)), (''org_id'', JStr (au_org auth))])))"

section \<open>Sessions\<close>

record session_body =
  sb_project :: "uuid option"
  sb_servers :: "uuid list"
  sb_ttl :: int

definition create_session :: "app_env \<Rightarrow> session_body \<Rightarrow> auth_ctx \<Rightarrow> (app_world, exc, session_row) pm" where
  "create_session env b auth =
     (if \<not> (60 \<le> sb_ttl b \<and> sb_ttl b \<le> 86400) then pm_raise unprocessable
      else
        pm_bind (parse_uuid (au_org auth)) (\<lambda>org.
          pm_bind (case sb_project b of
                     Some p \<Rightarrow> pm_return (Some p)
                   | None \<Rightarrow> if str_truthy (au_project auth) then pm_bind (parse_uuid (the (au_project auth))) (\<lambda>p. pm_return (Some p))
                             else pm_return None) (\<lambda>proj.
            session_create env \<lparr>sq_org = org, sq_project = proj, sq_user = Some (au_user auth), sq_servers = sb_servers b, sq_ttl = sb_ttl b\<rparr>)))"

definition session_of :: "auth_ctx \<Rightarrow> uuid \<Rightarrow> (app_world, exc, session_row) pm" where
  "session_of auth i =
     pm_bind (parse_uuid (au_org auth)) (\<lambda>org.
       pm_bind (session_get i org) (\<lambda>s.
         case s of None \<Rightarrow> pm_raise (Exc (HTTPExc 404) ''Session not found'') | Some x \<Rightarrow> pm_return x))"

definition get_session :: "uuid \<Rightarrow> auth_ctx \<Rightarrow> (app_world, exc, session_row) pm" where
  "get_session i auth = session_of auth i"

definition end_session :: "uuid \<Rightarrow> auth_ctx \<Rightarrow> (app_world, exc, unit) pm" where
  "end_session i auth = pm_bind (session_of auth i) session_end"

section \<open>Execution\<close>

record execute_req =
  eq_tool_name :: string
  eq_tool_id :: "uuid option"
  eq_arguments :: jdict
  eq_project_id :: "uuid option"
  eq_username :: "string option"
  eq_project :: "string option"
  eq_category :: "string option"
  eq_timeout :: seconds

definition valid_execute :: "execute_req \<Rightarrow> bool" where
  "valid_execute b \<longleftrightarrow> eq_tool_name b \<noteq> [] \<and> 1 \<le> eq_timeout b \<and> eq_timeout b \<le> 600"

definition invoke_req_of :: "execute_req \<Rightarrow> auth_ctx \<Rightarrow> invoke_req" where
  "invoke_req_of b auth =
     \<lparr>iq_tool_name = eq_tool_name b, iq_arguments = eq_arguments b, iq_org = au_org auth,
      iq_project_id = (case eq_project_id b of Some p \<Rightarrow> Some (uuid_str p) | None \<Rightarrow> au_project auth),
      iq_user = Some (au_user auth), iq_session = None, iq_tool_id = eq_tool_id b, iq_username = eq_username b,
      iq_project = eq_project b, iq_category = eq_category b, iq_timeout = Some (eq_timeout b)\<rparr>"

definition execute_tool :: "app_env \<Rightarrow> execute_req \<Rightarrow> auth_ctx \<Rightarrow> (app_world, exc, json) pm" where
  "execute_tool env b auth =
     (if \<not> valid_execute b then pm_raise unprocessable else on_exec (invoke (ae_exec env) (invoke_req_of b auth)))"

definition execute_tool_async :: "app_env \<Rightarrow> execute_req \<Rightarrow> auth_ctx \<Rightarrow> (app_world, exc, uuid) pm" where
  "execute_tool_async env b auth =
     (if \<not> valid_execute b then pm_raise unprocessable else on_exec (invoke_async (ae_exec env) (invoke_req_of b auth)))"

definition invocation_of :: "auth_ctx \<Rightarrow> uuid \<Rightarrow> (app_world, exc, invocation_row) pm" where
  "invocation_of auth i =
     pm_bind (on_exec (get_invocation i (au_org auth))) (\<lambda>r.
       case r of None \<Rightarrow> pm_raise (Exc (HTTPExc 404) ''Invocation not found'') | Some x \<Rightarrow> pm_return x)"

definition poll_invocation :: "uuid \<Rightarrow> auth_ctx \<Rightarrow> (app_world, exc, invocation_row) pm" where
  "poll_invocation i auth =
     pm_bind (invocation_of auth i) (\<lambda>x.
       if (case iv_output x of None \<Rightarrow> True | Some j \<Rightarrow> is_obj j \<or> j = JNull) then pm_return x else pm_raise validation_error)"

definition delete_invocation :: "uuid \<Rightarrow> auth_ctx \<Rightarrow> (app_world, exc, unit) pm" where
  "delete_invocation i auth =
     pm_bind (invocation_of auth i) (\<lambda>_ w.
       (case cancel_invocation (uuid_str i) (ap_exec w) of
          (True, x) \<Rightarrow> (Inr (), w\<lparr>ap_exec := x\<rparr>)
        | (False, x) \<Rightarrow> (Inl (Exc (HTTPExc 409) ''Invocation is not running or already completed''), w\<lparr>ap_exec := x\<rparr>)))"

section \<open>Streaming\<close>

definition sse :: "json \<Rightarrow> string" where
  "sse j = ''data: '' @ dumps j @ [CHR 0x0A, CHR 0x0A]"

text \<open>The lines of the event stream, for the polls of the subscription that the generator runs; the closing line
is sent once the subscription has ended, unless it ended with an exception.\<close>

definition event_lines :: "string \<Rightarrow> seconds \<Rightarrow> (seconds \<times> poll) list \<Rightarrow> string list" where
  "event_lines i deadline polls =
     (case sub_loop deadline polls of
        (evs, x) \<Rightarrow>
          sse (JObj [(''type'', JStr ''connected''), (''invocation_id'', JStr i)])
          # map sse evs
          @ (case x of SubFinal \<Rightarrow> [sse (JObj [(''type'', JStr ''closed'')])] | SubTimeout \<Rightarrow> [sse (JObj [(''type'', JStr ''closed'')])]
             | SubError _ \<Rightarrow> [] | SubOpen \<Rightarrow> []))"

definition stream_invocation_events :: "uuid \<Rightarrow> seconds \<Rightarrow> (seconds \<times> poll) list \<Rightarrow> auth_ctx \<Rightarrow> (app_world, exc, string list) pm" where
  "stream_invocation_events i deadline polls auth =
     pm_bind (invocation_of auth i) (\<lambda>_. pm_return (event_lines (uuid_str i) deadline polls))"

section \<open>Health\<close>

definition ping :: "(app_world, exc, unit) pm" where
  "ping = redis_do (\<lambda>now r. ((), r))"

definition health_status :: "string \<Rightarrow> bool \<Rightarrow> bool \<Rightarrow> app_world \<Rightarrow> json" where
  "health_status environment redis_ok db_ok w =
     JObj [(''service'', JStr ''grafux-mcp''), (''version'', JStr ''2.0.0''),
       (''status'', JStr (if redis_ok \<and> db_ok then ''healthy'' else ''degraded'')), (''environment'', JStr environment),
       (''tools_loaded'', JInt (int (length (TOOLS (ts_reg (rw_tools (ap_exec w))))))),
       (''redis_connected'', JBool redis_ok), (''db_connected'', JBool db_ok),
       (''active_connections'', JInt (int (connection_count (ap_streams w)))),
       (''active_invocations'', JInt (int (active_count (ew_cancel (ap_exec w)))))]"

definition probe :: "(app_world, exc, unit) pm \<Rightarrow> (app_world, exc, bool) pm" where
  "probe m = pm_catch (pm_then m (pm_return True)) (\<lambda>e. if is_exception e then pm_return False else pm_raise e)"

definition health_check :: "string \<Rightarrow> (app_world, exc, json) pm" where
  "health_check environment =
     pm_bind (probe ping) (\<lambda>redis_ok.
       pm_bind (probe (sql_query (\<lambda>_. ()))) (\<lambda>db_ok w. (Inr (health_status environment redis_ok db_ok w), w)))"

definition liveness :: json where
  "liveness = JObj [(''status'', JStr ''alive'')]"

definition readiness :: "(app_world, exc, int \<times> json) pm" where
  "readiness =
     pm_catch (pm_then ping (pm_then (sql_query (\<lambda>_. ())) (pm_return (200, JObj [(''status'', JStr ''ready'')]))))
       (\<lambda>e. if is_exception e then pm_return (503, JObj [(''status'', JStr ''not_ready''), (''error'', JStr (exc_msg e))]) else pm_raise e)"

section \<open>The cached tool list\<close>

lemma cache_miss: "live now r k = None \<Longrightarrow> fst (cache_get now k r) = JNull"
  by (simp add: cache_get_live)

text \<open>The cached tool list forgets the category it was made for: after a listing restricted to a category
that was not answered from the cache, a listing without a category gets only the registered tools of
that category for as long as the entry lives.\<close>

theorem tool_cache_ignores_category:
  assumes "calm w" and "uuid_parse (au_org auth) = Some org" and "live (ap_now w) (ap_redis w) (tools_key auth project) = None"
    and "list_tools project (Some c) loc auth w = (r, w1)" and "c \<noteq> []"
    and "tools_query org project (Some c) (ap_db w) \<noteq> []" and "\<forall>t\<in>set (db_tools (ap_db w)). json_wf (tool_json t)"
  shows "fst (list_tools project None False auth w1) = Inr (map tool_json (tools_query org project (Some c) (ap_db w)))"
proof -
  let ?k = "tools_key auth project" and ?ts = "map tool_json (tools_query org project (Some c) (ap_db w))"
  let ?g = "cache_get (ap_now w) ?k (ap_redis w)"
  have m: "fst ?g = JNull" using cache_miss [OF assms(3)] by simp
  let ?r1 = "cache_set (ap_now w) ?k (JList ?ts) (Some TTL_TOOLS) (snd ?g)"
  have w1: "w1 = set_redis ?r1 (set_redis (snd ?g) w)"
    using assms(1,2,4) m
    by (simp add: list_tools_def registered_tools_def pm_bind_def pm_then_def pm_return_def calm_ops parse_uuid_def truthy_def Let_def)
  have c1: "calm w1" using assms(1) by (simp add: w1)
  have wf: "json_wf (JList ?ts)"
    using assms(7) by (auto simp: tools_query_def list_all_iff)
  have "fst (cache_get (ap_now w) ?k ?r1) = JList ?ts"
    using loads_serialise [OF wf] by (simp add: cache_get_live live_cache_set TTL_TOOLS_def)
  then have "fst (cache_get (ap_now w1) ?k (ap_redis w1)) = JList ?ts" by (simp add: w1)
  then show ?thesis
    using c1 assms(6)
    by (simp add: list_tools_def registered_tools_def pm_bind_def pm_lift_def calm_ops truthy_def Let_def)
qed

definition filed_tool :: tool_row where
  "filed_tool = demo_tool\<lparr>tl_org := replicate 32 (CHR ''0''), tl_category := Some ''c''\<rparr>"

theorem tool_cache_ignores_category_witness:
  "\<exists>w1. fst (list_tools None None False
         \<lparr>au_user = ''u'', au_org = replicate 32 (CHR ''0''), au_project = None, au_role = JNull, au_raw = []\<rparr> w1) = Inr [tool_json filed_tool]
     \<and> db_tools (ap_db w1) = [filed_tool, filed_tool\<lparr>tl_category := None\<rparr>]"
proof -
  let ?a = "\<lparr>au_user = ''u'', au_org = replicate 32 (CHR ''0''), au_project = None, au_role = JNull, au_raw = []\<rparr>"
  let ?w = "set_db (db_empty\<lparr>db_tools := [filed_tool, filed_tool\<lparr>tl_category := None\<rparr>]\<rparr>) demo_app"
  obtain r w1 where l: "list_tools None (Some ''c'') False ?a ?w = (r, w1)" by (cases "list_tools None (Some ''c'') False ?a ?w")
  have q: "tools_query (replicate 32 (CHR ''0'')) None (Some ''c'') (ap_db ?w) = [filed_tool]"
    by (simp add: tools_query_def filed_tool_def)
  have wf: "\<forall>t\<in>set (db_tools (ap_db ?w)). json_wf (tool_json t)"
    by (simp add: tool_json_def filed_tool_def demo_tool_def opt_json_def)
  have "live (ap_now ?w) (ap_redis ?w) (tools_key ?a None) = None"
    by (simp add: live_def demo_app_def demo_exec_world_def redis_init_def)
  from tool_cache_ignores_category [OF _ _ this l _ _ wf, of "replicate 32 (CHR ''0'')"] q
  have 1: "fst (list_tools None None False ?a w1) = Inr [tool_json filed_tool]" by (simp add: demo_uuid)
  have "keeps ap_db (registered_tools None (Some ''c'') ?a)"
    unfolding registered_tools_def parse_uuid_def by (intro keeps_intros) (simp add: keeps_intros split: option.split)
  then have "ap_db w1 = ap_db ?w"
    using l keeps_at [of ap_db "registered_tools None (Some ''c'') ?a" ?w]
    by (auto simp: list_tools_def pm_bind_def Let_def split: prod.splits sum.splits)
  with 1 show ?thesis by (intro exI [of _ w1]) simp
qed

end
