(* ===== verification/Org_Isolation.thy ===== *)
theory Org_Isolation
  imports Rest_Api
begin

text \<open>
  Isolation of organisations over the management endpoints: whatever a caller of one organisation asks for,
  the servers, tools, connections and sessions of the others are untouched.  The endpoints are gathered in
  one request type; the proof goes through each operation with the composition rules of \<open>preserves\<close>.
\<close>

section \<open>Requests\<close>

datatype api_req =
    RegisterServer server_data | UpdateServer uuid update_req | UnregisterServer uuid | ConnectServer uuid | DisconnectServer uuid
  | ListServers | GetServer uuid | ListTools "uuid option" "string option" bool | GetTool uuid | Discover "uuid option"
  | CreateSession session_body | GetSession uuid | EndSession uuid

fun api_handler :: "app_env \<Rightarrow> api_req \<Rightarrow> auth_ctx \<Rightarrow> app_world \<Rightarrow> app_world" where
  "api_handler env (RegisterServer b) auth w = snd (register_server env b auth w)"
| "api_handler env (UpdateServer i b) auth w = snd (update_mcp_server i b auth w)"
| "api_handler env (UnregisterServer i) auth w = snd (unregister_server env i auth w)"
| "api_handler env (ConnectServer i) auth w = snd (connect_server env i auth w)"
| "api_handler env (DisconnectServer i) auth w = snd (disconnect_server env i auth w)"
| "api_handler env ListServers auth w = snd (list_mcp_servers auth w)"
| "api_handler env (GetServer i) auth w = snd (get_mcp_server i auth w)"
| "api_handler env (ListTools p c l) auth w = snd (list_tools p c l auth w)"
| "api_handler env (GetTool i) auth w = snd (get_tool i auth w)"
| "api_handler env (Discover i) auth w = snd (trigger_discovery env i auth w)"
| "api_handler env (CreateSession b) auth w = snd (create_session env b auth w)"
| "api_handler env (GetSession i) auth w = snd (get_session i auth w)"
| "api_handler env (EndSession i) auth w = snd (end_session i auth w)"

text \<open>A request in its own session.\<close>

definition api_step :: "app_env \<Rightarrow> auth_ctx \<Rightarrow> app_world \<Rightarrow> api_req \<Rightarrow> app_world" where
  "api_step env auth w req = (api_handler env req auth w)\<lparr>ap_aborted := False\<rparr>"

section \<open>Ownership\<close>

definition owned :: "database \<Rightarrow> bool" where
  "owned d \<longleftrightarrow> distinct (map sv_id (db_servers d)) \<and> distinct (map sn_id (db_sessions d))
     \<and> (\<forall>t\<in>set (db_tools d). \<exists>s\<in>set (db_servers d). sv_id s = tl_server t \<and> sv_org s = tl_org t)
     \<and> (\<forall>c\<in>set (db_connections d). \<exists>s\<in>set (db_servers d). sv_id s = cn_server c \<and> sv_org s = cn_org c)"

definition others :: "uuid \<Rightarrow> database \<Rightarrow> server_row list \<times> tool_row list \<times> connection_row list \<times> session_row list" where
  "others o' d = (filter (\<lambda>s. sv_org s \<noteq> o') (db_servers d), filter (\<lambda>t. tl_org t \<noteq> o') (db_tools d),
     filter (\<lambda>c. cn_org c \<noteq> o') (db_connections d), filter (\<lambda>s. sn_org s \<noteq> o') (db_sessions d))"

text \<open>The invariant during a request of organisation \<open>o'\<close> that works on the servers \<open>S\<close> and the sessions \<open>T\<close>.\<close>

definition isolated ::
  "uuid \<Rightarrow> uuid set \<Rightarrow> uuid set \<Rightarrow> server_row list \<times> tool_row list \<times> connection_row list \<times> session_row list \<Rightarrow> database \<Rightarrow> bool" where
  "isolated o' S T oth d \<longleftrightarrow> owned d \<and> others o' d = oth
     \<and> (\<forall>s\<in>set (db_servers d). sv_id s \<in> S \<longrightarrow> sv_org s = o') \<and> (\<forall>s\<in>set (db_sessions d). sn_id s \<in> T \<longrightarrow> sn_org s = o')"

lemma filter_update_rows:
  assumes "\<And>r. r \<in> set rs \<Longrightarrow> P r \<Longrightarrow> \<not> Q r" "\<And>r. Q (f r) = Q r"
  shows "filter Q (update_rows P f rs) = filter Q rs"
  using assms by (induction rs) (auto simp: update_rows_def)

lemma map_update_rows: "(\<And>r. k (f r) = k r) \<Longrightarrow> map k (update_rows P f rs) = map k rs"
  by (induction rs) (auto simp: update_rows_def)

lemma update_rows_elem: "x \<in> set (update_rows P f rs) \<Longrightarrow> \<exists>r\<in>set rs. x = r \<or> P r \<and> x = f r"
  by (auto simp: set_update_rows)

lemma update_rows_keeps: "r \<in> set rs \<Longrightarrow> \<exists>x\<in>set (update_rows P f rs). x = r \<or> x = f r"
  by (auto simp: update_rows_def)

text \<open>Replacing the row of a server of the organisation.\<close>

lemma isolated_update_server:
  assumes "isolated o' S T oth d" and "sid \<in> S" and "\<And>s. sv_id (f s) = sv_id s" "\<And>s. sv_org (f s) = sv_org s"
  shows "isolated o' S T oth (d\<lparr>db_servers := update_rows (\<lambda>s. sv_id s = sid) f (db_servers d)\<rparr>)"
proof -
  let ?rs = "update_rows (\<lambda>s. sv_id s = sid) f (db_servers d)"
  have m: "map sv_id ?rs = map sv_id (db_servers d)" using assms(3) by (rule map_update_rows)
  have ff: "filter (\<lambda>s. sv_org s \<noteq> o') ?rs = filter (\<lambda>s. sv_org s \<noteq> o') (db_servers d)"
    by (rule filter_update_rows) (use assms in \<open>auto simp: isolated_def\<close>)
  have ex: "\<exists>x\<in>set ?rs. sv_id x = i \<and> sv_org x = c" if "\<exists>s\<in>set (db_servers d). sv_id s = i \<and> sv_org s = c" for i c
    using that update_rows_keeps [of _ "db_servers d" "\<lambda>s. sv_id s = sid" f] assms(3,4) by metis
  have all: "\<forall>s\<in>set ?rs. sv_id s \<in> S \<longrightarrow> sv_org s = o'"
    using assms(1) update_rows_elem [of _ "\<lambda>s. sv_id s = sid" f "db_servers d"] assms(3,4) unfolding isolated_def by metis
  show ?thesis using assms(1) m ff ex all by (simp add: isolated_def owned_def others_def)
qed

lemma isolated_status:
  assumes "isolated o' S T oth d" "sid \<in> S"
  shows "isolated o' S T oth (set_server_status sid st d)"
  unfolding set_server_status_def by (rule isolated_update_server [OF assms]) simp_all

lemma isolated_connections:
  assumes "isolated o' S T oth d" and "filter (\<lambda>c. cn_org c \<noteq> o') cs = filter (\<lambda>c. cn_org c \<noteq> o') (db_connections d)"
    and "\<And>c. c \<in> set cs \<Longrightarrow> \<exists>s\<in>set (db_servers d). sv_id s = cn_server c \<and> sv_org s = cn_org c"
  shows "isolated o' S T oth (d\<lparr>db_connections := cs\<rparr>)"
  using assms by (simp add: isolated_def owned_def others_def)

lemma isolated_tools:
  assumes "isolated o' S T oth d" and "filter (\<lambda>t. tl_org t \<noteq> o') ts = filter (\<lambda>t. tl_org t \<noteq> o') (db_tools d)"
    and "\<And>t. t \<in> set ts \<Longrightarrow> \<exists>s\<in>set (db_servers d). sv_id s = tl_server t \<and> sv_org s = tl_org t"
  shows "isolated o' S T oth (d\<lparr>db_tools := ts\<rparr>)"
  using assms by (simp add: isolated_def owned_def others_def)

lemma isolated_owner:
  assumes "isolated o' S T oth d" and "sid \<in> S" and "has_server sid d"
  shows "\<exists>s\<in>set (db_servers d). sv_id s = sid \<and> sv_org s = o'"
  using assms by (auto simp: isolated_def has_server_def list_ex_iff)

lemma isolated_tool_org: "isolated o' S T oth d \<Longrightarrow> t \<in> set (db_tools d) \<Longrightarrow> tl_server t \<in> S \<Longrightarrow> tl_org t = o'"
  unfolding isolated_def owned_def by metis

lemma isolated_conn_org: "isolated o' S T oth d \<Longrightarrow> c \<in> set (db_connections d) \<Longrightarrow> cn_server c \<in> S \<Longrightarrow> cn_org c = o'"
  unfolding isolated_def owned_def by metis

section \<open>The transactions\<close>

lemma latest_connection_in:
  assumes "latest_connection sid cs = Some c"
  shows "c \<in> set cs \<and> cn_server c = sid"
proof -
  have "foldl later_conn a xs = Some c \<Longrightarrow> a = Some c \<or> c \<in> set xs" for a and xs :: "connection_row list"
  proof (induction xs arbitrary: a)
    case (Cons x xs)
    then have "later_conn a x = Some c \<or> c \<in> set xs" by simp
    then show ?case by (cases a) (auto split: option.splits if_splits)
  qed simp
  from this [of None "filter (\<lambda>c. cn_server c = sid \<and> cn_status c = ''connected'') cs"] assms
  show ?thesis by (auto simp: latest_connection_def)
qed

lemma isolated_close_latest:
  assumes "isolated o' S T oth d" and "sid \<in> S"
  shows "isolated o' S T oth (d\<lparr>db_connections := close_latest sid now (db_connections d)\<rparr>)"
proof (cases "latest_connection sid (db_connections d)")
  case (Some c)
  let ?f = "\<lambda>r. r\<lparr>cn_status := ''disconnected'', cn_disconnected := Some now\<rparr>"
  have c: "c \<in> set (db_connections d)" "cn_org c = o'"
    using latest_connection_in [OF Some] isolated_conn_org [OF assms(1)] assms(2) by auto
  have old: "\<And>r. r \<in> set (db_connections d) \<Longrightarrow> \<exists>s\<in>set (db_servers d). sv_id s = cn_server r \<and> sv_org s = cn_org r"
    using assms(1) by (simp add: isolated_def owned_def)
  have "isolated o' S T oth (d\<lparr>db_connections := update_rows (\<lambda>r. r = c) ?f (db_connections d)\<rparr>)"
  proof (rule isolated_connections [OF assms(1)])
    show "filter (\<lambda>c. cn_org c \<noteq> o') (update_rows (\<lambda>r. r = c) ?f (db_connections d)) = filter (\<lambda>c. cn_org c \<noteq> o') (db_connections d)"
      by (rule filter_update_rows) (use c in auto)
    show "\<exists>s\<in>set (db_servers d). sv_id s = cn_server r \<and> sv_org s = cn_org r" if r: "r \<in> set (update_rows (\<lambda>r. r = c) ?f (db_connections d))" for r
      using update_rows_elem [OF r] old by auto
  qed
  then show ?thesis by (simp add: close_latest_def Some)
qed (use assms in \<open>simp add: close_latest_def isolated_def owned_def others_def\<close>)

lemma isolated_delete_server:
  assumes "isolated o' S T oth d" and "sid \<in> S"
  shows "isolated o' S T oth (delete_server_rows sid d)"
proof -
  have m: "distinct (map sv_id (filter (\<lambda>s. sv_id s \<noteq> sid) (db_servers d)))"
    using assms(1) by (auto simp: isolated_def owned_def intro: distinct_map_filter)
  have e: "filter (\<lambda>s. sv_id s \<noteq> sid \<and> sv_org s \<noteq> o') (db_servers d) = filter (\<lambda>s. sv_org s \<noteq> o') (db_servers d)"
    "filter (\<lambda>t. tl_server t \<noteq> sid \<and> tl_org t \<noteq> o') (db_tools d) = filter (\<lambda>t. tl_org t \<noteq> o') (db_tools d)"
    "filter (\<lambda>c. cn_server c \<noteq> sid \<and> cn_org c \<noteq> o') (db_connections d) = filter (\<lambda>c. cn_org c \<noteq> o') (db_connections d)"
    using assms isolated_tool_org [OF assms(1)] isolated_conn_org [OF assms(1)]
    by (auto simp: isolated_def intro!: filter_cong)
  have left: "\<exists>s\<in>set (filter (\<lambda>s. sv_id s \<noteq> sid) (db_servers d)). sv_id s = i \<and> sv_org s = c"
    if "\<exists>s\<in>set (db_servers d). sv_id s = i \<and> sv_org s = c" "i \<noteq> sid" for i c
    using that by auto
  have "owned (delete_server_rows sid d)"
    using assms(1) m left unfolding isolated_def owned_def delete_server_rows_def Let_def by simp
  then show ?thesis
    using assms(1) e by (auto simp: isolated_def others_def delete_server_rows_def Let_def)
qed

lemma upsert_row_isolated:
  assumes "tl_org t = o'"
  shows "filter (\<lambda>t. tl_org t \<noteq> o') (upsert_row t rs) = filter (\<lambda>t. tl_org t \<noteq> o') rs"
proof -
  have "filter (\<lambda>t. tl_org t \<noteq> o') (update_rows (\<lambda>r. same_tool r t)
      (\<lambda>r. r\<lparr>tl_description := tl_description t, tl_schema := tl_schema t, tl_status := TAvailable\<rparr>) rs) = filter (\<lambda>t. tl_org t \<noteq> o') rs"
    by (rule filter_update_rows) (use assms in \<open>auto simp: same_tool_def\<close>)
  then show ?thesis using assms by (simp add: upsert_row_def)
qed

lemma upsert_row_owner:
  assumes "\<And>r. r \<in> set rs \<Longrightarrow> keeper (tl_server r) (tl_org r)" and "keeper (tl_server t) (tl_org t)" and "x \<in> set (upsert_row t rs)"
  shows "keeper (tl_server x) (tl_org x)"
  using assms update_rows_elem [of x _ _ rs] unfolding upsert_row_def by (fastforce split: if_splits)

lemma fold_upsert_isolated:
  assumes "\<forall>v\<in>set vs. tl_org v = o' \<and> keeper (tl_server v) (tl_org v)" and "\<And>r. r \<in> set rs \<Longrightarrow> keeper (tl_server r) (tl_org r)"
  shows "filter (\<lambda>t. tl_org t \<noteq> o') (fold upsert_row vs rs) = filter (\<lambda>t. tl_org t \<noteq> o') rs
    \<and> (\<forall>x\<in>set (fold upsert_row vs rs). keeper (tl_server x) (tl_org x))"
  using assms
proof (induction vs arbitrary: rs)
  case (Cons v vs)
  have k: "\<And>r. r \<in> set (upsert_row v rs) \<Longrightarrow> keeper (tl_server r) (tl_org r)"
    by (rule upsert_row_owner [of rs keeper v]) (use Cons.prems in auto)
  have v: "\<forall>v\<in>set vs. tl_org v = o' \<and> keeper (tl_server v) (tl_org v)" "tl_org v = o'" using Cons.prems(1) by auto
  show ?case using Cons.IH [OF v(1) k] upsert_row_isolated [OF v(2), of rs] by simp
qed simp

lemma isolated_upsert:
  assumes i: "isolated o' S T oth d" and "sid \<in> S" and h: "has_server sid d"
    and u: "upsert_rows sid o' ids ts names (db_tools d) = Inr rs'" and n: "collect (map json_name ts) = Inr names"
  shows "isolated o' S T oth (d\<lparr>db_tools := rs'\<rparr>)"
proof -
  obtain vs where vs: "\<forall>v\<in>set vs. tl_server v = sid \<and> tl_org v = o' \<and> tl_status v = TAvailable"
    "rs' = fold upsert_row vs (mark_vanished sid names (db_tools d))"
    using upsert_rows_spec [OF u n] by metis
  let ?own = "\<lambda>i c. \<exists>s\<in>set (db_servers d). sv_id s = i \<and> sv_org s = c"
  have old: "\<And>r. r \<in> set (db_tools d) \<Longrightarrow> ?own (tl_server r) (tl_org r)" using i by (simp add: isolated_def owned_def)
  have m: "?own (tl_server r) (tl_org r)" if "r \<in> set (mark_vanished sid names (db_tools d))" for r
    using update_rows_elem [OF that [unfolded mark_vanished_def]] old by auto
  have "filter (\<lambda>t. tl_org t \<noteq> o') (mark_vanished sid names (db_tools d)) = filter (\<lambda>t. tl_org t \<noteq> o') (db_tools d)"
    unfolding mark_vanished_def by (rule filter_update_rows) (use isolated_tool_org [OF i] assms(2) in auto)
  moreover have "\<forall>v\<in>set vs. tl_org v = o' \<and> ?own (tl_server v) (tl_org v)"
    using vs(1) isolated_owner [OF i assms(2) h] by auto
  note v = this
  have "filter (\<lambda>t. tl_org t \<noteq> o') rs' = filter (\<lambda>t. tl_org t \<noteq> o') (mark_vanished sid names (db_tools d))
      \<and> (\<forall>x\<in>set rs'. ?own (tl_server x) (tl_org x))"
    unfolding vs(2) by (rule fold_upsert_isolated [of vs o' ?own, OF v]) (rule m)
  ultimately show ?thesis by (intro isolated_tools [OF i]) auto
qed

lemma isolated_new_server:
  assumes "isolated o' {} T oth d" and "\<not> has_server (sv_id row) d" and "sv_org row = o'"
  shows "isolated o' {} T oth (d\<lparr>db_servers := db_servers d @ [row]\<rparr>)"
  using assms by (auto simp: isolated_def owned_def others_def has_server_def list_ex_iff)

lemma isolated_new_session:
  assumes "isolated o' S {} oth d" and "\<not> list_ex (\<lambda>s. sn_id s = sn_id row) (db_sessions d)" and "sn_org row = o'"
  shows "isolated o' S {} oth (d\<lparr>db_sessions := db_sessions d @ [row]\<rparr>)"
  using assms by (auto simp: isolated_def owned_def others_def list_ex_iff)

lemma isolated_end_session:
  assumes "isolated o' S T oth d" and "i \<in> T"
  shows "isolated o' S T oth (d\<lparr>db_sessions := filter (\<lambda>r. sn_id r \<noteq> i) (db_sessions d), db_invocations := x\<rparr>)"
proof -
  have "filter (\<lambda>s. sn_id s \<noteq> i \<and> sn_org s \<noteq> o') (db_sessions d) = filter (\<lambda>s. sn_org s \<noteq> o') (db_sessions d)"
    using assms by (auto simp: isolated_def intro!: filter_cong)
  then show ?thesis
    using assms by (auto simp: isolated_def owned_def others_def distinct_map_filter)
qed

section \<open>Computations that preserve a property of the database\<close>

named_theorems preserves_intros \<open>composition rules for properties of the database\<close>

definition preserves :: "(database \<Rightarrow> bool) \<Rightarrow> (app_world, exc, 'a) pm \<Rightarrow> bool" where
  "preserves J m \<longleftrightarrow> (\<forall>w. J (ap_db w) \<longrightarrow> J (ap_db (snd (m w))))"

lemma preserves_keeps: "keeps ap_db m \<Longrightarrow> preserves J m"
  by (simp add: keeps_def preserves_def)

lemma preserves_pure [preserves_intros]: "preserves J (pm_return x)" "preserves J (pm_raise e)" "preserves J (pm_lift r)"
  by (simp_all add: preserves_def pm_defs)

lemma preserves_bind [preserves_intros]: "preserves J m \<Longrightarrow> (\<And>x. preserves J (k x)) \<Longrightarrow> preserves J (pm_bind m k)"
  unfolding preserves_def pm_bind_def by (simp add: case_prod_beta split: sum.split)

lemma preserves_then [preserves_intros]: "preserves J m \<Longrightarrow> preserves J k \<Longrightarrow> preserves J (pm_then m k)"
  unfolding preserves_def pm_then_def by (simp add: case_prod_beta split: sum.split)

lemma preserves_catch [preserves_intros]: "preserves J m \<Longrightarrow> (\<And>e. preserves J (h e)) \<Longrightarrow> preserves J (pm_catch m h)"
  unfolding preserves_def pm_catch_def by (simp add: case_prod_beta split: sum.split)

lemma preserves_if [preserves_intros]: "preserves J a \<Longrightarrow> preserves J b \<Longrightarrow> preserves J (if c then a else b)"
  by simp

lemma preserves_at: "(\<And>w. preserves J (m w)) \<Longrightarrow> preserves J (\<lambda>w. m w w)"
  by (simp add: preserves_def)

lemma preserves_sql_run:
  assumes "\<And>d x d'. J d \<Longrightarrow> f d = Inr (x, d') \<Longrightarrow> J d'"
  shows "preserves J (sql_run f)"
  using assms by (auto simp: preserves_def sql_run_def transact_def split: list.split option.split sum.split)

lemma preserves_sql: "(\<And>d. J d \<Longrightarrow> J (f d)) \<Longrightarrow> preserves J (sql f)"
  unfolding sql_def by (rule preserves_sql_run) auto

lemma preserves_parts [preserves_intros]:
  "preserves J (sql_query q)" "preserves J (app_cache_set k v ttl)" "preserves J (app_cache_get k)" "preserves J (app_cache_delete k)"
  "preserves J (redis_do r)" "preserves J (fresh_id env)" "preserves J (parse_uuid s)"
  by (rule preserves_keeps, rule keeps_intros)+ (simp add: parse_uuid_def preserves_intros split: option.split)

lemma preserves_on_exec [preserves_intros]: "net_only m \<Longrightarrow> preserves J (on_exec m)"
  unfolding preserves_def by (metis on_exec_net(1) prod.collapse)

lemma preserves_modify_active [preserves_intros]: "preserves J (pm_modify (\<lambda>w. w\<lparr>ap_active := f w\<rparr>))"
  by (simp add: preserves_def pm_modify_def)

text \<open>A read that establishes more about what follows.\<close>

lemma preserves_bind_more:
  assumes "\<And>w x w'. J (ap_db w) \<Longrightarrow> m w = (Inr x, w') \<Longrightarrow> K x (ap_db w')" "preserves J m"
    and "\<And>x. preserves (K x) (k x)" "\<And>x d. K x d \<Longrightarrow> J d"
  shows "preserves J (pm_bind m k)"
  unfolding preserves_def
proof (intro allI impI)
  fix w
  assume j: "J (ap_db w)"
  obtain r w' where m: "m w = (r, w')" by (cases "m w")
  show "J (ap_db (snd (pm_bind m k w)))"
  proof (cases r)
    case (Inl e)
    then show ?thesis using assms(2) j m by (auto simp: pm_bind_def preserves_def dest: spec [of _ w])
  next
    case (Inr x)
    then have "K x (ap_db (snd (k x w')))" using assms(1) [OF j] assms(3) m unfolding preserves_def by blast
    then show ?thesis using m Inr assms(4) by (simp add: pm_bind_def)
  qed
qed

section \<open>The operations\<close>

lemma preserves_write_health [preserves_intros]: "preserves J (write_health env c i st e)"
  by (simp add: preserves_def write_health_def app_cache_set_def redis_do_aborted)

lemma preserves_record_connected:
  assumes "sv_id s \<in> S" and "sv_org s = o'"
  shows "preserves (isolated o' S T oth) (record_connected env s caps)"
proof -
  have row: "isolated o' S T oth ((set_server_status (sv_id s) SActive d)\<lparr>db_connections := db_connections d @ [row]\<rparr>)"
    if i: "isolated o' S T oth d" and h: "has_server (sv_id s) d" and r: "cn_server row = sv_id s" "cn_org row = sv_org s" for d row
  proof -
    let ?d = "set_server_status (sv_id s) SActive d"
    have i': "isolated o' S T oth ?d" by (rule isolated_status [OF i assms(1)])
    obtain x where x: "x \<in> set (db_servers ?d)" "sv_id x = sv_id s" "sv_org x = o'"
      using isolated_owner [OF i' assms(1)] h by auto
    have old: "\<And>c. c \<in> set (db_connections ?d) \<Longrightarrow> \<exists>s\<in>set (db_servers ?d). sv_id s = cn_server c \<and> sv_org s = cn_org c"
      using i' by (simp add: isolated_def owned_def)
    have e: "db_connections ?d = db_connections d" by (simp add: set_server_status_def)
    have "isolated o' S T oth (?d\<lparr>db_connections := db_connections ?d @ [row]\<rparr>)"
      by (rule isolated_connections [OF i']) (use r assms(2) x old in auto)
    then show ?thesis by (simp only: e)
  qed
  show ?thesis
    unfolding record_connected_def Let_def
    by (rule preserves_bind, rule preserves_parts, rule preserves_at)
      (intro preserves_then preserves_write_health preserves_sql_run, use row in \<open>auto split: if_splits\<close>)
qed

lemma preserves_record_error:
  assumes "sv_id s \<in> S"
  shows "preserves (isolated o' S T oth) (record_error env s m)"
  unfolding record_error_def
  by (intro preserves_then preserves_write_health preserves_sql isolated_status assms)

lemma preserves_connect:
  assumes "sv_id s \<in> S" and "sv_org s = o'"
  shows "preserves (isolated o' S T oth) (server_connect env s)"
proof -
  note pc = preserves_record_connected [OF assms] and pe = preserves_record_error [OF assms(1)]
  have st: "preserves (isolated o' S T oth) (sql (set_server_status (sv_id s) SConnecting))"
    by (intro preserves_sql isolated_status assms(1))
  have r: "preserves (isolated o' S T oth) (connect_remote env s)"
    unfolding connect_remote_def Let_def cache_capabilities_def
    by (intro preserves_bind preserves_on_exec net_only_connect)
      (auto intro!: preserves_then preserves_pure preserves_parts preserves_modify_active pc)
  let ?go = "\<lambda>m. pm_then (sql (set_server_status (sv_id s) SConnecting)) m"
  have body: "preserves (isolated o' S T oth) (?go
      (if sv_type s = LOCAL_PLUGIN then pm_then (record_connected env s (JObj [])) (pm_return x)
       else if \<not> str_truthy (sv_endpoint s) then pm_then (record_error env s ''No endpoint URL configured'') (pm_raise y)
       else pm_catch (connect_remote env s)
         (\<lambda>e. if is_exception e then pm_then (record_error env s (exc_msg e)) (pm_raise e) else pm_raise e)))" for x y
    by (intro preserves_then preserves_if preserves_catch preserves_pure pc pe r st)
  show ?thesis
    using body unfolding preserves_def server_connect_def Let_def by (auto simp del: not_None_eq)
qed

lemma preserves_disconnect:
  assumes "sv_id s \<in> S"
  shows "preserves (isolated o' S T oth) (server_disconnect env s)"
proof -
  have c: "preserves (isolated o' S T oth) (close_client env i)" for i
    unfolding preserves_def by (metis close_client_calm prod.collapse)
  have "isolated o' S T oth ((set_server_status (sv_id s) SInactive d)\<lparr>db_connections := close_latest (sv_id s) t (db_connections d)\<rparr>)"
    if "isolated o' S T oth d" for d t
  proof -
    let ?d = "set_server_status (sv_id s) SInactive d"
    have "isolated o' S T oth (?d\<lparr>db_connections := close_latest (sv_id s) t (db_connections ?d)\<rparr>)"
      by (intro isolated_close_latest isolated_status that assms)
    then show ?thesis by (simp add: set_server_status_def)
  qed
  then have q: "preserves (isolated o' S T oth) (sql (\<lambda>d. (set_server_status (sv_id s) SInactive d)
      \<lparr>db_connections := close_latest (sv_id s) t (db_connections d)\<rparr>))" for t
    by (rule preserves_sql)
  show ?thesis
    unfolding server_disconnect_def Let_def
    by (rule preserves_then, rule c, rule preserves_at) (intro preserves_then preserves_write_health q)
qed

lemma preserves_upsert:
  assumes "sid \<in> S"
  shows "preserves (isolated o' S T oth) (upsert_tools env sid o' tools)"
proof (cases "tool_names tools")
  case (Inl e)
  then show ?thesis
    unfolding upsert_tools_def by (cases "json_iter tools") (auto intro: preserves_intros)
next
  case (Inr names)
  then obtain ts where ts: "json_iter tools = Inr ts" "collect (map json_name ts) = Inr names"
    by (auto simp: tool_names_def split: sum.splits)
  have q: "preserves (isolated o' S T oth) (pm_then (sql_run (\<lambda>d. if \<not> has_server sid d then Inl integrity_error
      else (case upsert_rows sid o' ids ts names (db_tools d) of Inl e \<Rightarrow> Inl e | Inr rs \<Rightarrow> Inr ((), d\<lparr>db_tools := rs\<rparr>)))) (pm_return k))"
    for ids and k :: nat
    by (intro preserves_then preserves_pure preserves_sql_run)
      (auto split: if_splits sum.splits intro: isolated_upsert [OF _ assms _ _ ts(2)])
  have "isolated o' S T oth (ap_db w) \<Longrightarrow> isolated o' S T oth (ap_db (snd (upsert_tools env sid o' tools w)))" for w
  proof (cases "truthy tools")
    case True
    let ?v = "w\<lparr>ap_ids := ap_ids w + length ts\<rparr>"
    assume "isolated o' S T oth (ap_db w)"
    then have "isolated o' S T oth (ap_db ?v)" by simp
    then show ?thesis
      using q [of "\<lambda>n. ae_new_id env (ap_ids w + n)" "length ts"] True Inr ts(1)
      unfolding preserves_def by (simp add: upsert_tools_def Let_def)
  qed (simp add: upsert_tools_def pm_return_def)
  then show ?thesis by (simp add: preserves_def)
qed

lemma preserves_discover_server:
  assumes "sv_id s \<in> S" and "sv_org s = o'"
  shows "preserves (isolated o' S T oth) (discover_server env s)"
proof -
  have r: "preserves (isolated o' S T oth) (discover_remote env s c)" for c
    unfolding discover_remote_def store_capabilities_def assms(2)
    by (intro preserves_bind preserves_then preserves_pure preserves_parts preserves_on_exec net_only_list_tools preserves_upsert assms(1))
  have l: "preserves (isolated o' S T oth) (discover_local i)" for i
    unfolding discover_local_def Let_def store_capabilities_def
    by (rule preserves_at) (intro preserves_then preserves_pure preserves_parts)
  show ?thesis
    using r l unfolding preserves_def discover_server_def by (auto split: option.split)
qed

lemma preserves_discover_list:
  assumes "\<forall>s\<in>set ss. sv_id s \<in> S \<and> sv_org s = o'"
  shows "preserves (isolated o' S T oth) (discover_list env ss n)"
  using assms
proof (induction ss arbitrary: n)
  case (Cons s ss)
  have "preserves (isolated o' S T oth) (discover_or_zero env s)"
    unfolding discover_or_zero_def
    by (intro preserves_catch preserves_if preserves_pure preserves_discover_server) (use Cons.prems in auto)
  then show ?case
    using Cons by (simp add: preserves_bind)
qed (simp add: preserves_pure)

text \<open>Any number of servers of the organisation may be added to those a request works on.\<close>

lemma isolated_more:
  assumes "isolated o' S T oth d" and "\<And>s. s \<in> set ss \<Longrightarrow> s \<in> set (db_servers d) \<and> sv_org s = o'"
  shows "isolated o' (S \<union> sv_id ` set ss) T oth d"
proof -
  have "distinct (map sv_id (db_servers d))" using assms(1) by (simp add: isolated_def owned_def)
  then have "x = s" if "x \<in> set (db_servers d)" "s \<in> set (db_servers d)" "sv_id x = sv_id s" for x s
    using that by (meson distinct_map inj_onD)
  then show ?thesis using assms unfolding isolated_def by blast
qed

lemma isolated_less: "isolated o' (S \<union> S') (T \<union> T') oth d \<Longrightarrow> isolated o' S T oth d"
  by (auto simp: isolated_def)

lemma preserves_discover: "preserves (isolated o' S T oth) (discover env o' sid)"
proof -
  have "servers_to_discover o' sid d = ss \<Longrightarrow> s \<in> set ss \<Longrightarrow> s \<in> set (db_servers d) \<and> sv_org s = o'" for d s ss
    by (auto simp: servers_to_discover_def first_row_def dest: find_SomeD split: option.splits)
  then have q: "isolated o' (S \<union> sv_id ` set ss) T oth (ap_db w') \<and> (\<forall>s\<in>set ss. sv_org s = o')"
    if "isolated o' S T oth (ap_db w)" "sql_query (servers_to_discover o' sid) w = (Inr ss, w')" for w ss w'
    using that isolated_more [of o' S T oth "ap_db w" ss]
    by (auto simp: sql_query_def sql_run_def transact_def split: if_splits list.splits option.splits)
  show ?thesis
    unfolding discover_def
  proof (rule preserves_bind_more [where K = "\<lambda>ss d. isolated o' (S \<union> sv_id ` set ss) T oth d \<and> (\<forall>s\<in>set ss. sv_org s = o')"])
    show "preserves (isolated o' S T oth) (sql_query (servers_to_discover o' sid))" by (rule preserves_parts)
    fix ss :: "server_row list" and d
    show "isolated o' (S \<union> sv_id ` set ss) T oth d \<and> (\<forall>s\<in>set ss. sv_org s = o') \<Longrightarrow> isolated o' S T oth d"
      using isolated_less [of o' S "sv_id ` set ss" T "{}" oth d] by simp
    show "preserves (\<lambda>d. isolated o' (S \<union> sv_id ` set ss) T oth d \<and> (\<forall>s\<in>set ss. sv_org s = o'))
        (pm_bind (discover_list env ss 0) (\<lambda>n. pm_then (app_cache_delete (key_org_tools (uuid_str o'))) (pm_return n)))"
    proof (cases "\<forall>s\<in>set ss. sv_org s = o'")
      case True
      have "preserves (isolated o' (S \<union> sv_id ` set ss) T oth)
          (pm_bind (discover_list env ss 0) (\<lambda>n. pm_then (app_cache_delete (key_org_tools (uuid_str o'))) (pm_return n)))"
        by (intro preserves_bind preserves_then preserves_pure preserves_parts preserves_discover_list) (use True in auto)
      then show ?thesis using True by (simp add: preserves_def)
    qed (auto simp: preserves_def)
  qed (use q in blast)
qed

section \<open>The endpoints\<close>

lemma server_of_found:
  assumes "server_of auth sid w = (Inr s, w')" and "uuid_parse (au_org auth) = Some o'"
  shows "s \<in> set (db_servers (ap_db w')) \<and> sv_id s = sid \<and> sv_org s = o'"
  using assms
  by (auto simp: server_of_def parse_uuid_def get_server_def pm_bind_def pm_return_def pm_raise_def sql_query_def sql_run_def
      transact_def first_row_def dest: find_SomeD split: if_splits list.splits option.splits)

lemma session_of_found:
  assumes "session_of auth i w = (Inr s, w')" and "uuid_parse (au_org auth) = Some o'"
  shows "s \<in> set (db_sessions (ap_db w')) \<and> sn_id s = i \<and> sn_org s = o'"
  using assms
  by (auto simp: session_of_def parse_uuid_def session_get_def pm_bind_def pm_return_def pm_raise_def sql_query_def sql_run_def
      transact_def first_row_def dest: find_SomeD split: if_splits list.splits option.splits)

lemma preserves_reads [preserves_intros]:
  "preserves J (server_of auth sid)" "preserves J (session_of auth i)"
proof -
  have "preserves J (case x of None \<Rightarrow> pm_raise e | Some y \<Rightarrow> pm_return y)" for x :: "'x option" and e
    by (cases x) (simp_all add: preserves_pure)
  then show "preserves J (session_of auth i)"
    unfolding session_of_def session_get_def by (intro preserves_bind preserves_parts) (simp split: option.split add: preserves_pure)
  show "preserves J (server_of auth sid)"
    unfolding server_of_def get_server_def by (intro preserves_bind preserves_parts) (simp split: option.split add: preserves_pure)
qed

text \<open>A handler that looks up a server of the caller and then works on it.\<close>

lemma preserves_on_server:
  assumes o: "uuid_parse (au_org auth) = Some o'"
    and k: "\<And>s. sv_id s = sid \<Longrightarrow> sv_org s = o' \<Longrightarrow> preserves (isolated o' {sid} {} oth) (k s)"
  shows "preserves (isolated o' {} {} oth) (pm_bind (server_of auth sid) k)"
proof (rule preserves_bind_more [where K = "\<lambda>s d. isolated o' {sid} {} oth d \<and> sv_id s = sid \<and> sv_org s = o'"])
  fix w s w'
  assume i: "isolated o' {} {} oth (ap_db w)" and f: "server_of auth sid w = (Inr s, w')"
  have "isolated o' {} {} oth (ap_db w')" using preserves_reads(1) i f unfolding preserves_def by (metis snd_conv)
  from isolated_more [OF this, of "[s]"] server_of_found [OF f o]
  show "isolated o' {sid} {} oth (ap_db w') \<and> sv_id s = sid \<and> sv_org s = o'" by simp
next
  fix s
  show "preserves (\<lambda>d. isolated o' {sid} {} oth d \<and> sv_id s = sid \<and> sv_org s = o') (k s)"
    using k [of s] unfolding preserves_def by auto
next
  fix s :: server_row and d
  show "isolated o' {sid} {} oth d \<and> sv_id s = sid \<and> sv_org s = o' \<Longrightarrow> isolated o' {} {} oth d"
    using isolated_less [of o' "{}" "{sid}" "{}" "{}" oth d] by simp
qed (rule preserves_reads)

lemma preserves_on_session:
  assumes o: "uuid_parse (au_org auth) = Some o'"
  shows "preserves (isolated o' {} {} oth) (end_session i auth)"
  unfolding end_session_def
proof (rule preserves_bind_more [where K = "\<lambda>s d. isolated o' {} {i} oth d \<and> sn_id s = i"])
  fix w s w'
  assume j: "isolated o' {} {} oth (ap_db w)" and f: "session_of auth i w = (Inr s, w')"
  have iso: "isolated o' {} {} oth (ap_db w')" using preserves_reads(2) j f unfolding preserves_def by (metis snd_conv)
  note s = session_of_found [OF f o]
  have "distinct (map sn_id (db_sessions (ap_db w')))" using iso by (simp add: isolated_def owned_def)
  then have "x = s" if "x \<in> set (db_sessions (ap_db w'))" "sn_id x = i" for x
    using that s by (metis distinct_map inj_onD)
  then show "isolated o' {} {i} oth (ap_db w') \<and> sn_id s = i" using iso s by (auto simp: isolated_def)
next
  fix s
  have "preserves (isolated o' {} {i} oth) (session_end s)" if "sn_id s = i"
    unfolding session_end_def that by (intro preserves_then preserves_parts preserves_sql isolated_end_session) simp_all
  then show "preserves (\<lambda>d. isolated o' {} {i} oth d \<and> sn_id s = i) (session_end s)"
    unfolding preserves_def by auto
next
  fix s :: session_row and d
  show "isolated o' {} {i} oth d \<and> sn_id s = i \<Longrightarrow> isolated o' {} {} oth d"
    using isolated_less [of o' "{}" "{}" "{}" "{i}" oth d] by simp
qed (rule preserves_reads)

lemma preserves_update:
  assumes "uuid_parse (au_org auth) = Some o'"
  shows "preserves (isolated o' {} {} oth) (update_mcp_server sid b auth)"
  unfolding update_mcp_server_def
proof (rule preserves_on_server [OF assms])
  fix s :: server_row
  show "preserves (isolated o' {sid} {} oth)
     (sql_run (\<lambda>d. if 255 < length (sv_name (apply_update b s)) then Inl data_error
        else Inr (apply_update b s, d\<lparr>db_servers := update_rows (\<lambda>x. sv_id x = sid) (apply_update b) (db_servers d)\<rparr>)))"
    by (rule preserves_sql_run) (auto split: if_splits intro!: isolated_update_server simp: apply_update_def)
qed

lemma preserves_unregister:
  assumes "uuid_parse (au_org auth) = Some o'"
  shows "preserves (isolated o' {} {} oth) (unregister_server env sid auth)"
  unfolding unregister_server_def
proof (rule preserves_on_server [OF assms])
  fix s :: server_row
  assume s: "sv_id s = sid" "sv_org s = o'"
  have d: "preserves (isolated o' {sid} {} oth) (server_disconnect env s)" by (rule preserves_disconnect) (simp add: s)
  have x: "preserves (isolated o' {sid} {} oth) (delete_server s)"
    unfolding delete_server_def s by (intro preserves_sql isolated_delete_server) simp_all
  show "preserves (isolated o' {sid} {} oth)
     (pm_then (pm_catch (server_disconnect env s) (\<lambda>e. if is_exception e then pm_return () else pm_raise e))
       (pm_then (delete_server s)
         (pm_bind (redis_do (\<lambda>now r. cache_delete_pattern now (key_org_tools (au_org auth)) r)) (\<lambda>_. pm_return ()))))"
    by (intro preserves_then preserves_catch preserves_if preserves_pure preserves_bind preserves_parts d x)
qed

lemma preserves_connect_server:
  assumes "uuid_parse (au_org auth) = Some o'"
  shows "preserves (isolated o' {} {} oth) (connect_server env sid auth)"
  unfolding connect_server_def
proof (rule preserves_on_server [OF assms])
  fix s :: server_row
  assume s: "sv_id s = sid" "sv_org s = o'"
  have c: "preserves (isolated o' {sid} {} oth) (server_connect env s)" by (rule preserves_connect) (simp_all add: s)
  have p: "parse_uuid (au_org auth) = pm_return o'" by (simp add: parse_uuid_def assms)
  have ret: "pm_bind (pm_return o') k = k o'" for k :: "uuid \<Rightarrow> (app_world, exc, json) pm"
    by (simp add: pm_bind_def pm_return_def fun_eq_iff)
  show "preserves (isolated o' {sid} {} oth)
     (pm_bind (pm_catch (server_connect env s) (\<lambda>e. if is_exception e then pm_raise (Exc (HTTPExc 502) (exc_msg e)) else pm_raise e))
       (\<lambda>result. pm_bind (parse_uuid (au_org auth)) (\<lambda>org.
          pm_bind (discover env org (Some sid)) (\<lambda>n. pm_return (with_field ''tools_discovered'' (JInt (int n)) result)))))"
    unfolding p ret by (intro preserves_bind preserves_catch preserves_if preserves_pure c preserves_discover)
qed

lemma preserves_disconnect_server:
  assumes "uuid_parse (au_org auth) = Some o'"
  shows "preserves (isolated o' {} {} oth) (disconnect_server env sid auth)"
  unfolding disconnect_server_def
  by (rule preserves_on_server [OF assms]) (auto intro!: preserves_then preserves_pure preserves_disconnect)

lemma preserves_register:
  assumes "uuid_parse (au_org auth) = Some o'"
  shows "preserves (isolated o' {} {} oth) (register_server env b auth)"
proof -
  have q: "preserves (isolated o' {} {} oth) (sql_run (\<lambda>d. if has_server i d \<or> list_ex (\<lambda>s. sv_org s = o' \<and> sv_slug s = sd_slug b) (db_servers d)
      then Inl integrity_error else Inr (new_server_row i t o' b, d\<lparr>db_servers := db_servers d @ [new_server_row i t o' b]\<rparr>)))" for i t
    by (rule preserves_sql_run) (auto split: if_splits intro!: isolated_new_server simp: new_server_row_def)
  have c: "preserves (isolated o' {} {} oth) (create_server env o' b)"
    unfolding create_server_def Let_def by (rule preserves_bind, rule preserves_parts, rule preserves_at, rule q)
  show ?thesis
    unfolding register_server_def parse_uuid_def assms option.case
    using c by (auto simp: preserves_def pm_bind_def pm_return_def pm_raise_def)
qed

lemma preserves_create_session:
  assumes "uuid_parse (au_org auth) = Some o'"
  shows "preserves (isolated o' {} {} oth) (create_session env b auth)"
proof -
  have row: "preserves (isolated o' {} {} oth) (sql_run (\<lambda>d. if list_ex (\<lambda>s. sn_id s = i) (db_sessions d) then Inl integrity_error
      else Inr ((), d\<lparr>db_sessions := db_sessions d @ [row]\<rparr>)))" if "sn_id row = i" "sn_org row = o'" for i row
    by (rule preserves_sql_run) (use that in \<open>auto split: if_splits intro!: isolated_new_session\<close>)
  have c: "preserves (isolated o' {} {} oth) (session_create env q)" if "sq_org q = o'" for q
    unfolding session_create_def Let_def
    by (rule preserves_bind, rule preserves_parts, rule preserves_at)
      (intro preserves_then preserves_parts preserves_pure row, simp_all add: that)
  have p: "preserves J (case x of Some p \<Rightarrow> pm_return (Some p) | None \<Rightarrow> y)" if "preserves J y" for J x and y :: "(app_world, exc, uuid option) pm"
    using that by (cases x) (simp_all add: preserves_pure)
  have ret: "pm_bind (pm_return o') k = k o'" for k :: "uuid \<Rightarrow> (app_world, exc, session_row) pm"
    by (simp add: pm_bind_def pm_return_def fun_eq_iff)
  show ?thesis
    unfolding create_session_def parse_uuid_def [of "au_org auth"] assms option.case ret
    by (intro preserves_if preserves_pure preserves_bind p preserves_parts c) simp
qed

lemma preserves_list_tools: "preserves J (list_tools p c l auth)"
proof -
  have "preserves J (registered_tools p c auth)"
    unfolding registered_tools_def by (intro preserves_bind preserves_if preserves_then preserves_pure preserves_parts)
  then show ?thesis unfolding list_tools_def by (intro preserves_bind) (simp_all add: preserves_def Let_def)
qed

lemma preserves_get_tool: "preserves J (get_tool i auth)"
  unfolding get_tool_def by (intro preserves_bind preserves_parts) (simp split: option.split add: preserves_pure)

lemma preserves_trigger:
  assumes "uuid_parse (au_org auth) = Some o'"
  shows "preserves (isolated o' {} {} oth) (trigger_discovery env sid auth)"
proof -
  have "preserves (isolated o' {} {} oth) (pm_bind (discover env o' sid) (\<lambda>n. pm_return (JObj [(''discovered'', JInt (int n)), (''org_id'', JStr (au_org auth))])))"
    by (intro preserves_bind preserves_pure preserves_discover)
  then show ?thesis
    unfolding trigger_discovery_def parse_uuid_def assms option.case by (simp add: preserves_def pm_bind_def pm_return_def)
qed

lemma preservesD: "preserves J m \<Longrightarrow> J (ap_db w) \<Longrightarrow> J (ap_db (snd (m w)))"
  by (simp add: preserves_def)

lemma handler_isolated:
  assumes o: "uuid_parse (au_org auth) = Some o'" and i: "isolated o' {} {} oth (ap_db w)"
  shows "isolated o' {} {} oth (ap_db (api_handler env req auth w))"
proof -
  have ls: "preserves (isolated o' {} {} oth) (list_mcp_servers auth)"
    unfolding list_mcp_servers_def list_servers_def by (intro preserves_bind preserves_parts)
  note p = preserves_register [OF o] preserves_update [OF o] preserves_unregister [OF o] preserves_connect_server [OF o]
    preserves_disconnect_server [OF o] ls preserves_reads preserves_list_tools preserves_get_tool preserves_trigger [OF o]
    preserves_create_session [OF o] preserves_on_session [OF o]
  show ?thesis
    by (cases req) (auto simp: get_mcp_server_def get_session_def intro!: preservesD [where J = "isolated o' {} {} oth"] p i)
qed

interpretation management: op_invariant "api_step env auth"
  "\<lambda>w. uuid_parse (au_org auth) = Some o' \<longrightarrow> isolated o' {} {} oth (ap_db w)" for env auth o' oth
  by unfold_locales (simp add: api_step_def handler_isolated)



end
