(* ===== verification/Cloud_Syncer.thy ===== *)
theory Cloud_Syncer
  imports Tool_Executor Mcp_Client
begin

text \<open>
  The synchronisation of tool files from S3 and Supabase, \<open>app/core/runtime/cloud_syncer.py\<close>.  The part of the
  file system the service sees is a dictionary of files and a list of directories, both by absolute location
  without \<open>..\<close> (there are no symbolic links).  The record \<open>sync_env\<close> collects what is outside the service: the
  AWS variables, the boto3 client, the object store, the Supabase HTTP interface, the decoding of file contents and
  the locations the operating system refuses to change.  The \<open>n\<close>-th outside operation has its own outcome.
  Users, projects and tool names come from clients as arbitrary JSON values.
\<close>

section \<open>The file system\<close>

type_synonym location = "string list"

text \<open>\<open>..\<close> goes to the parent, at the root it stays.\<close>

fun climb :: "string list \<Rightarrow> string list \<Rightarrow> location" where
  "climb acc [] = rev acc"
| "climb acc (c # cs) = (if c = ''..'' then climb (drop 1 acc) cs else climb (c # acc) cs)"

definition locate :: "string list \<Rightarrow> location" where
  "locate ps = climb [] ps"

record file_system =
  fs_files :: "(location, string) dict"
  fs_dirs :: "location list"

definition fs_is_dir :: "file_system \<Rightarrow> location \<Rightarrow> bool" where
  "fs_is_dir f l \<longleftrightarrow> l = [] \<or> l \<in> set (fs_dirs f)"

definition fs_is_file :: "file_system \<Rightarrow> location \<Rightarrow> bool" where
  "fs_is_file f l \<longleftrightarrow> dict_get (fs_files f) l \<noteq> None"

text \<open>A path names something only when every step on the way is a directory.\<close>

definition reachable :: "file_system \<Rightarrow> string list \<Rightarrow> bool" where
  "reachable f ps \<longleftrightarrow> list_all (\<lambda>i. fs_is_dir f (locate (take i ps))) [0..<length ps]"

definition fs_exists :: "file_system \<Rightarrow> string list \<Rightarrow> bool" where
  "fs_exists f ps \<longleftrightarrow> reachable f ps \<and> (fs_is_dir f (locate ps) \<or> fs_is_file f (locate ps))"

definition not_a_dir :: exc where
  "not_a_dir = Exc OSErr ''Not a directory''"

text \<open>\<open>mkdir(parents=True, exist_ok=True)\<close>, step by step from the root.\<close>

fun make_dirs :: "(location \<Rightarrow> exc option) \<Rightarrow> location list \<Rightarrow> (file_system, exc, unit) pm" where
  "make_dirs denied [] f = (Inr (), f)"
| "make_dirs denied (l # ls) f =
     (if fs_is_dir f l then make_dirs denied ls f
      else if fs_is_file f l then (Inl not_a_dir, f)
      else (case denied l of Some e \<Rightarrow> (Inl e, f) | None \<Rightarrow> make_dirs denied ls (f\<lparr>fs_dirs := fs_dirs f @ [l]\<rparr>)))"

definition steps_of :: "string list \<Rightarrow> location list" where
  "steps_of ps = map (\<lambda>i. locate (take i ps)) [0..<Suc (length ps)]"

definition write_file :: "(location \<Rightarrow> exc option) \<Rightarrow> string list \<Rightarrow> string \<Rightarrow> (file_system, exc, unit) pm" where
  "write_file denied ps text f =
     (if \<not> reachable f ps then (Inl (Exc FileNotFoundErr ''No such file or directory''), f)
      else if fs_is_dir f (locate ps) then (Inl (Exc IsADirectoryErr ''Is a directory''), f)
      else (case denied (locate ps) of
              Some e \<Rightarrow> (Inl e, f)
            | None \<Rightarrow> (Inr (), f\<lparr>fs_files := dict_set (locate ps) text (fs_files f)\<rparr>)))"

text \<open>\<open>shutil.rmtree(.., ignore_errors=True)\<close> of a directory: what may be removed below it is.\<close>

definition below :: "location \<Rightarrow> location \<Rightarrow> bool" where
  "below d l \<longleftrightarrow> take (length d) l = d"

definition remove_tree :: "(location \<Rightarrow> exc option) \<Rightarrow> location \<Rightarrow> file_system \<Rightarrow> file_system" where
  "remove_tree denied d f =
     (if \<not> fs_is_dir f d then f
      else (let fs = filter (\<lambda>(l, _). \<not> (below d l \<and> denied l = None)) (fs_files f)
            in f\<lparr>fs_files := fs,
                 fs_dirs := filter (\<lambda>l. \<not> (below d l \<and> denied l = None
                    \<and> \<not> list_ex (\<lambda>(x, _). below l x) fs)) (fs_dirs f)\<rparr>))"

text \<open>The tree below a location, as the plugin loader scans it.\<close>

definition child_names :: "file_system \<Rightarrow> location \<Rightarrow> string list" where
  "child_names f l =
     remdups (map (\<lambda>x. x ! length l) (filter (\<lambda>x. below l x \<and> length l < length x) (map fst (fs_files f) @ fs_dirs f)))"

fun tree_at :: "(string \<Rightarrow> exc + string) \<Rightarrow> file_system \<Rightarrow> nat \<Rightarrow> location \<Rightarrow> fsnode" where
  "tree_at dec f 0 l = FDir (Inr [])"
| "tree_at dec f (Suc n) l =
     (case dict_get (fs_files f) l of
        Some t \<Rightarrow> FFile (dec t)
      | None \<Rightarrow> FDir (Inr (map (\<lambda>c. (c, tree_at dec f n (l @ [c]))) (child_names f l))))"

definition fs_depth :: "file_system \<Rightarrow> nat" where
  "fs_depth f = Suc (Suc (foldr max (map length (map fst (fs_files f) @ fs_dirs f)) 0))"

definition fs_node :: "(string \<Rightarrow> exc + string) \<Rightarrow> file_system \<Rightarrow> string list \<Rightarrow> fsnode option" where
  "fs_node dec f ps = (if fs_exists f ps then Some (tree_at dec f (fs_depth f) (locate ps)) else None)"

section \<open>The environment and the state\<close>

record s3_obj =
  ob_key :: string
  ob_etag :: "string option"

record sync_env =
  sx_boto :: bool
  sx_aws_key :: "string option"
  sx_aws_secret :: "string option"
  sx_client :: "string \<times> string \<Rightarrow> exc option"
  sx_list :: "nat \<Rightarrow> string \<Rightarrow> s3_obj list list \<times> exc option"
  sx_download :: "nat \<Rightarrow> string \<Rightarrow> exc + string"
  sx_http :: "nat \<Rightarrow> http_req \<Rightarrow> exc + http_resp"
  sx_supabase_url :: string
  sx_service_key :: string
  sx_bucket :: string
  sx_stack :: nat
  sx_denied :: "location \<Rightarrow> exc option"
  sx_decode :: "string \<Rightarrow> exc + string"
  sx_lang :: plugin_lang
  sx_data :: string
  sx_tools :: string

record sync_world =
  sy_fs :: file_system
  sy_client :: "(string \<times> string) option"
  sy_uids :: "(json \<times> json, string) dict"
  sy_reg :: registry
  sy_ops :: nat

type_synonym 'a sync = "(sync_world, exc, 'a) pm"

definition data_parts :: "sync_env \<Rightarrow> string list" where
  "data_parts env = path_parts (sx_data env)"

definition data_loc :: "sync_env \<Rightarrow> location" where
  "data_loc env = locate (data_parts env)"

definition on_fs :: "(file_system, exc, 'a) pm \<Rightarrow> 'a sync" where
  "on_fs m w = (case m (sy_fs w) of (r, f) \<Rightarrow> (r, w\<lparr>sy_fs := f\<rparr>))"

text \<open>The next outside operation.\<close>

definition outside :: "(nat \<Rightarrow> 'a) \<Rightarrow> 'a sync" where
  "outside f w = (Inr (f (sy_ops w)), w\<lparr>sy_ops := Suc (sy_ops w)\<rparr>)"

definition outside_or :: "(nat \<Rightarrow> exc + 'a) \<Rightarrow> 'a sync" where
  "outside_or f = pm_bind (outside f) pm_lift"

text \<open>\<open>mkdir(exist_ok=True)\<close> of the data directory.\<close>

definition make_data_dir :: "sync_env \<Rightarrow> unit sync" where
  "make_data_dir env =
     on_fs (\<lambda>f. if reachable f (data_parts env) then make_dirs (sx_denied env) [data_loc env] f
                else (Inl (Exc FileNotFoundErr ''No such file or directory''), f))"

section \<open>The ETag cache\<close>

definition etag_parts :: "sync_env \<Rightarrow> string list" where
  "etag_parts env = data_parts env @ [''.s3_etag_cache.json'']"

definition etag_tmp_parts :: "sync_env \<Rightarrow> string list" where
  "etag_tmp_parts env = data_parts env @ [''.s3_etag_cache.tmp'']"

text \<open>A cache that cannot be read or decoded counts as empty.\<close>

definition load_etags :: "sync_env \<Rightarrow> json sync" where
  "load_etags env =
     pm_then (make_data_dir env)
       (pm_get (\<lambda>w. case dict_get (fs_files (sy_fs w)) (locate (etag_parts env)) of
                      None \<Rightarrow> JObj []
                    | Some t \<Rightarrow> (case sx_decode env t of Inl _ \<Rightarrow> JObj []
                        | Inr s \<Rightarrow> (case loads s of Some j \<Rightarrow> j | None \<Rightarrow> JObj []))))"

text \<open>The cache is written beside its file and moved over it; a failure is logged.\<close>

definition move_file :: "(location \<Rightarrow> exc option) \<Rightarrow> location \<Rightarrow> location \<Rightarrow> (file_system, exc, unit) pm" where
  "move_file denied a b f =
     (case dict_get (fs_files f) a of
        None \<Rightarrow> (Inl (Exc FileNotFoundErr ''No such file or directory''), f)
      | Some t \<Rightarrow>
          if fs_is_dir f b then (Inl (Exc IsADirectoryErr ''Is a directory''), f)
          else (case denied b of
                  Some e \<Rightarrow> (Inl e, f)
                | None \<Rightarrow> (Inr (), f\<lparr>fs_files := dict_set b t (dict_pop a (fs_files f))\<rparr>)))"

definition quietly :: "unit sync \<Rightarrow> unit sync" where
  "quietly m = pm_catch m (\<lambda>e. if is_exception e then pm_return () else pm_raise e)"

definition save_etags :: "sync_env \<Rightarrow> json \<Rightarrow> unit sync" where
  "save_etags env cache =
     pm_then (make_data_dir env)
       (quietly (pm_then (on_fs (write_file (sx_denied env) (etag_tmp_parts env) (dumps cache)))
          (pm_then (make_data_dir env)
             (on_fs (move_file (sx_denied env) (locate (etag_tmp_parts env)) (locate (etag_parts env)))))))"

definition etag_get :: "json \<Rightarrow> string \<Rightarrow> exc + json" where
  "etag_get cache k = (case cache of JObj d \<Rightarrow> Inr (jget d k) | _ \<Rightarrow> Inl (Exc AttributeErr ''object has no attribute get''))"

definition etag_set :: "string \<Rightarrow> string \<Rightarrow> json \<Rightarrow> json" where
  "etag_set k v cache = (case cache of JObj d \<Rightarrow> JObj (dict_set k (JStr v) d) | j \<Rightarrow> j)"

definition strip_quotes :: "string \<Rightarrow> string" where
  "strip_quotes s = rev (dropWhile (\<lambda>c. c = CHR 0x22) (rev (dropWhile (\<lambda>c. c = CHR 0x22) s)))"

definition obj_etag :: "s3_obj \<Rightarrow> string" where
  "obj_etag b = strip_quotes (case ob_etag b of None \<Rightarrow> [] | Some e \<Rightarrow> e)"

section \<open>The S3 client and the user identifier\<close>

definition get_client_s3 :: "sync_env \<Rightarrow> unit sync" where
  "get_client_s3 env w =
     (let key = (case sx_aws_key env of None \<Rightarrow> [] | Some k \<Rightarrow> k, case sx_aws_secret env of None \<Rightarrow> [] | Some k \<Rightarrow> k) in
      if \<not> sx_boto env then (Inl (Exc RuntimeErr ''boto3 not installed''), w)
      else if sy_client w = Some key then (Inr (), w)
      else (case sx_client env key of Some e \<Rightarrow> (Inl e, w) | None \<Rightarrow> (Inr (), w\<lparr>sy_client := Some key\<rparr>)))"

text \<open>The first key below \<open>users/\<close> that contains the pattern decides; the default is user 10.\<close>

definition uid_of_key :: "string \<Rightarrow> string option" where
  "uid_of_key k = (case split_char (CHR ''/'') k of a # b # _ \<Rightarrow> if a = ''users'' then Some b else None | _ \<Rightarrow> None)"

fun find_uid :: "string \<Rightarrow> s3_obj list \<Rightarrow> string option" where
  "find_uid pat [] = None"
| "find_uid pat (b # bs) =
     (if str_contains pat (ob_key b) then (case uid_of_key (ob_key b) of Some u \<Rightarrow> Some u | None \<Rightarrow> find_uid pat bs)
      else find_uid pat bs)"

definition uid_pattern :: "json \<Rightarrow> json \<Rightarrow> string" where
  "uid_pattern u p = (if truthy p then py_str u @ ''/'' @ py_str p @ ''/'' else py_str u @ ''/'')"

fun hashable :: "json \<Rightarrow> bool" where
  "hashable (JObj _) = False"
| "hashable (JList _) = False"
| "hashable _ = True"

definition lookup_user_id :: "sync_env \<Rightarrow> json \<Rightarrow> json \<Rightarrow> string sync" where
  "lookup_user_id env username project =
     (let k = (username, if truthy project then project else JStr []) in
      if \<not> (hashable (fst k) \<and> hashable (snd k)) then pm_raise (Exc TypeErr ''unhashable type'')
      else
        pm_bind (pm_get (\<lambda>w. dict_get (sy_uids w) k)) (\<lambda>hit.
          case hit of
            Some uid \<Rightarrow> pm_return uid
          | None \<Rightarrow>
              pm_bind (pm_catch
                (pm_then (get_client_s3 env)
                  (pm_bind (outside (\<lambda>n. sx_list env n ''users/'')) (\<lambda>l.
                    case l of (pages, e) \<Rightarrow>
                      (case find_uid (uid_pattern username project) (concat pages) of
                         Some u \<Rightarrow> pm_return u
                       | None \<Rightarrow> (case e of None \<Rightarrow> pm_return ''10'' | Some x \<Rightarrow> pm_raise x)))))
                (\<lambda>e. if is_exception e then pm_return ''10'' else pm_raise e)) (\<lambda>uid.
                  pm_then (pm_modify (\<lambda>w. w\<lparr>sy_uids := dict_set k uid (sy_uids w)\<rparr>)) (pm_return uid))))"

section \<open>Downloads\<close>

text \<open>The counters of a synchronisation and the cache it works on.\<close>

record sync_acc =
  ac_synced :: nat
  ac_skipped :: nat
  ac_keys :: "string list"
  ac_cache :: json

definition local_parts :: "sync_env \<Rightarrow> string \<Rightarrow> string list" where
  "local_parts env key = path_parts (path_join (sx_data env) key)"

text \<open>One object: skipped when the cached ETag is current and the file is there, else downloaded; a failed
download is logged and leaves the cache as it was.\<close>

definition download_obj :: "sync_env \<Rightarrow> string \<Rightarrow> s3_obj \<Rightarrow> sync_acc \<Rightarrow> sync_acc sync" where
  "download_obj env local_key b a =
     (let ps = local_parts env local_key in
      pm_bind (pm_lift (etag_get (ac_cache a) (ob_key b))) (\<lambda>c.
        pm_bind (pm_get (\<lambda>w. c = JStr (obj_etag b) \<and> fs_exists (sy_fs w) ps)) (\<lambda>current.
          if current then pm_return (a\<lparr>ac_skipped := Suc (ac_skipped a)\<rparr>)
          else
            pm_then (on_fs (make_dirs (sx_denied env) (steps_of (butlast ps))))
              (pm_catch
                (pm_bind (outside_or (\<lambda>n. sx_download env n (ob_key b))) (\<lambda>text.
                  pm_then (on_fs (write_file (sx_denied env) ps text))
                    (pm_return (a\<lparr>ac_synced := Suc (ac_synced a), ac_cache := etag_set (ob_key b) (obj_etag b) (ac_cache a)\<rparr>))))
                (\<lambda>e. if is_exception e then pm_return a else pm_raise e)))))"

fun download_all :: "(s3_obj \<Rightarrow> sync_acc \<Rightarrow> sync_acc sync) \<Rightarrow> s3_obj list \<Rightarrow> sync_acc \<Rightarrow> sync_acc sync" where
  "download_all f [] a = pm_return a"
| "download_all f (b # bs) a = pm_bind (f b a) (download_all f bs)"

text \<open>\<open>x not in key\<close> for an arbitrary JSON value.\<close>

definition filtered_out :: "json \<Rightarrow> string \<Rightarrow> exc + bool" where
  "filtered_out x key =
     (if \<not> truthy x then Inr False
      else (case x of JStr s \<Rightarrow> Inr (\<not> str_contains s key) | _ \<Rightarrow> Inl (Exc TypeErr ''requires string as left operand'')))"

definition local_key_all :: "string \<Rightarrow> string" where
  "local_key_all key =
     (let parts = split_char (CHR ''/'') key
      in if 3 \<le> length parts \<and> parts ! 0 = ''users'' then join_str ''/'' (drop 2 parts) else key)"

definition sync_one :: "sync_env \<Rightarrow> json \<Rightarrow> json \<Rightarrow> s3_obj \<Rightarrow> sync_acc \<Rightarrow> sync_acc sync" where
  "sync_one env username project b a =
     (let key = ob_key b in
      if endswith key ''/'' then pm_return a
      else
        pm_bind (pm_lift (filtered_out username key)) (\<lambda>o1.
          if o1 then pm_return a
          else pm_bind (pm_lift (filtered_out project key)) (\<lambda>o2.
            if o2 then pm_return a
            else if \<not> str_contains ''/tools/'' key then pm_return a
            else download_obj env (local_key_all key) b
                   (a\<lparr>ac_keys := List.insert (local_key_all key) (ac_keys a)\<rparr>))))"

section \<open>Orphans\<close>

text \<open>The files in a directory \<open>tools\<close> below the data directory whose relative path is not among the keys.\<close>

definition relative :: "sync_env \<Rightarrow> location \<Rightarrow> string list" where
  "relative env l = drop (length (data_loc env)) l"

definition in_tools_dir :: "sync_env \<Rightarrow> location \<Rightarrow> bool" where
  "in_tools_dir env l \<longleftrightarrow> below (data_loc env) l \<and> ''tools'' \<in> set (butlast (relative env l))"

definition orphan :: "sync_env \<Rightarrow> string list \<Rightarrow> location \<Rightarrow> bool" where
  "orphan env keys l \<longleftrightarrow> in_tools_dir env l \<and> join_str ''/'' (relative env l) \<notin> set keys \<and> sx_denied env l = None"

definition delete_orphans :: "sync_env \<Rightarrow> string list \<Rightarrow> nat sync" where
  "delete_orphans env keys w =
     (let fs = fs_files (sy_fs w)
      in (Inr (length (filter (\<lambda>(l, _). orphan env keys l) fs)),
          w\<lparr>sy_fs := (sy_fs w)\<lparr>fs_files := filter (\<lambda>(l, _). \<not> orphan env keys l) fs\<rparr>\<rparr>))"

section \<open>Reloading\<close>

definition disk_of :: "sync_env \<Rightarrow> file_system \<Rightarrow> disk" where
  "disk_of env f =
     \<lparr>tools_root = fs_node (sx_decode env) f (path_parts (sx_tools env)), data_root = fs_node (sx_decode env) f (data_parts env)\<rparr>"

definition cached_module :: "sync_env \<Rightarrow> location \<Rightarrow> bool" where
  "cached_module env d \<longleftrightarrow> below (data_loc env) d \<and> ''__pycache__'' \<in> set (relative env d)"

definition without_pycache :: "sync_env \<Rightarrow> file_system \<Rightarrow> file_system" where
  "without_pycache env f =
     f\<lparr>fs_files := filter (\<lambda>(l, _). \<not> cached_module env (butlast l)) (fs_files f),
       fs_dirs := filter (\<lambda>l. \<not> cached_module env l) (fs_dirs f)\<rparr>"

text \<open>\<open>reload_plugins\<close> on the files on disk; the compiled modules are removed.\<close>

definition sync_reload :: "sync_env \<Rightarrow> (nat \<times> nat \<times> nat \<times> nat) sync" where
  "sync_reload env w =
     (case reload_plugins (sx_lang env) (\<lambda>_. True) (disk_of env (sy_fs w)) (sy_reg w) of
        (r, g) \<Rightarrow> (r, w\<lparr>sy_reg := g, sy_fs := without_pycache env (sy_fs w)\<rparr>))"

definition reload_if :: "sync_env \<Rightarrow> bool \<Rightarrow> nat sync" where
  "reload_if env b = (if b then pm_bind (sync_reload env) (\<lambda>c. pm_return (fst c)) else pm_return 0)"

section \<open>Synchronisation with S3\<close>

definition sync_error :: "string \<Rightarrow> json" where
  "sync_error e = JObj [(''success'', JBool False), (''error'', JStr e)]"

definition reported :: "json sync \<Rightarrow> json sync" where
  "reported m = pm_catch m (\<lambda>e. if is_exception e then pm_return (sync_error (exc_msg e)) else pm_raise e)"

text \<open>\<open>data_dir / username\<close>, and \<open>/ project\<close> when both are given.\<close>

definition clean_target :: "sync_env \<Rightarrow> json \<Rightarrow> json \<Rightarrow> exc + string list option" where
  "clean_target env username project =
     (if \<not> truthy username then Inr None
      else (case username of
              JStr u \<Rightarrow>
                if truthy project then
                  (case project of JStr p \<Rightarrow> Inr (Some (path_parts (path_join (path_join (sx_data env) u) p)))
                   | _ \<Rightarrow> Inl (Exc TypeErr ''unsupported operand type''))
                else Inr (Some (path_parts (path_join (sx_data env) u)))
            | _ \<Rightarrow> Inl (Exc TypeErr ''unsupported operand type'')))"

definition clean :: "sync_env \<Rightarrow> json \<Rightarrow> json \<Rightarrow> unit sync" where
  "clean env username project =
     pm_bind (pm_lift (clean_target env username project)) (\<lambda>t.
       case t of
         None \<Rightarrow> pm_return ()
       | Some ps \<Rightarrow> pm_modify (\<lambda>w. if fs_exists (sy_fs w) ps then w\<lparr>sy_fs := remove_tree (sx_denied env) (locate ps) (sy_fs w)\<rparr> else w))"

definition acc_start :: "json \<Rightarrow> sync_acc" where
  "acc_start cache = \<lparr>ac_synced = 0, ac_skipped = 0, ac_keys = [], ac_cache = cache\<rparr>"

definition list_objects :: "sync_env \<Rightarrow> string \<Rightarrow> s3_obj list sync" where
  "list_objects env pre =
     pm_bind (outside (\<lambda>n. sx_list env n pre)) (\<lambda>l.
       case l of (pages, e) \<Rightarrow> (case e of None \<Rightarrow> pm_return (concat pages) | Some x \<Rightarrow> pm_raise x))"

text \<open>The part of \<open>sync_all\<close> that holds the lock: downloads, removal of orphans, the new cache.\<close>

definition mirror :: "sync_env \<Rightarrow> json \<Rightarrow> json \<Rightarrow> s3_obj list \<Rightarrow> (sync_acc \<times> nat) sync" where
  "mirror env username project objs =
     pm_bind (load_etags env) (\<lambda>cache.
       pm_bind (download_all (sync_one env username project) objs (acc_start cache)) (\<lambda>a.
         pm_bind (delete_orphans env (ac_keys a)) (\<lambda>del.
           pm_then (save_etags env (ac_cache a)) (pm_return (a, del)))))"

definition sync_all_body :: "sync_env \<Rightarrow> json \<Rightarrow> json \<Rightarrow> json \<Rightarrow> json sync" where
  "sync_all_body env username project clean_first =
     pm_then (get_client_s3 env)
       (pm_then (make_data_dir env)
         (pm_bind (list_objects env ''users/'') (\<lambda>objs.
           if objs = [] then
             pm_return (JObj [(''success'', JBool True), (''files_synced'', JInt 0), (''message'', JStr ''No files in S3'')])
           else
             pm_then (if truthy clean_first then clean env username project else pm_return ())
               (pm_bind (mirror env username project objs) (\<lambda>(a, del).
                 pm_bind (reload_if env (0 < ac_synced a \<or> 0 < del)) (\<lambda>n.
                   pm_return (JObj [(''success'', JBool True), (''files_synced'', JInt (int (ac_synced a))),
                     (''files_skipped'', JInt (int (ac_skipped a))), (''files_deleted'', JInt (int del)),
                     (''tools_loaded'', JInt (int n))])))))))"

definition sync_all :: "sync_env \<Rightarrow> json \<Rightarrow> json \<Rightarrow> json \<Rightarrow> json sync" where
  "sync_all env username project clean_first =
     (if \<not> sx_boto env then pm_return (sync_error ''boto3 not installed'')
      else if \<not> str_truthy (sx_aws_key env) then pm_return (sync_error ''AWS credentials not configured'')
      else reported (sync_all_body env username project clean_first))"

text \<open>\<open>key.split("/", 2)\<close>.\<close>

definition local_key_tool :: "string \<Rightarrow> string" where
  "local_key_tool key =
     (let parts = split_char (CHR ''/'') key in if 3 \<le> length parts then join_str ''/'' (drop 2 parts) else key)"

definition tool_prefix :: "string \<Rightarrow> json \<Rightarrow> json \<Rightarrow> json \<Rightarrow> json \<Rightarrow> string" where
  "tool_prefix uid username project tool_name category =
     ''users/'' @ uid @ ''/'' @ py_str username @ ''/'' @ py_str project @ ''/tools/''
     @ (if truthy category then py_str category @ ''/'' else []) @ py_str tool_name @ ''/''"

definition sync_tool_obj :: "sync_env \<Rightarrow> s3_obj \<Rightarrow> sync_acc \<Rightarrow> sync_acc sync" where
  "sync_tool_obj env b a =
     (if endswith (ob_key b) ''/'' then pm_return a else download_obj env (local_key_tool (ob_key b)) b a)"

text \<open>The pages are read one by one while their objects are downloaded.\<close>

definition sync_tool_pages :: "sync_env \<Rightarrow> string \<Rightarrow> sync_acc \<Rightarrow> sync_acc sync" where
  "sync_tool_pages env pre a =
     pm_bind (outside (\<lambda>n. sx_list env n pre)) (\<lambda>l.
       case l of (pages, e) \<Rightarrow>
         pm_bind (download_all (sync_tool_obj env) (concat pages) a) (\<lambda>a'.
           case e of None \<Rightarrow> pm_return a' | Some x \<Rightarrow> pm_raise x))"

definition sync_tool :: "sync_env \<Rightarrow> json \<Rightarrow> json \<Rightarrow> json \<Rightarrow> json \<Rightarrow> json \<Rightarrow> json sync" where
  "sync_tool env username project tool_name category user_id =
     (if \<not> sx_boto env then pm_return (sync_error ''boto3 not installed'')
      else if \<not> str_truthy (sx_aws_key env) then pm_return (sync_error ''AWS credentials not configured'')
      else reported
        (pm_then (get_client_s3 env)
          (pm_bind (if truthy user_id then pm_return (py_str user_id) else lookup_user_id env username project) (\<lambda>uid.
            pm_bind (load_etags env) (\<lambda>cache.
              pm_bind (sync_tool_pages env (tool_prefix uid username project tool_name category) (acc_start cache)) (\<lambda>a.
                pm_then (save_etags env (ac_cache a))
                  (pm_bind (reload_if env (0 < ac_synced a)) (\<lambda>n.
                    pm_return (JObj [(''success'', JBool True), (''files_synced'', JInt (int (ac_synced a))),
                      (''files_skipped'', JInt (int (ac_skipped a))), (''tools_loaded'', JInt (int n))])))))))))"

section \<open>Synchronisation with Supabase\<close>

definition supabase_list :: "sync_env \<Rightarrow> string \<Rightarrow> http_resp sync" where
  "supabase_list env pre =
     outside_or (\<lambda>n. sx_http env n
       \<lparr>rq_method = ''POST'', rq_url = sx_supabase_url env @ ''/storage/v1/object/list/'' @ sx_bucket env,
        rq_headers = [(''Authorization'', ''Bearer '' @ sx_service_key env), (''Content-Type'', ''application/json'')],
        rq_json = Some (JObj [(''prefix'', JStr pre), (''limit'', JInt 1000), (''offset'', JInt 0)])\<rparr>)"

text \<open>An item of a listing: a name that is empty or begins with a dot is skipped, an item without an
identifier is a folder.\<close>

definition item_entry :: "json \<Rightarrow> exc + (string \<times> bool) option" where
  "item_entry j =
     (case j of
        JObj d \<Rightarrow>
          (let name = dict_get_or d ''name'' (JStr []) in
           if \<not> truthy name then Inr None
           else (case name of
                   JStr s \<Rightarrow> Inr (if startswith s ''.'' then None else Some (s, jget d ''id'' = JNull))
                 | _ \<Rightarrow> Inl (Exc AttributeErr ''object has no attribute startswith'')))
      | _ \<Rightarrow> Inl (Exc AttributeErr ''object has no attribute get''))"

text \<open>The folders of a listing, up to the first malformed item.\<close>

fun folder_names :: "json list \<Rightarrow> string list" where
  "folder_names [] = []"
| "folder_names (j # js) =
     (case item_entry j of
        Inl _ \<Rightarrow> []
      | Inr None \<Rightarrow> folder_names js
      | Inr (Some (s, folder)) \<Rightarrow> if folder then s # folder_names js else folder_names js)"

definition tools_path :: "json \<Rightarrow> json \<Rightarrow> string" where
  "tools_path username project = py_str username @ ''/'' @ py_str project @ ''/tools/''"

definition listed_items :: "http_resp \<Rightarrow> json list" where
  "listed_items r = (case rp_json r of None \<Rightarrow> [] | Some j \<Rightarrow> (case json_iter j of Inl _ \<Rightarrow> [] | Inr js \<Rightarrow> js))"

definition prefixes_to_try :: "sync_env \<Rightarrow> json \<Rightarrow> json \<Rightarrow> json \<Rightarrow> json \<Rightarrow> string list sync" where
  "prefixes_to_try env username project tool_name category =
     (let base = tools_path username project; name = py_str tool_name in
      if truthy category then pm_return [base @ py_str category @ ''/'' @ name]
      else
        pm_bind (pm_catch
          (pm_bind (supabase_list env base) (\<lambda>r.
             pm_return (if rp_status r = 200 then folder_names (listed_items r) else [])))
          (\<lambda>e. if is_exception e then pm_return [] else pm_raise e)) (\<lambda>cats.
            pm_return (rev (remdups (rev ((base @ name) # map (\<lambda>c. base @ c @ ''/'' @ name) cats))))))"

text \<open>The files below a prefix.  What a failing or malformed listing has given so far is kept; \<open>n\<close> is the depth the
interpreter's stack allows, a call beyond it raises \<open>RecursionError\<close> in the caller.\<close>

fun walk_items :: "(string \<Rightarrow> string list sync) \<Rightarrow> string \<Rightarrow> json list \<Rightarrow> string list sync" where
  "walk_items again pre [] = pm_return []"
| "walk_items again pre (j # js) =
     (case item_entry j of
        Inl _ \<Rightarrow> pm_return []
      | Inr None \<Rightarrow> walk_items again pre js
      | Inr (Some (s, folder)) \<Rightarrow>
          (let child = pre @ ''/'' @ s in
           if \<not> folder then pm_bind (walk_items again pre js) (\<lambda>ys. pm_return (child # ys))
           else (\<lambda>w. case again child w of
                   (Inl e, w') \<Rightarrow> if is_exception e then (Inr [], w') else (Inl e, w')
                 | (Inr xs, w') \<Rightarrow> pm_bind (walk_items again pre js) (\<lambda>ys. pm_return (xs @ ys)) w')))"

primrec list_recursive :: "nat \<Rightarrow> sync_env \<Rightarrow> string \<Rightarrow> string list sync" where
  "list_recursive 0 env pre = pm_raise (Exc (OtherErr ''RecursionError'') ''maximum recursion depth exceeded'')"
| "list_recursive (Suc n) env pre =
     pm_catch
       (pm_bind (supabase_list env pre) (\<lambda>r.
          if rp_status r \<noteq> 200 then pm_return [] else walk_items (list_recursive n env) pre (listed_items r)))
       (\<lambda>e. if is_exception e then pm_return [] else pm_raise e)"

fun first_listing :: "sync_env \<Rightarrow> string list \<Rightarrow> string list sync" where
  "first_listing env [] = pm_return []"
| "first_listing env (p # ps) =
     pm_bind (list_recursive (sx_stack env) env p) (\<lambda>found. if found \<noteq> [] then pm_return found else first_listing env ps)"

definition wanted_file :: "string \<Rightarrow> bool" where
  "wanted_file path =
     (let n = last (split_char (CHR ''/'') path) in endswith n ''.py'' \<or> endswith n ''.txt'' \<or> endswith n ''.json'')"

definition fetch_file :: "sync_env \<Rightarrow> string \<Rightarrow> string option sync" where
  "fetch_file env path =
     pm_catch
       (pm_bind (outside_or (\<lambda>n. sx_http env n
           \<lparr>rq_method = ''GET'', rq_url = sx_supabase_url env @ ''/storage/v1/object/'' @ sx_bucket env @ ''/'' @ path,
            rq_headers = [(''Authorization'', ''Bearer '' @ sx_service_key env)], rq_json = None\<rparr>))
         (\<lambda>r. pm_return (if rp_status r = 200 then Some (rp_text r) else None)))
       (\<lambda>e. if is_exception e then pm_return None else pm_raise e)"

fun fetch_files :: "sync_env \<Rightarrow> string list \<Rightarrow> nat \<Rightarrow> nat sync" where
  "fetch_files env [] n = pm_return n"
| "fetch_files env (p # ps) n =
     (if \<not> wanted_file p then fetch_files env ps n
      else
        pm_bind (fetch_file env p) (\<lambda>r.
          case r of
            None \<Rightarrow> fetch_files env ps n
          | Some text \<Rightarrow>
              pm_then (on_fs (make_dirs (sx_denied env) (steps_of (butlast (local_parts env p)))))
                (pm_then (on_fs (write_file (sx_denied env) (local_parts env p) text)) (fetch_files env ps (Suc n)))))"

definition no_credentials :: string where
  "no_credentials =
     ''Supabase credentials not configured on MCP server (set SUPABASE_URL and SUPABASE_SERVICE_ROLE_KEY)''"

definition sync_tool_from_supabase :: "sync_env \<Rightarrow> json \<Rightarrow> json \<Rightarrow> json \<Rightarrow> json \<Rightarrow> json sync" where
  "sync_tool_from_supabase env username project tool_name category =
     (if sx_supabase_url env = [] \<or> sx_service_key env = [] then pm_return (sync_error no_credentials)
      else reported
        (pm_bind (prefixes_to_try env username project tool_name category) (\<lambda>ps.
          pm_bind (first_listing env ps) (\<lambda>paths.
            pm_bind (fetch_files env paths 0) (\<lambda>n.
              pm_bind (reload_if env (0 < n)) (\<lambda>tools.
                pm_return (JObj [(''success'', JBool True), (''files_synced'', JInt (int n)), (''tools_loaded'', JInt (int tools))])))))))"

end
