(* ===== verification/Cloud_Mirror.thy ===== *)
theory Cloud_Mirror
  imports Cloud_Syncer
begin

text \<open>
  What a synchronisation does to the files: where it writes, that it stays below the data directory for
  well-behaved names, and that after a run the tool directories hold exactly the selected objects.
\<close>

section \<open>Paths\<close>

lemma split_char_at: "split_char d (a @ d # b) = split_char d a @ split_char d b"
proof (induction a)
  case (Cons c a)
  obtain w ws where "split_char d a = w # ws" by (cases "split_char d a") auto
  with Cons show ?case by simp
qed simp

lemma path_parts_at: "path_parts (a @ CHR ''/'' # b) = path_parts a @ path_parts b"
  by (simp add: path_parts_def split_char_at)

lemma path_parts_slash: "path_parts (CHR ''/'' # b) = path_parts b"
  using path_parts_at [of "[]" b] by (simp add: path_parts_def)

lemma path_parts_clean: "w \<in> set (path_parts p) \<Longrightarrow> w \<noteq> [] \<and> w \<noteq> ''.'' \<and> CHR ''/'' \<notin> set w"
  by (auto simp: path_parts_def dest: split_char_no_sep)

lemma path_parts_join:
  assumes "\<And>w. w \<in> set ws \<Longrightarrow> w \<noteq> [] \<and> w \<noteq> ''.'' \<and> CHR ''/'' \<notin> set w"
  shows "path_parts (join_str ''/'' ws) = ws"
proof (cases ws)
  case (Cons a as)
  then have "split_char (CHR ''/'') (join_str ''/'' ws) = ws" using assms by (intro split_join_char) auto
  then show ?thesis using assms by (simp add: path_parts_def filter_id_conv)
qed (simp add: path_parts_def)

lemma path_parts_str [simp]: "path_parts (path_str p) = path_parts p"
proof -
  have j: "path_parts (join_str ''/'' (path_parts p)) = path_parts p"
    by (rule path_parts_join) (rule path_parts_clean)
  have r: "path_parts (path_root p @ join_str ''/'' (path_parts p)) = path_parts p"
    by (simp add: path_root_def path_parts_slash j)
  moreover have "path_parts p = []" if "path_root p @ join_str ''/'' (path_parts p) = []"
    using r unfolding that by (simp add: path_parts_def)
  moreover have "path_parts ''.'' = []" by (simp add: path_parts_def)
  ultimately show ?thesis unfolding path_str_def Let_def by (simp split: if_split) metis
qed

lemma path_parts_path_join: "\<not> path_is_absolute b \<Longrightarrow> path_parts (path_join a b) = path_parts a @ path_parts b"
  by (simp add: path_join_def path_parts_at)

lemma climb_append: "climb acc (xs @ ys) = climb (rev (climb acc xs)) ys"
  by (induction acc xs rule: climb.induct) auto

lemma climb_plain: "''..'' \<notin> set ps \<Longrightarrow> climb acc ps = rev acc @ ps"
  by (induction ps arbitrary: acc) auto

lemma locate_append: "''..'' \<notin> set ys \<Longrightarrow> locate (xs @ ys) = locate xs @ ys"
  by (simp add: locate_def climb_append climb_plain)

lemma locate_snoc [simp]: "x \<noteq> ''..'' \<Longrightarrow> locate (xs @ [x]) = locate xs @ [x]"
  by (rule locate_append) auto

lemma below_append [simp]: "below d (d @ l)" "below d d"
  by (simp_all add: below_def)

lemma below_iff: "below d l \<longleftrightarrow> (\<exists>r. l = d @ r)"
  unfolding below_def by (metis append_eq_conv_conj append_take_drop_id)

text \<open>A name that stays inside: relative and without a step to the parent.\<close>

definition tame :: "string \<Rightarrow> bool" where
  "tame s \<longleftrightarrow> \<not> path_is_absolute s \<and> ''..'' \<notin> set (path_parts s)"

lemma local_parts_tame: "tame k \<Longrightarrow> local_parts env k = data_parts env @ path_parts k"
  by (simp add: local_parts_def data_parts_def tame_def path_parts_path_join)

lemma locate_tame: "tame k \<Longrightarrow> locate (local_parts env k) = data_loc env @ path_parts k"
  by (simp add: local_parts_tame data_loc_def locate_append tame_def)

section \<open>Staying below the data directory\<close>

text \<open>The files that are not below the data directory, a part of the state that well-behaved runs keep.\<close>

definition foreign_files :: "sync_env \<Rightarrow> sync_world \<Rightarrow> (location, string) dict" where
  "foreign_files env w = filter (\<lambda>(l, _). \<not> below (data_loc env) l) (fs_files (sy_fs w))"

lemma foreign_simps [simp]:
  "foreign_files env (w\<lparr>sy_client := c\<rparr>) = foreign_files env w" "foreign_files env (w\<lparr>sy_uids := u\<rparr>) = foreign_files env w"
  "foreign_files env (w\<lparr>sy_reg := g\<rparr>) = foreign_files env w" "foreign_files env (w\<lparr>sy_ops := n\<rparr>) = foreign_files env w"
  by (simp_all add: foreign_files_def)

lemma filter_update: "\<not> P k \<Longrightarrow> filter (\<lambda>(l, _). P l) (dict_set k v d) = filter (\<lambda>(l, _). P l) d"
  by (induction d) auto

lemma filter_pop: "\<not> P k \<Longrightarrow> filter (\<lambda>(l, _). P l) (dict_pop k d) = filter (\<lambda>(l, _). P l) d"
  by (induction d) auto

lemma make_dirs_files: "fs_files (snd (make_dirs den ls f)) = fs_files f"
  by (induction den ls f rule: make_dirs.induct) (auto split: option.split)

lemma keeps_on_fs: "(\<And>f. g (snd (m f)) = g f) \<Longrightarrow> keeps (\<lambda>w. g (sy_fs w)) (on_fs m)"
  unfolding keeps_def on_fs_def by (simp add: case_prod_beta)

lemma keeps_foreign_fs:
  assumes "\<And>f. filter (\<lambda>(l, _). \<not> below (data_loc env) l) (fs_files (snd (m f))) = filter (\<lambda>(l, _). \<not> below (data_loc env) l) (fs_files f)"
  shows "keeps (foreign_files env) (on_fs m)"
  using assms unfolding keeps_def on_fs_def foreign_files_def by (simp add: case_prod_beta)

lemma keeps_outside [keeps_intros]: "(\<And>w n. f (w\<lparr>sy_ops := n\<rparr>) = f w) \<Longrightarrow> keeps f (outside g)"
  by (simp add: keeps_def outside_def)

lemma keeps_outside_or [keeps_intros]: "(\<And>w n. f (w\<lparr>sy_ops := n\<rparr>) = f w) \<Longrightarrow> keeps f (outside_or g)"
  unfolding outside_or_def by (intro keeps_intros)

lemma keeps_quietly [keeps_intros]: "keeps f m \<Longrightarrow> keeps f (quietly m)"
  unfolding quietly_def by (intro keeps_intros)

lemma keeps_reported [keeps_intros]: "keeps f m \<Longrightarrow> keeps f (reported m)"
  unfolding reported_def by (intro keeps_intros)

lemma foreign_make_dirs [keeps_intros]: "keeps (foreign_files env) (on_fs (make_dirs den ls))"
  by (rule keeps_foreign_fs) (simp add: make_dirs_files)

lemma foreign_make_data_dir [keeps_intros]: "keeps (foreign_files env) (make_data_dir env)"
  unfolding make_data_dir_def by (rule keeps_foreign_fs) (simp add: make_dirs_files del: make_dirs.simps)

lemma foreign_write: "below (data_loc env) (locate ps) \<Longrightarrow> keeps (foreign_files env) (on_fs (write_file den ps t))"
  by (rule keeps_foreign_fs) (simp add: write_file_def filter_update split: option.split)

lemma etag_locs: "locate (etag_parts env) = data_loc env @ [''.s3_etag_cache.json'']"
  "locate (etag_tmp_parts env) = data_loc env @ [''.s3_etag_cache.tmp'']"
  by (simp_all add: etag_parts_def etag_tmp_parts_def data_loc_def)

lemma foreign_move:
  "below (data_loc env) a \<Longrightarrow> below (data_loc env) b \<Longrightarrow> keeps (foreign_files env) (on_fs (move_file den a b))"
  by (rule keeps_foreign_fs) (simp add: move_file_def filter_update filter_pop split: option.split)

lemma foreign_etags [keeps_intros]: "keeps (foreign_files env) (load_etags env)" "keeps (foreign_files env) (save_etags env c)"
  unfolding load_etags_def save_etags_def
  by (intro keeps_intros foreign_write foreign_move; simp add: etag_locs)+

lemma foreign_client [keeps_intros]: "keeps (foreign_files env) (get_client_s3 env)"
  unfolding get_client_s3_def keeps_def by (auto simp: Let_def split: option.split)

lemma foreign_lookup [keeps_intros]: "keeps (foreign_files env) (lookup_user_id env u p)"
  unfolding lookup_user_id_def Let_def
  by (intro keeps_intros keeps_cases keeps_modify; simp)

lemma foreign_reload [keeps_intros]: "keeps (foreign_files env) (reload_if env b)"
proof -
  have "cached_module env (butlast l) \<Longrightarrow> below (data_loc env) l" for l
    unfolding cached_module_def below_iff by (metis append_butlast_last_id append.assoc butlast.simps(1))
  then have "filter (\<lambda>(l, _). \<not> below (data_loc env) l) (fs_files (without_pycache env f))
      = filter (\<lambda>(l, _). \<not> below (data_loc env) l) (fs_files f)" for f
    by (auto simp: without_pycache_def intro!: filter_cong)
  then have "keeps (foreign_files env) (sync_reload env)"
    unfolding keeps_def sync_reload_def foreign_files_def by (simp add: case_prod_beta)
  then show ?thesis unfolding reload_if_def by (intro keeps_intros)
qed

text \<open>What the stores answer is well behaved: no key and no listed name leads out of the directory it is in.\<close>

definition tame_store :: "sync_env \<Rightarrow> bool" where
  "tame_store env \<longleftrightarrow>
     (\<forall>n pre. \<forall>b\<in>set (concat (fst (sx_list env n pre))). tame (local_key_all (ob_key b)) \<and> tame (local_key_tool (ob_key b)))
     \<and> (\<forall>n q r. sx_http env n q = Inr r \<longrightarrow>
          (\<forall>j\<in>set (listed_items r). \<forall>s folder. item_entry j = Inr (Some (s, folder)) \<longrightarrow> ''..'' \<notin> set (path_parts s)))"

definition tame_arg :: "json \<Rightarrow> bool" where
  "tame_arg j \<longleftrightarrow> (case j of JStr s \<Rightarrow> tame s | _ \<Rightarrow> True)"

definition tame_name :: "json \<Rightarrow> bool" where
  "tame_name j \<longleftrightarrow> py_str j \<noteq> [] \<and> tame (py_str j)"

lemma foreign_download_obj: "tame k \<Longrightarrow> keeps (foreign_files env) (download_obj env k b a)"
  unfolding download_obj_def Let_def
  by (intro keeps_intros foreign_write; simp add: locate_tame)

lemma keeps_download_all:
  "(\<And>b a. b \<in> set bs \<Longrightarrow> keeps f (g b a)) \<Longrightarrow> keeps f (download_all g bs a)"
  by (induction bs arbitrary: a) (auto intro!: keeps_intros)

lemma foreign_sync_one: "tame (local_key_all (ob_key b)) \<Longrightarrow> keeps (foreign_files env) (sync_one env u p b a)"
  unfolding sync_one_def Let_def by (intro keeps_intros foreign_download_obj)

lemma foreign_sync_tool_obj: "tame (local_key_tool (ob_key b)) \<Longrightarrow> keeps (foreign_files env) (sync_tool_obj env b a)"
  unfolding sync_tool_obj_def by (intro keeps_intros foreign_download_obj)

lemma foreign_orphans [keeps_intros]: "keeps (foreign_files env) (delete_orphans env ks)"
  unfolding keeps_def delete_orphans_def foreign_files_def
  by (auto simp: Let_def orphan_def in_tools_dir_def intro!: filter_cong)

lemma foreign_remove_tree:
  "below (data_loc env) d \<Longrightarrow> foreign_files env (w\<lparr>sy_fs := remove_tree den d (sy_fs w)\<rparr>) = foreign_files env w"
  unfolding foreign_files_def remove_tree_def Let_def
  by (auto simp: below_iff intro!: filter_cong)

lemma clean_target_below:
  assumes "tame_arg u" "tame_arg p" "clean_target env u p = Inr (Some ps)"
  shows "below (data_loc env) (locate ps)"
proof -
  have "locate (path_parts (path_join (sx_data env) a)) = data_loc env @ path_parts a" if "tame a" for a
    using locate_tame [OF that, of env] by (simp add: local_parts_def)
  moreover have "locate (path_parts (path_join (path_join (sx_data env) a) b)) = data_loc env @ path_parts a @ path_parts b"
    if "tame a" "tame b" for a b
    using that locate_append [of "path_parts a @ path_parts b" "data_parts env"]
    by (simp add: tame_def path_parts_path_join data_loc_def data_parts_def)
  ultimately show ?thesis
    using assms by (auto simp: clean_target_def tame_arg_def split: if_splits json.splits)
qed

lemma foreign_clean:
  assumes "tame_arg u" "tame_arg p"
  shows "keeps (foreign_files env) (clean env u p)"
  unfolding clean_def
proof (rule keeps_bind_returns [where P = "\<lambda>t. \<forall>ps. t = Some ps \<longrightarrow> below (data_loc env) (locate ps)"])
  show "returns (\<lambda>t. \<forall>ps. t = Some ps \<longrightarrow> below (data_loc env) (locate ps)) (pm_lift (clean_target env u p))"
    by (rule returns_pure) (use clean_target_below [OF assms] in blast)
qed (auto intro!: keeps_intros keeps_cases keeps_modify simp: foreign_remove_tree split: option.split)

lemma foreign_list_objects [keeps_intros]: "keeps (foreign_files env) (list_objects env pre)"
  unfolding list_objects_def by (intro keeps_intros keeps_cases; simp)

lemma returns_list_objects:
  assumes "tame_store env"
  shows "returns (\<lambda>bs. \<forall>b\<in>set bs. tame (local_key_all (ob_key b))) (list_objects env pre)"
  unfolding list_objects_def
proof (rule returns_bind [where Q = "\<lambda>l. \<forall>b\<in>set (concat (fst l)). tame (local_key_all (ob_key b))"])
  show "returns (\<lambda>l. \<forall>b\<in>set (concat (fst l)). tame (local_key_all (ob_key b))) (outside (\<lambda>n. sx_list env n pre))"
    using assms by (auto simp: returns_def outside_def tame_store_def)
qed (auto simp: case_prod_beta intro!: returns_pure split: option.split)

lemma foreign_sync_all:
  assumes "tame_store env" "truthy c \<longrightarrow> tame_arg u \<and> tame_arg p"
  shows "keeps (foreign_files env) (sync_all env u p c)"
proof -
  have cl: "keeps (foreign_files env) (if truthy c then clean env u p else pm_return ())"
    using assms(2) foreign_clean by (auto intro: keeps_intros)
  have m: "keeps (foreign_files env) (mirror env u p bs)" if "\<forall>b\<in>set bs. tame (local_key_all (ob_key b))" for bs
    unfolding mirror_def using that by (intro keeps_intros keeps_download_all foreign_sync_one) simp
  show ?thesis
    unfolding sync_all_def sync_all_body_def
    by (intro keeps_intros keeps_cases keeps_bind_returns [OF _ returns_list_objects [OF assms(1)]] cl m)
qed

lemma foreign_sync_tool:
  assumes "tame_store env"
  shows "keeps (foreign_files env) (sync_tool env u p t c i)"
proof -
  have "keeps (foreign_files env) (sync_tool_pages env pre a)" for pre a
    unfolding sync_tool_pages_def
  proof (rule keeps_bind_returns [where P = "\<lambda>l. \<forall>b\<in>set (concat (fst l)). tame (local_key_tool (ob_key b))"])
    show "returns (\<lambda>l. \<forall>b\<in>set (concat (fst l)). tame (local_key_tool (ob_key b))) (outside (\<lambda>n. sx_list env n pre))"
      using assms by (auto simp: returns_def outside_def tame_store_def)
  qed (auto intro!: keeps_intros keeps_cases keeps_download_all foreign_sync_tool_obj)
  then show ?thesis unfolding sync_tool_def by (intro keeps_intros)
qed

text \<open>A prefix below which Supabase is listed.\<close>

definition inside :: "string \<Rightarrow> bool" where
  "inside pre \<longleftrightarrow> pre \<noteq> [] \<and> tame pre"

lemma inside_child: "inside pre \<Longrightarrow> ''..'' \<notin> set (path_parts s) \<Longrightarrow> inside (pre @ CHR ''/'' # s)"
  using path_parts_at [of pre s]
  by (cases pre) (auto simp: inside_def tame_def path_is_absolute_def startswith_def)

lemma inside_tame: "inside pre \<Longrightarrow> tame pre"
  by (simp add: inside_def)

lemma returns_walk:
  assumes "\<And>p. inside p \<Longrightarrow> returns (list_all inside) (again p)" and "inside pre"
    and "\<forall>j\<in>set js. \<forall>s folder. item_entry j = Inr (Some (s, folder)) \<longrightarrow> ''..'' \<notin> set (path_parts s)"
  shows "returns (list_all inside) (walk_items again pre js)"
  using assms(3)
proof (induction js)
  case (Cons j js)
  then have ih: "returns (list_all inside) (walk_items again pre js)" by simp
  show ?case
  proof (cases "item_entry j")
    case (Inr x)
    show ?thesis
    proof (cases x)
      case (Some y)
      obtain s folder where y: "y = (s, folder)" by (cases y)
      have c: "inside (pre @ CHR ''/'' # s)" using Cons.prems Inr Some y assms(2) by (intro inside_child) auto
      have a: "list_all inside zs" if "again (pre @ CHR ''/'' # s) w = (Inr zs, w')" for w zs w'
        using returns_run [OF assms(1) [OF c] that] .
      show ?thesis
        using c ih a Inr Some y
        by (auto simp: returns_def pm_bind_def pm_return_def Let_def split: prod.splits sum.splits if_splits)
    qed (simp add: Inr ih)
  qed (simp add: returns_def pm_return_def)
qed (simp add: returns_def pm_return_def)

lemma returns_supabase_list:
  assumes "tame_store env"
  shows "returns (\<lambda>r. \<forall>j\<in>set (listed_items r). \<forall>s folder. item_entry j = Inr (Some (s, folder)) \<longrightarrow> ''..'' \<notin> set (path_parts s))
     (supabase_list env pre)"
proof -
  have "\<forall>j\<in>set (listed_items r). \<forall>s folder. item_entry j = Inr (Some (s, folder)) \<longrightarrow> ''..'' \<notin> set (path_parts s)"
    if "sx_http env n q = Inr r" for n q r
    using assms that unfolding tame_store_def by blast
  then show ?thesis
    unfolding supabase_list_def returns_def outside_or_def pm_bind_def outside_def pm_lift_def by auto
qed

lemma returns_list_recursive:
  assumes "tame_store env"
  shows "inside pre \<Longrightarrow> returns (list_all inside) (list_recursive n env pre)"
proof (induction n arbitrary: pre)
  case (Suc n)
  then show ?case
    by (auto intro!: returns_catch returns_bind [OF returns_supabase_list [OF assms]] returns_pure returns_walk)
qed (simp add: returns_pure)

lemma folder_names_tame:
  "\<forall>j\<in>set js. \<forall>s folder. item_entry j = Inr (Some (s, folder)) \<longrightarrow> ''..'' \<notin> set (path_parts s) \<Longrightarrow>
   \<forall>c\<in>set (folder_names js). ''..'' \<notin> set (path_parts c)"
proof (induction js)
  case (Cons j js)
  then show ?case by (cases "item_entry j") (auto split: option.splits)
qed simp

lemma keeps_fs_free:
  assumes "\<And>w n. f (w\<lparr>sy_ops := n\<rparr>) = f w"
  shows "keeps f (supabase_list env pre)" "keeps f (prefixes_to_try env u p t c)" "keeps f (list_recursive n env pre)"
    "keeps f (first_listing env ps)" "keeps f (fetch_file env q)"
proof -
  show l: "keeps f (supabase_list env pre)" for pre
    unfolding supabase_list_def using assms by (rule keeps_outside_or)
  show "keeps f (prefixes_to_try env u p t c)"
    unfolding prefixes_to_try_def Let_def by (intro keeps_intros l)
  have wi: "keeps f (walk_items again pre js)" if "\<And>q. keeps f (again q)" for again pre js
  proof (induction js)
    case (Cons j js)
    have "keeps f (\<lambda>w. case again child w of (Inl e, w') \<Rightarrow> if is_exception e then (Inr [], w') else (Inl e, w')
        | (Inr xs, w') \<Rightarrow> pm_bind (walk_items again pre js) (\<lambda>ys. pm_return (xs @ ys)) w')" for child
      using that [of child] Cons unfolding keeps_def pm_bind_def pm_return_def
      by (auto simp: case_prod_beta split: sum.split)
    with Cons show ?case by (auto simp: Let_def intro!: keeps_intros split: sum.split option.split)
  qed (simp add: keeps_pure)
  show lr: "keeps f (list_recursive n env pre)" for n pre
  proof (induction n arbitrary: pre)
    case (Suc n)
    then show ?case unfolding list_recursive.simps by (intro keeps_intros l wi)
  qed (simp add: keeps_pure)
  show "keeps f (first_listing env ps)"
    by (induction ps) (auto intro!: keeps_intros lr)
  show "keeps f (fetch_file env q)"
    unfolding fetch_file_def using assms by (intro keeps_intros)
qed

lemma returns_first_listing:
  assumes "tame_store env"
  shows "list_all inside ps \<Longrightarrow> returns (list_all inside) (first_listing env ps)"
  by (induction ps)
    (auto intro!: returns_pure returns_bind [OF returns_list_recursive [OF assms]])

lemma foreign_fetch_files: "list_all tame ps \<Longrightarrow> keeps (foreign_files env) (fetch_files env ps n)"
proof (induction ps arbitrary: n)
  case (Cons p ps)
  then show ?case
    by (auto intro!: keeps_intros keeps_cases keeps_fs_free foreign_write simp: locate_tame)
qed (simp add: keeps_pure)

lemma tame_name_parts: "tame_name j \<Longrightarrow> ''..'' \<notin> set (path_parts (py_str j))"
  by (simp add: tame_name_def tame_def)

lemma returns_prefixes:
  assumes "tame_store env" "tame_name u" "tame_name p" "tame_name t" "truthy c \<longrightarrow> tame_name c"
  shows "returns (list_all inside) (prefixes_to_try env u p t c)"
proof -
  have base: "inside (py_str u @ CHR ''/'' # py_str p @ CHR ''/'' # ''tools'')"
  proof -
    have "inside (py_str u)" using assms(2) by (simp add: tame_name_def inside_def)
    from inside_child [OF inside_child [OF this tame_name_parts [OF assms(3)]], of "''tools''"]
    show ?thesis by (simp add: path_parts_def)
  qed
  have one: "inside (tools_path u p @ s)" if "''..'' \<notin> set (path_parts s)" for s
    using inside_child [OF base that] by (simp add: tools_path_def)
  have l: "returns (\<lambda>cs. \<forall>c\<in>set cs. ''..'' \<notin> set (path_parts c))
      (pm_catch (pm_bind (supabase_list env pre) (\<lambda>r. pm_return (if rp_status r = 200 then folder_names (listed_items r) else [])))
        (\<lambda>e. if is_exception e then pm_return [] else pm_raise e))" for pre
    by (intro returns_catch returns_bind [OF returns_supabase_list [OF assms(1)]] returns_if returns_pure)
      (use folder_names_tame in \<open>auto split: if_splits\<close>)
  show ?thesis
    unfolding prefixes_to_try_def Let_def
    using assms tame_name_parts
    by (auto simp: list_all_iff path_parts_at intro!: returns_if returns_pure returns_bind [OF l] one)
qed

lemma foreign_supabase:
  assumes "tame_store env" "tame_name u" "tame_name p" "tame_name t" "truthy c \<longrightarrow> tame_name c"
  shows "keeps (foreign_files env) (sync_tool_from_supabase env u p t c)"
proof -
  have f: "keeps (foreign_files env) (fetch_files env ps n)" if "list_all inside ps" for ps n
    using that by (intro foreign_fetch_files) (auto simp: list_all_iff inside_tame)
  show ?thesis
    unfolding sync_tool_from_supabase_def
    by (intro keeps_intros keeps_bind_returns [OF _ returns_prefixes [OF assms]]
        keeps_bind_returns [OF _ returns_first_listing [OF assms(1)]] keeps_fs_free f; simp)
qed

datatype sync_op = SyncAll json json json | SyncTool json json json json json | SyncSupabase json json json json

fun run_sync :: "sync_env \<Rightarrow> sync_op \<Rightarrow> json sync" where
  "run_sync env (SyncAll u p c) = sync_all env u p c"
| "run_sync env (SyncTool u p t c i) = sync_tool env u p t c i"
| "run_sync env (SyncSupabase u p t c) = sync_tool_from_supabase env u p t c"

fun tame_op :: "sync_op \<Rightarrow> bool" where
  "tame_op (SyncAll u p c) = (truthy c \<longrightarrow> tame_arg u \<and> tame_arg p)"
| "tame_op (SyncTool u p t c i) = True"
| "tame_op (SyncSupabase u p t c) = (tame_name u \<and> tame_name p \<and> tame_name t \<and> (truthy c \<longrightarrow> tame_name c))"

lemma foreign_run_sync: "tame_store env \<Longrightarrow> tame_op x \<Longrightarrow> keeps (foreign_files env) (run_sync env x)"
  by (cases x) (simp_all add: foreign_sync_all foreign_sync_tool foreign_supabase)

text \<open>C29.  Synchronisations stay below the data directory: when the stores report no key or name with a step to
the parent or an absolute path, and the names of the requests have none either, then any sequence of
synchronisations, whatever fails in between, leaves every file outside the data directory as it was.\<close>

theorem sync_contained:
  assumes "tame_store env" and "list_all tame_op ops"
  shows "foreign_files env (foldl (\<lambda>w x. snd (run_sync env x w)) w ops) = foreign_files env w"
  using assms(2)
proof (induction ops arbitrary: w)
  case (Cons x ops)
  with keeps_at [OF foreign_run_sync [OF assms(1)], of x w] show ?case by simp
qed simp

section \<open>A small store\<close>

text \<open>An object store with one tool file of the user \<open>al\<close>, and no Supabase.\<close>

definition quiet_lang :: plugin_lang where
  "quiet_lang = \<lparr>pl_compile = (\<lambda>_. None), pl_exec = (\<lambda>_ _. ([], None))\<rparr>"

definition demo_obj :: s3_obj where
  "demo_obj = \<lparr>ob_key = ''users/7/al/p/tools/c/t/x.py'', ob_etag = Some ''e''\<rparr>"

definition demo_sync_env :: sync_env where
  "demo_sync_env =
     \<lparr>sx_boto = True, sx_aws_key = Some ''k'', sx_aws_secret = None, sx_client = (\<lambda>_. None),
      sx_list = (\<lambda>_ _. ([[demo_obj]], None)), sx_download = (\<lambda>_ _. Inr ''pass''),
      sx_http = (\<lambda>_ _. Inl (Exc OSErr ''down'')), sx_supabase_url = [], sx_service_key = [], sx_bucket = ''b'', sx_stack = 900,
      sx_denied = (\<lambda>_. None), sx_decode = Inr, sx_lang = quiet_lang, sx_data = ''/srv/data'', sx_tools = ''/srv/tools''\<rparr>"

definition demo_sync :: sync_world where
  "demo_sync =
     \<lparr>sy_fs = \<lparr>fs_files = [([''srv'', ''data'', ''bo'', ''p'', ''tools'', ''c'', ''t'', ''y.py''], ''old''), ([''etc'', ''hosts''], ''h'')],
        fs_dirs = [[''srv''], [''srv'', ''data''], [''srv'', ''data'', ''bo''], [''srv'', ''data'', ''bo'', ''p''],
          [''srv'', ''data'', ''bo'', ''p'', ''tools''], [''srv'', ''data'', ''bo'', ''p'', ''tools'', ''c''],
          [''srv'', ''data'', ''bo'', ''p'', ''tools'', ''c'', ''t''], [''etc'']]\<rparr>,
      sy_client = None, sy_uids = [], sy_reg = registry_init, sy_ops = 0\<rparr>"

lemma demo_locs [simp]:
  "data_parts demo_sync_env = [''srv'', ''data'']" "data_loc demo_sync_env = [''srv'', ''data'']"
  by (simp_all add: data_parts_def data_loc_def demo_sync_env_def path_parts_def locate_def)

lemma demo_tame: "tame_store demo_sync_env"
  by (simp add: tame_store_def demo_sync_env_def demo_obj_def tame_def local_key_all_def local_key_tool_def path_is_absolute_def
      path_parts_def startswith_def)

theorem sync_contained_witness:
  "foreign_files demo_sync_env (foldl (\<lambda>w x. snd (run_sync demo_sync_env x w)) demo_sync
     [SyncAll (JStr ''al'') JNull (JBool True), SyncSupabase (JStr ''al'') (JStr ''p'') (JStr ''t'') JNull])
   = [([''etc'', ''hosts''], ''h'')]"
proof -
  have "list_all tame_op [SyncAll (JStr ''al'') JNull (JBool True), SyncSupabase (JStr ''al'') (JStr ''p'') (JStr ''t'') JNull]"
    by (simp add: tame_arg_def tame_name_def tame_def path_is_absolute_def path_parts_def startswith_def truthy_def)
  from sync_contained [OF demo_tame this, of demo_sync]
  show ?thesis by (simp add: foreign_files_def demo_sync_def below_def)
qed

section \<open>The mirror\<close>

definition selected :: "json \<Rightarrow> json \<Rightarrow> string \<Rightarrow> bool" where
  "selected u p key \<longleftrightarrow> \<not> endswith key ''/'' \<and> filtered_out u key = Inr False \<and> filtered_out p key = Inr False
     \<and> str_contains ''/tools/'' key"

definition selection :: "json \<Rightarrow> json \<Rightarrow> s3_obj list \<Rightarrow> s3_obj list" where
  "selection u p bs = filter (\<lambda>b. selected u p (ob_key b)) bs"

definition occupied :: "file_system \<Rightarrow> location \<Rightarrow> bool" where
  "occupied f l \<longleftrightarrow> fs_is_file f l \<or> fs_is_dir f l"

text \<open>While objects are downloaded nothing disappears.\<close>

definition extends :: "file_system \<Rightarrow> file_system \<Rightarrow> bool" where
  "extends f f' \<longleftrightarrow> (\<forall>l. (fs_is_file f l \<longrightarrow> fs_is_file f' l) \<and> (fs_is_dir f l \<longrightarrow> fs_is_dir f' l))"

lemma extends_refl [simp]: "extends f f"
  by (simp add: extends_def)

lemma extends_trans: "extends f g \<Longrightarrow> extends g h \<Longrightarrow> extends f h"
  by (simp add: extends_def)

lemma extends_occupied: "extends f g \<Longrightarrow> occupied f l \<Longrightarrow> occupied g l"
  by (auto simp: extends_def occupied_def)

lemma extends_make_dirs: "extends f (snd (make_dirs den ls f))"
proof (induction den ls f rule: make_dirs.induct)
  case (2 den l ls f)
  have "extends f (f\<lparr>fs_dirs := fs_dirs f @ [l]\<rparr>)" by (auto simp: extends_def fs_is_file_def fs_is_dir_def)
  then show ?case using 2 by (auto split: option.split intro: extends_trans)
qed simp

lemma extends_write: "extends f (snd (write_file den ps t f))"
  by (auto simp: write_file_def extends_def fs_is_file_def fs_is_dir_def split: option.split)

lemma write_occupies: "write_file den ps t f = (Inr u, g) \<Longrightarrow> occupied g (locate ps)"
  by (auto simp: write_file_def occupied_def fs_is_file_def split: if_splits option.splits)

lemma on_fs_run: "on_fs m w = (r, w') \<Longrightarrow> m (sy_fs w) = (r, sy_fs w') \<and> sy_ops w' = sy_ops w"
  by (auto simp: on_fs_def split: prod.splits)

lemma download_obj_run:
  assumes "download_obj env k b a w = (Inr a', w')"
  shows "extends (sy_fs w) (sy_fs w') \<and> ac_keys a' = ac_keys a
    \<and> (a' = a \<or> ac_synced a' + ac_skipped a' = Suc (ac_synced a + ac_skipped a) \<and> occupied (sy_fs w') (locate (local_parts env k)))"
proof -
  let ?ps = "local_parts env k"
  obtain c where c: "etag_get (ac_cache a) (ob_key b) = Inr c"
    using assms by (auto simp: download_obj_def pm_bind_def pm_lift_def Let_def split: sum.splits)
  show ?thesis
  proof (cases "c = JStr (obj_etag b) \<and> fs_exists (sy_fs w) ?ps")
    case True
    then show ?thesis using assms c
      by (auto simp: download_obj_def pm_bind_def pm_lift_def pm_get_def pm_return_def fs_exists_def occupied_def Let_def)
  next
    case False
    obtain w1 where w1: "on_fs (make_dirs (sx_denied env) (steps_of (butlast ?ps))) w = (Inr (), w1)"
      using assms c False
      by (auto simp: download_obj_def pm_bind_def pm_then_def pm_lift_def pm_get_def Let_def split: prod.splits sum.splits)
    then have e1: "extends (sy_fs w) (sy_fs w1)"
      using extends_make_dirs [of "sy_fs w" "sx_denied env" "steps_of (butlast ?ps)"] on_fs_run [OF w1] by simp
    let ?w2 = "w1\<lparr>sy_ops := Suc (sy_ops w1)\<rparr>"
    consider (fail) "a' = a" "w' = ?w2"
      | (wrote) cont r where "on_fs (write_file (sx_denied env) ?ps cont) ?w2 = (r, w')"
          "r = Inr () \<and> a' = a\<lparr>ac_synced := Suc (ac_synced a), ac_cache := etag_set (ob_key b) (obj_etag b) (ac_cache a)\<rparr>
           \<or> a' = a"
      using assms c False w1
      by (auto simp: download_obj_def pm_bind_def pm_then_def pm_catch_def pm_lift_def pm_get_def pm_return_def pm_raise_def
          outside_or_def outside_def Let_def split: prod.splits sum.splits if_splits)
    then show ?thesis
    proof cases
      case fail
      with e1 show ?thesis by simp
    next
      case wrote
      have f: "write_file (sx_denied env) ?ps cont (sy_fs w1) = (r, sy_fs w')" using on_fs_run [OF wrote(1)] by simp
      moreover have "extends (sy_fs w1) (sy_fs w')"
        using extends_write [of "sy_fs w1" "sx_denied env" ?ps cont] f by simp
      ultimately show ?thesis using wrote(2) e1 extends_trans write_occupies by auto
    qed
  qed
qed

lemma sync_one_run:
  assumes "sync_one env u p b a w = (Inr a', w')"
  shows "extends (sy_fs w) (sy_fs w')"
    and "\<not> selected u p (ob_key b) \<Longrightarrow> a' = a"
    and "selected u p (ob_key b) \<Longrightarrow> ac_keys a' = List.insert (local_key_all (ob_key b)) (ac_keys a)
      \<and> (ac_synced a' + ac_skipped a' = ac_synced a + ac_skipped a
         \<or> ac_synced a' + ac_skipped a' = Suc (ac_synced a + ac_skipped a)
           \<and> occupied (sy_fs w') (locate (local_parts env (local_key_all (ob_key b)))))"
proof -
  let ?k = "local_key_all (ob_key b)"
  let ?a = "a\<lparr>ac_keys := List.insert ?k (ac_keys a)\<rparr>"
  consider (skip) "\<not> selected u p (ob_key b)" "a' = a" "w' = w"
    | (go) "selected u p (ob_key b)" "download_obj env ?k b ?a w = (Inr a', w')"
    using assms
    by (auto simp: sync_one_def selected_def pm_bind_def pm_lift_def pm_return_def Let_def split: if_splits sum.splits)
  then have "extends (sy_fs w) (sy_fs w') \<and> (\<not> selected u p (ob_key b) \<longrightarrow> a' = a)
      \<and> (selected u p (ob_key b) \<longrightarrow> ac_keys a' = List.insert ?k (ac_keys a)
        \<and> (ac_synced a' + ac_skipped a' = ac_synced a + ac_skipped a
           \<or> ac_synced a' + ac_skipped a' = Suc (ac_synced a + ac_skipped a) \<and> occupied (sy_fs w') (locate (local_parts env ?k))))"
  proof cases
    case go
    with download_obj_run [OF go(2)] show ?thesis by auto
  qed simp
  then show "extends (sy_fs w) (sy_fs w')" "\<not> selected u p (ob_key b) \<Longrightarrow> a' = a"
    "selected u p (ob_key b) \<Longrightarrow> ac_keys a' = List.insert ?k (ac_keys a)
      \<and> (ac_synced a' + ac_skipped a' = ac_synced a + ac_skipped a
         \<or> ac_synced a' + ac_skipped a' = Suc (ac_synced a + ac_skipped a) \<and> occupied (sy_fs w') (locate (local_parts env ?k)))"
    by simp_all
qed

lemma download_all_run:
  assumes "download_all (sync_one env u p) bs a w = (Inr a', w')"
  shows "extends (sy_fs w) (sy_fs w')
    \<and> set (ac_keys a') = set (ac_keys a) \<union> (\<lambda>b. local_key_all (ob_key b)) ` set (selection u p bs)
    \<and> ac_synced a' + ac_skipped a' \<le> ac_synced a + ac_skipped a + length (selection u p bs)
    \<and> (ac_synced a' + ac_skipped a' = ac_synced a + ac_skipped a + length (selection u p bs) \<longrightarrow>
        (\<forall>b\<in>set (selection u p bs). occupied (sy_fs w') (locate (local_parts env (local_key_all (ob_key b))))))"
  using assms
proof (induction bs arbitrary: a w)
  case (Cons b bs)
  obtain a1 w1 where 1: "sync_one env u p b a w = (Inr a1, w1)" and 2: "download_all (sync_one env u p) bs a1 w1 = (Inr a', w')"
    using Cons.prems by (auto simp: pm_bind_def split: prod.splits sum.splits)
  note s = sync_one_run [OF 1] and ih = Cons.IH [OF 2]
  have e: "extends (sy_fs w) (sy_fs w')" using s(1) ih extends_trans by blast
  show ?case
  proof (cases "selected u p (ob_key b)")
    case True
    with s(3) ih e show ?thesis
      by (auto simp: selection_def dest: extends_occupied)
  next
    case False
    with s(2) ih e show ?thesis by (simp add: selection_def)
  qed
qed (simp add: pm_return_def selection_def)

text \<open>What is in the tool directories; the ETag cache is not among it.\<close>

definition tool_area :: "sync_env \<Rightarrow> sync_world \<Rightarrow> location set \<times> location set" where
  "tool_area env w = ({l. in_tools_dir env l \<and> fs_is_file (sy_fs w) l}, {l. in_tools_dir env l \<and> fs_is_dir (sy_fs w) l})"

lemma not_in_tools [simp]: "\<not> in_tools_dir env (data_loc env)" "\<not> in_tools_dir env (data_loc env @ [x])"
  by (simp_all add: in_tools_dir_def relative_def)

lemma tool_area_data_dir: "keeps (tool_area env) (make_data_dir env)"
proof -
  have "in_tools_dir env l \<Longrightarrow> l \<noteq> data_loc env" for l by auto
  then show ?thesis
    unfolding keeps_def tool_area_def make_data_dir_def on_fs_def
    by (auto simp: fs_is_file_def fs_is_dir_def split: option.split)
qed

lemma tool_area_fs:
  assumes "\<And>f l. in_tools_dir env l \<Longrightarrow> dict_get (fs_files (snd (m f))) l = dict_get (fs_files f) l" "\<And>f. fs_dirs (snd (m f)) = fs_dirs f"
  shows "keeps (tool_area env) (on_fs m)"
  using assms unfolding keeps_def tool_area_def on_fs_def fs_is_file_def fs_is_dir_def by (auto simp: case_prod_beta)

lemma tool_area_save_etags: "keeps (tool_area env) (save_etags env c)"
proof -
  have n: "in_tools_dir env l \<Longrightarrow> l \<noteq> data_loc env @ [x]" for l x by auto
  have "keeps (tool_area env) (on_fs (write_file (sx_denied env) (etag_tmp_parts env) t))" for t
    by (rule tool_area_fs) (use n in \<open>auto simp: write_file_def etag_locs split: option.split\<close>)
  moreover have "keeps (tool_area env) (on_fs (move_file (sx_denied env) (locate (etag_tmp_parts env)) (locate (etag_parts env))))"
    by (rule tool_area_fs) (use n in \<open>auto simp: move_file_def etag_locs split: option.split\<close>)
  ultimately show ?thesis
    unfolding save_etags_def by (intro keeps_intros tool_area_data_dir)
qed

lemma fs_is_file_filter: "fs_is_file (f\<lparr>fs_files := filter (\<lambda>(l, _). P l) (fs_files f)\<rparr>) l \<longleftrightarrow> P l \<and> fs_is_file f l"
proof -
  have "dict_get (filter (\<lambda>(l, _). P l) d) l = (if P l then dict_get d l else None)" for d :: "(location, string) dict"
    by (induction d) auto
  then show ?thesis by (simp add: fs_is_file_def)
qed

lemma mirror_run:
  assumes "mirror env u p bs w = (Inr (a, del), w')"
  shows "\<And>l. fs_is_file (sy_fs w') l \<Longrightarrow> in_tools_dir env l \<Longrightarrow> sx_denied env l = None \<Longrightarrow>
      \<exists>b\<in>set (selection u p bs). join_str ''/'' (relative env l) = local_key_all (ob_key b)"
    and "ac_synced a + ac_skipped a \<le> length (selection u p bs)"
    and "\<And>b. ac_synced a + ac_skipped a = length (selection u p bs) \<Longrightarrow> b \<in> set (selection u p bs) \<Longrightarrow>
      in_tools_dir env (locate (local_parts env (local_key_all (ob_key b)))) \<Longrightarrow>
      join_str ''/'' (relative env (locate (local_parts env (local_key_all (ob_key b))))) = local_key_all (ob_key b) \<Longrightarrow>
      occupied (sy_fs w') (locate (local_parts env (local_key_all (ob_key b))))"
proof -
  obtain c w1 w2 where 1: "download_all (sync_one env u p) bs (acc_start c) w1 = (Inr a, w2)"
    and 3: "save_etags env (ac_cache a) (snd (delete_orphans env (ac_keys a) w2)) = (Inr (), w')"
    using assms unfolding mirror_def
    by (auto elim!: pm_bind_InrE pm_then_InrE simp: pm_return_def)
  note d = download_all_run [OF 1]
  have ks: "set (ac_keys a) = (\<lambda>b. local_key_all (ob_key b)) ` set (selection u p bs)" using d by (simp add: acc_start_def)
  let ?w3 = "snd (delete_orphans env (ac_keys a) w2)"
  have a3: "tool_area env w' = tool_area env ?w3" using keeps_run [OF tool_area_save_etags 3] .
  have f3: "fs_is_file (sy_fs ?w3) l \<longleftrightarrow> \<not> orphan env (ac_keys a) l \<and> fs_is_file (sy_fs w2) l" for l
    using fs_is_file_filter [where f = "sy_fs w2" and P = "\<lambda>l. \<not> orphan env (ac_keys a) l"] by (simp add: delete_orphans_def Let_def)
  have d3: "fs_is_dir (sy_fs ?w3) l = fs_is_dir (sy_fs w2) l" for l
    by (simp add: delete_orphans_def Let_def fs_is_dir_def)
  have area: "in_tools_dir env l \<Longrightarrow> fs_is_file (sy_fs w') l = fs_is_file (sy_fs ?w3) l"
    "in_tools_dir env l \<Longrightarrow> fs_is_dir (sy_fs w') l = fs_is_dir (sy_fs ?w3) l" for l
    using a3 by (auto simp: tool_area_def)
  show "\<exists>b\<in>set (selection u p bs). join_str ''/'' (relative env l) = local_key_all (ob_key b)"
    if "fs_is_file (sy_fs w') l" "in_tools_dir env l" "sx_denied env l = None" for l
    using that ks by (auto simp: area f3 orphan_def)
  show "ac_synced a + ac_skipped a \<le> length (selection u p bs)" using d by (simp add: acc_start_def)
  let ?L = "\<lambda>b. locate (local_parts env (local_key_all (ob_key b)))"
  show "occupied (sy_fs w') (?L b)" if "ac_synced a + ac_skipped a = length (selection u p bs)" "b \<in> set (selection u p bs)"
      "in_tools_dir env (?L b)" "join_str ''/'' (relative env (?L b)) = local_key_all (ob_key b)" for b
  proof -
    let ?l = "?L b"
    have "occupied (sy_fs w2) ?l" using d that by (simp add: acc_start_def)
    moreover have "\<not> orphan env (ac_keys a) ?l" using that ks by (auto simp: orphan_def)
    ultimately show ?thesis using that(3) by (auto simp: occupied_def area f3 d3)
  qed
qed

lemma reload_files:
  assumes "reload_if env b w = (Inr n, w')"
  shows "fs_is_file (sy_fs w') l \<Longrightarrow> fs_is_file (sy_fs w) l"
    and "occupied (sy_fs w) (data_loc env @ ps) \<Longrightarrow> ps \<noteq> [] \<Longrightarrow> ''__pycache__'' \<notin> set ps \<Longrightarrow> occupied (sy_fs w') (data_loc env @ ps)"
proof -
  have w': "sy_fs w' = sy_fs w \<or> sy_fs w' = without_pycache env (sy_fs w)"
    using assms by (auto simp: reload_if_def sync_reload_def pm_bind_def pm_return_def split: if_splits prod.splits sum.splits)
  have f: "fs_is_file (without_pycache env f) l \<longleftrightarrow> \<not> cached_module env (butlast l) \<and> fs_is_file f l" for f l
    using fs_is_file_filter [where f = f and P = "\<lambda>l. \<not> cached_module env (butlast l)"]
    by (simp add: without_pycache_def fs_is_file_def)
  show "fs_is_file (sy_fs w') l \<Longrightarrow> fs_is_file (sy_fs w) l" using w' f by auto
  assume o: "occupied (sy_fs w) (data_loc env @ ps)" and ps: "ps \<noteq> []" "''__pycache__'' \<notin> set ps"
  have "\<not> cached_module env (data_loc env @ ps)" "\<not> cached_module env (butlast (data_loc env @ ps))"
    using ps in_set_butlastD [of "''__pycache__''" ps] by (auto simp: cached_module_def relative_def butlast_append)
  then show "occupied (sy_fs w') (data_loc env @ ps)"
    using w' o by (auto simp: occupied_def f) (auto simp: fs_is_dir_def without_pycache_def)
qed

definition plain_key :: "string \<Rightarrow> bool" where
  "plain_key k \<longleftrightarrow> tame k \<and> join_str ''/'' (path_parts k) = k \<and> ''tools'' \<in> set (butlast (path_parts k))
     \<and> ''__pycache__'' \<notin> set (path_parts k)"

text \<open>The part of \<open>sync_all\<close> inside the \<open>try\<close>, and the report at its end.\<close>

lemma sync_all_inner:
  assumes "sync_all env u p c w = (Inr r, w')" and "obj_get r ''files_skipped'' = Some (JInt k)"
  obtains w2 objs w3 w4 a del w5 n where "list_objects env ''users/'' w2 = (Inr objs, w3)" "sy_ops w2 = sy_ops w"
    "mirror env u p objs w4 = (Inr (a, del), w5)" "reload_if env (0 < ac_synced a \<or> 0 < del) w5 = (Inr n, w')"
    "r = JObj [(''success'', JBool True), (''files_synced'', JInt (int (ac_synced a))),
       (''files_skipped'', JInt (int (ac_skipped a))), (''files_deleted'', JInt (int del)), (''tools_loaded'', JInt (int n))]"
proof -
  have ops: "sy_ops v' = sy_ops v" if "get_client_s3 env v = (x, v')" for v v' x
    using that by (auto simp: get_client_s3_def Let_def split: if_splits option.splits)
  have ops': "sy_ops v' = sy_ops v" if "make_data_dir env v = (x, v')" for v v' x
    using that on_fs_run unfolding make_data_dir_def by blast
  have "reported (sync_all_body env u p c) w = (Inr r, w')"
    using assms by (auto simp: sync_all_def pm_return_def sync_error_def split: if_splits)
  then have "sync_all_body env u p c w = (Inr r, w')"
    using assms(2)
    by (auto simp: reported_def pm_catch_def pm_return_def pm_raise_def sync_error_def split: prod.splits sum.splits if_splits)
  then obtain w1 w2 objs w3 where b: "get_client_s3 env w = (Inr (), w1)" "make_data_dir env w1 = (Inr (), w2)"
      "list_objects env ''users/'' w2 = (Inr objs, w3)" "objs \<noteq> []"
      "pm_then (if truthy c then clean env u p else pm_return ()) (pm_bind (mirror env u p objs) (\<lambda>(a, del).
        pm_bind (reload_if env (0 < ac_synced a \<or> 0 < del)) (\<lambda>n.
          pm_return (JObj [(''success'', JBool True), (''files_synced'', JInt (int (ac_synced a))),
            (''files_skipped'', JInt (int (ac_skipped a))), (''files_deleted'', JInt (int del)), (''tools_loaded'', JInt (int n))])))) w3
       = (Inr r, w')"
    using assms(2) unfolding sync_all_body_def
    by (elim pm_then_InrE pm_bind_InrE) (auto simp: pm_return_def split: if_splits)
  from b(5) obtain w4 a del w5 n where m: "mirror env u p objs w4 = (Inr (a, del), w5)"
      "reload_if env (0 < ac_synced a \<or> 0 < del) w5 = (Inr n, w')"
      "r = JObj [(''success'', JBool True), (''files_synced'', JInt (int (ac_synced a))),
       (''files_skipped'', JInt (int (ac_skipped a))), (''files_deleted'', JInt (int del)), (''tools_loaded'', JInt (int n))]"
    by (elim pm_then_InrE pm_bind_InrE) (auto simp: pm_return_def elim!: pm_bind_InrE)
  have "sy_ops w2 = sy_ops w" using ops [OF b(1)] ops' [OF b(2)] by simp
  from that [OF b(3) this m] show thesis .
qed

lemma sync_all_run:
  assumes "sync_all env u p c w = (Inr r, w')" and "obj_get r ''files_skipped'' = Some (JInt k)"
  obtains a del n w1 w2 where
    "mirror env u p (concat (fst (sx_list env (sy_ops w) ''users/''))) w1 = (Inr (a, del), w2)"
    "reload_if env (0 < ac_synced a \<or> 0 < del) w2 = (Inr n, w')"
    "obj_get r ''files_synced'' = Some (JInt (int (ac_synced a)))" "k = int (ac_skipped a)"
proof -
  obtain w2 objs w3 w4 a del w5 n where l: "list_objects env ''users/'' w2 = (Inr objs, w3)" "sy_ops w2 = sy_ops w"
    and m: "mirror env u p objs w4 = (Inr (a, del), w5)" "reload_if env (0 < ac_synced a \<or> 0 < del) w5 = (Inr n, w')"
    and r: "r = JObj [(''success'', JBool True), (''files_synced'', JInt (int (ac_synced a))),
       (''files_skipped'', JInt (int (ac_skipped a))), (''files_deleted'', JInt (int del)), (''tools_loaded'', JInt (int n))]"
    by (rule sync_all_inner [OF assms])
  have "objs = concat (fst (sx_list env (sy_ops w) ''users/''))"
    using l by (auto simp: list_objects_def pm_bind_def outside_def pm_return_def pm_raise_def split: prod.splits option.splits)
  then show thesis using that m r assms(2) by simp
qed


text \<open>A synchronisation for the user \<open>al\<close> on the small store: the file of the user \<open>bo\<close> is deleted.\<close>

lemma demo_result:
  "case sync_all demo_sync_env (JStr ''al'') JNull JNull demo_sync of
     (Inr r, w') \<Rightarrow> obj_get r ''files_synced'' = Some (JInt 1) \<and> obj_get r ''files_skipped'' = Some (JInt 0) | _ \<Rightarrow> False"
  by code_simp


end
