(* ===== verification/Ws_Gateway.thy ===== *)
theory Ws_Gateway
  imports Rest_Api Cloud_Syncer
begin

text \<open>
  The WebSocket gateway, \<open>app/api/ws/gateway.py\<close>: JSON-RPC requests over one socket.  The world of a connection is
  the process, the synchroniser with its file system, and what was sent so far; the registries of the process and
  of the synchroniser are the same object.  The client is a list of inputs: a text frame, a quiet half minute, the
  disconnection, another failure of the receive.  A frame that opens an event stream carries the polls of that
  subscription.  Whether a send succeeds is up to the environment.  The file system tools see is the one of the
  synchroniser; what a call leaves there is a parameter, as is a call whose names are not strings.
\<close>

section \<open>Environment and state\<close>

datatype rpc_exc = RpcErr int string | PyErr exc

record gw_env =
  ge_app :: app_env
  ge_sync :: sync_env
  ge_root :: string
  ge_effect :: "nat \<Rightarrow> file_system \<Rightarrow> file_system"
  ge_untyped :: "jdict \<Rightarrow> exc + json"
  ge_parse_error :: "string \<Rightarrow> string"
  ge_send :: "nat \<Rightarrow> exc option"

record gw_world =
  gw_app :: app_world
  gw_sync :: sync_world
  gw_sent :: "(nat \<times> json) list"
  gw_sends :: nat

type_synonym 'a gw = "(gw_world, rpc_exc, 'a) pm"

datatype reply = Reply json | NoReply | Streaming

fun py_result :: "exc + 'a \<Rightarrow> rpc_exc + 'a" where
  "py_result (Inl e) = Inl (PyErr e)"
| "py_result (Inr x) = Inr x"

definition on_app :: "(app_world, exc, 'a) pm \<Rightarrow> 'a gw" where
  "on_app m w = (case m (gw_app w) of (r, a) \<Rightarrow> (py_result r, w\<lparr>gw_app := a\<rparr>))"

definition gw_reg :: "gw_world \<Rightarrow> registry" where
  "gw_reg w = ts_reg (rw_tools (ap_exec (gw_app w)))"

definition set_reg :: "registry \<Rightarrow> app_world \<Rightarrow> app_world" where
  "set_reg g a = a\<lparr>ap_exec := (ap_exec a)\<lparr>rw_tools := (rw_tools (ap_exec a))\<lparr>ts_reg := g\<rparr>\<rparr>\<rparr>"

definition on_sync :: "'a sync \<Rightarrow> 'a gw" where
  "on_sync m w =
     (case m ((gw_sync w)\<lparr>sy_reg := gw_reg w\<rparr>) of
        (r, s) \<Rightarrow> (py_result r, w\<lparr>gw_sync := s, gw_app := set_reg (sy_reg s) (gw_app w)\<rparr>))"

definition on_streams :: "(streams \<Rightarrow> streams) \<Rightarrow> unit gw" where
  "on_streams f w = (Inr (), w\<lparr>gw_app := (gw_app w)\<lparr>ap_streams := f (ap_streams (gw_app w))\<rparr>\<rparr>)"

section \<open>Messages\<close>

definition rpc_ok :: "json \<Rightarrow> json \<Rightarrow> json" where
  "rpc_ok i result =
     JObj [(''jsonrpc'', JStr ''2.0''), (''id'', i), (''result'', if truthy result then result else JObj [])]"

definition rpc_err :: "json \<Rightarrow> int \<Rightarrow> string \<Rightarrow> json" where
  "rpc_err i code message =
     JObj [(''jsonrpc'', JStr ''2.0''), (''id'', i), (''error'', JObj [(''code'', JInt code), (''message'', JStr message)])]"

definition notification :: "string \<Rightarrow> json option \<Rightarrow> json" where
  "notification method params =
     JObj ([(''jsonrpc'', JStr ''2.0''), (''method'', JStr method)]
       @ (case params of None \<Rightarrow> [] | Some p \<Rightarrow> [(''params'', p)]))"

definition send_text :: "gw_env \<Rightarrow> nat \<Rightarrow> json \<Rightarrow> unit gw" where
  "send_text env ws msg w =
     (let w' = w\<lparr>gw_sends := Suc (gw_sends w)\<rparr>
      in case ge_send env (gw_sends w) of
           Some e \<Rightarrow> (Inl (PyErr e), w')
         | None \<Rightarrow> (Inr (), w'\<lparr>gw_sent := gw_sent w @ [(ws, msg)]\<rparr>))"

section \<open>Tool calls\<close>

text \<open>The file system as the tool runtime sees it.\<close>

definition seen_tools :: "gw_env \<Rightarrow> gw_world \<Rightarrow> tool_env" where
  "seen_tools env w =
     (re_tools (xe_router (ae_exec (ge_app env))))
       \<lparr>te_node := (\<lambda>p. fs_node (sx_decode (ge_sync env)) (sy_fs (gw_sync w)) (path_parts p)), te_root := ge_root env\<rparr>"

definition seen_router :: "gw_env \<Rightarrow> gw_world \<Rightarrow> router_env" where
  "seen_router env w = (xe_router (ae_exec (ge_app env)))\<lparr>re_tools := seen_tools env w\<rparr>"

text \<open>User, project and category from the first argument that is a path of a tool.\<close>

definition owner_of_path :: "string \<Rightarrow> owner \<Rightarrow> owner" where
  "owner_of_path v ow =
     (case ow of (u, p, c) \<Rightarrow>
      let parts = split_char (CHR ''/'') v;
          (u', p') = (if 4 \<le> length parts then (str_or u (Some (parts ! 1)), str_or p (Some (parts ! 2))) else (u, p));
          c' = (if 6 \<le> length parts then str_or c (Some (parts ! 4)) else c)
      in (u', p', c'))"

fun infer_owner :: "jdict \<Rightarrow> owner \<Rightarrow> owner" where
  "infer_owner [] ow = ow"
| "infer_owner ((k, v) # args) ow =
     (case v of
        JStr s \<Rightarrow> if startswith s ''data/'' \<and> str_contains ''/tools/'' s then owner_of_path s ow else infer_owner args ow
      | _ \<Rightarrow> infer_owner args ow)"

definition caller_owner :: "auth_ctx option \<Rightarrow> jdict \<Rightarrow> owner \<Rightarrow> owner" where
  "caller_owner auth args ow =
     (case (if str_truthy (fst ow) \<and> str_truthy (fst (snd ow)) then ow else infer_owner args ow) of
        (u, p, c) \<Rightarrow> (case auth of Some a \<Rightarrow> if str_truthy u then (u, p, c) else (Some (au_user a), p, c) | None \<Rightarrow> (u, p, c)))"

definition call_ctx :: "string \<Rightarrow> jdict \<Rightarrow> owner \<Rightarrow> route_ctx" where
  "call_ctx name args ow =
     \<lparr>rc_tool_name = name, rc_arguments = args, rc_invocation_id = [], rc_org_id = [], rc_project_id = None,
      rc_username = fst ow, rc_project = fst (snd ow), rc_category = snd (snd ow), rc_server_config = [],
      rc_endpoint_url = None, rc_code = None, rc_server_type = LOCAL_PLUGIN, rc_timeout = 120\<rparr>"

definition leave_files :: "gw_env \<Rightarrow> nat \<Rightarrow> gw_world \<Rightarrow> gw_world" where
  "leave_files env n w =
     (let n' = length (ts_calls (rw_tools (ap_exec (gw_app w))))
      in if n < n' then w\<lparr>gw_sync := (gw_sync w)\<lparr>sy_fs := ge_effect env n (sy_fs (gw_sync w))\<rparr>\<rparr> else w)"

definition call_in_thread :: "gw_env \<Rightarrow> string \<Rightarrow> jdict \<Rightarrow> owner \<Rightarrow> json gw" where
  "call_in_thread env name args ow w =
     (case on_app (on_exec (run_local (seen_router env w) (call_ctx name args ow))) w of
        (r, w') \<Rightarrow> (r, leave_files env (length (ts_calls (rw_tools (ap_exec (gw_app w))))) w'))"

definition tool_timeout :: "string \<Rightarrow> json" where
  "tool_timeout name =
     JObj [(''content'', JList [JObj [(''type'', JStr ''text''),
         (''text'', JStr (''Tool '' @ [CHR 0x27] @ name @ [CHR 0x27] @ '' timed out after 120s''))]]),
       (''isError'', JBool True), (''error'', JStr ''tool_timeout'')]"

text \<open>Paths are iterated and must be strings.\<close>

fun path_strings :: "json list \<Rightarrow> exc + string list" where
  "path_strings [] = Inr []"
| "path_strings (JStr s # js) = (case path_strings js of Inl e \<Rightarrow> Inl e | Inr ss \<Rightarrow> Inr (s # ss))"
| "path_strings (_ # js) = Inl (Exc AttributeErr ''object has no attribute replace'')"

definition requested_paths :: "json \<Rightarrow> exc + string list" where
  "requested_paths j = (case json_iter j of Inl e \<Rightarrow> Inl e | Inr js \<Rightarrow> path_strings js)"

text \<open>The files of the requested output ports, or of the inferred ones when none is given or none can be read.\<close>

definition output_files :: "tool_env \<Rightarrow> json \<Rightarrow> jdict \<Rightarrow> exc + json list" where
  "output_files te requested args =
     (let inferred = infer_output_port_paths te args in
      if \<not> truthy requested then Inr (read_output_files te inferred)
      else
        (case requested_paths requested of
           Inl e \<Rightarrow> Inl e
         | Inr ps \<Rightarrow>
             (let fs = read_output_files te ps in Inr (if fs \<noteq> [] then fs else read_output_files te inferred))))"

definition embed_outputs :: "gw_env \<Rightarrow> jdict \<Rightarrow> jdict \<Rightarrow> json \<Rightarrow> json gw" where
  "embed_outputs env params args result w =
     (case result of
        JObj d \<Rightarrow>
          (case output_files (seen_tools env w) (dict_get_or params ''output_port_paths'' (JList [])) args of
             Inl e \<Rightarrow> (Inl (PyErr e), w)
           | Inr [] \<Rightarrow> (Inr result, w)
           | Inr fs \<Rightarrow> (Inr (JObj (dict_set ''output_files'' (JList fs) d)), w))
      | _ \<Rightarrow> (Inr result, w))"

fun text_param :: "json \<Rightarrow> string option option" where
  "text_param JNull = Some None"
| "text_param (JStr s) = Some (Some s)"
| "text_param _ = None"

definition typed_call :: "jdict \<Rightarrow> (string \<times> owner) option" where
  "typed_call params =
     (case (jget params ''name'', text_param (jget params ''username''), text_param (jget params ''project''),
            text_param (jget params ''category'')) of
        (JStr n, Some u, Some p, Some c) \<Rightarrow> Some (n, u, p, c)
      | _ \<Rightarrow> None)"

definition handle_tools_call :: "gw_env \<Rightarrow> auth_ctx option \<Rightarrow> jdict \<Rightarrow> json gw" where
  "handle_tools_call env auth params =
     (if \<not> truthy (jget params ''name'') then pm_raise (RpcErr (-32602) ''Missing required param: name'')
      else
        (case (if truthy (jget params ''arguments'') then jget params ''arguments'' else JObj []) of
           JObj args \<Rightarrow>
             (case typed_call params of
                None \<Rightarrow> pm_lift (py_result (ge_untyped env params))
              | Some (name, ow) \<Rightarrow>
                  pm_bind
                    (pm_catch
                      (pm_bind (call_in_thread env name args (caller_owner auth args ow)) (\<lambda>r. pm_return (Inr r)))
                      (\<lambda>e. case e of
                         PyErr x \<Rightarrow> if is_timeout_exc x then pm_return (Inl (tool_timeout name)) else pm_raise e
                       | RpcErr _ _ \<Rightarrow> pm_raise e))
                    (\<lambda>r. case r of Inl t \<Rightarrow> pm_return t | Inr x \<Rightarrow> embed_outputs env params args x))
         | _ \<Rightarrow> pm_raise (RpcErr (-32602) ''arguments must be an object'')))"

section \<open>The other methods\<close>

definition initialize_result :: "gw_world \<Rightarrow> json" where
  "initialize_result w =
     JObj [(''status'', JStr ''healthy''), (''initialized'', JBool (plugins_loaded (gw_reg w))),
       (''tools_count'', JInt (int (length (TOOLS (gw_reg w))))),
       (''serverInfo'', JObj [(''name'', JStr ''Grafux-mcp''), (''version'', JStr ''2.0.0'')])]"

definition counts_json :: "nat \<times> nat \<times> nat \<times> nat \<Rightarrow> json" where
  "counts_json c =
     (case c of (t, r, p, e) \<Rightarrow> JObj [(''tools'', JInt (int t)), (''resources'', JInt (int r)), (''prompts'', JInt (int p)), (''errors'', JInt (int e))])"

definition handle_reload :: "gw_env \<Rightarrow> json gw" where
  "handle_reload env =
     pm_bind (on_sync (sync_reload (ge_sync env))) (\<lambda>c. case c of (t, r, p, e) \<Rightarrow>
       pm_return (JObj [(''success'', JBool True), (''tools'', JInt (int t)), (''resources'', JInt (int r)),
         (''prompts'', JInt (int p)), (''counts'', counts_json c)]))"

definition resources_list :: "registry \<Rightarrow> json" where
  "resources_list g =
     JObj [(''resources'', JList (map (\<lambda>(uri, i). JObj [(''uri'', JStr uri), (''name'', JStr (rs_name i)),
        (''description'', JStr (rs_description i)), (''mimeType'', JStr (rs_mime i))]) (RESOURCES g)))]"

definition read_resource :: "registry \<Rightarrow> json \<Rightarrow> rpc_exc + json" where
  "read_resource g uri =
     (if truthy uri \<and> \<not> hashable uri then Inl (PyErr (Exc TypeErr ''unhashable type''))
      else
        (case uri of
           JStr u \<Rightarrow>
             (case (if u = [] then None else dict_get (RESOURCES g) u) of
                Some i \<Rightarrow> Inr (JObj [(''contents'', JList [JObj [(''uri'', uri), (''mimeType'', JStr (rs_mime i)), (''text'', JStr (rs_content i))]])])
              | None \<Rightarrow> Inl (RpcErr (-32602) (''Unknown resource: '' @ u)))
         | _ \<Rightarrow> Inl (RpcErr (-32602) (''Unknown resource: '' @ py_str uri))))"

definition caller_org :: "auth_ctx option \<Rightarrow> string" where
  "caller_org auth = (case auth of Some a \<Rightarrow> au_org a | None \<Rightarrow> ''anonymous'')"

definition add_status :: "seconds \<Rightarrow> string \<Rightarrow> json list \<Rightarrow> redis \<Rightarrow> json list \<times> redis" where
  "add_status now k acc r =
     (case redis_get now k r of (v, r') \<Rightarrow>
        ((case v of
            None \<Rightarrow> acc
          | Some t \<Rightarrow> if t = [] then acc else (case loads t of Some j \<Rightarrow> acc @ [j] | None \<Rightarrow> acc)), r'))"

definition handle_server_status :: "auth_ctx option \<Rightarrow> json gw" where
  "handle_server_status auth =
     pm_bind (on_app (redis_do (\<lambda>now r. redis_scan now (key_server_status_pattern (caller_org auth)) (add_status now) [] r)))
       (\<lambda>ss. pm_return (JObj [(''servers'', JList ss)]))"

definition handle_sync_all :: "gw_env \<Rightarrow> jdict \<Rightarrow> json gw" where
  "handle_sync_all env params =
     on_sync (sync_all (ge_sync env) (jget params ''username'') (jget params ''project'') (dict_get_or params ''clean_first'' (JBool False)))"

definition handle_sync_tool :: "gw_env \<Rightarrow> jdict \<Rightarrow> json gw" where
  "handle_sync_tool env params =
     (let u = jget params ''username''; p = jget params ''project''; t = jget params ''tool_name'' in
      if \<not> (truthy u \<and> truthy p \<and> truthy t) then pm_raise (RpcErr (-32602) ''Missing username, project, or tool_name'')
      else on_sync (sync_tool (ge_sync env) u p t (jget params ''category'') (jget params ''user_id'')))"

section \<open>Event streams\<close>

definition event_notification :: "json \<Rightarrow> jdict \<Rightarrow> json" where
  "event_notification i event =
     notification ''invocation/event'' (Some (JObj (fold (\<lambda>(k, v). dict_set k v) event [(''invocation_id'', i)])))"

text \<open>Events go out until one cannot be sent; an event that is not an object raises.\<close>

fun forward :: "gw_env \<Rightarrow> nat \<Rightarrow> json \<Rightarrow> json list \<Rightarrow> bool gw" where
  "forward env ws i [] = pm_return True"
| "forward env ws i (JObj d # es) =
     (\<lambda>w. case send_text env ws (event_notification i d) w of
        (Inl (PyErr e), w') \<Rightarrow> if is_exception e then (Inr False, w') else (Inl (PyErr e), w')
      | (Inl x, w') \<Rightarrow> (Inl x, w')
      | (Inr _, w') \<Rightarrow> forward env ws i es w')"
| "forward env ws i (_ # es) = pm_raise (PyErr (Exc TypeErr ''object is not a mapping''))"

definition stream_events :: "gw_env \<Rightarrow> nat \<Rightarrow> json \<Rightarrow> (seconds \<times> poll) list \<Rightarrow> reply gw" where
  "stream_events env ws i polls w =
     (case sub_loop (ap_now (gw_app w) + 300) polls of
        (evs, x) \<Rightarrow>
          pm_bind (forward env ws i evs) (\<lambda>sent.
            if \<not> sent then pm_return NoReply
            else (case x of SubFinal \<Rightarrow> pm_return NoReply | SubTimeout \<Rightarrow> pm_return NoReply
                  | SubError e \<Rightarrow> pm_raise (PyErr e) | SubOpen \<Rightarrow> pm_return Streaming)) w)"

text \<open>The socket is registered while it is streaming; the registration ends with the stream.\<close>

definition handle_invocation_stream :: "gw_env \<Rightarrow> nat \<Rightarrow> json \<Rightarrow> jdict \<Rightarrow> (seconds \<times> poll) list \<Rightarrow> reply gw" where
  "handle_invocation_stream env ws req_id params polls =
     (let i = jget params ''invocation_id'' in
      if \<not> truthy i then pm_then (send_text env ws (rpc_err req_id (-32602) ''Missing invocation_id'')) (pm_return NoReply)
      else if \<not> hashable i then pm_raise (PyErr (Exc TypeErr ''unhashable type''))
      else
        pm_then (on_streams (sm_subscribe_invocation ws (py_str i)))
          (pm_then (send_text env ws (rpc_ok req_id (JObj [(''subscribed'', JBool True), (''invocation_id'', i)])))
            (\<lambda>w. case stream_events env ws i polls w of
               (Inr Streaming, w') \<Rightarrow> (Inr Streaming, w')
             | (r, w') \<Rightarrow> (r, snd (on_streams (sm_unsubscribe_invocation ws (py_str i)) w')))))"

section \<open>Dispatch\<close>

definition dispatch :: "gw_env \<Rightarrow> nat \<Rightarrow> auth_ctx option \<Rightarrow> json \<Rightarrow> jdict \<Rightarrow> json \<Rightarrow> (seconds \<times> poll) list \<Rightarrow> reply gw" where
  "dispatch env ws auth method params req_id polls =
     (if method = JStr ''ping'' then pm_return (Reply (JObj []))
      else if method = JStr ''initialize'' then pm_bind (pm_get initialize_result) (\<lambda>r. pm_return (Reply r))
      else if method = JStr ''tools/list'' then
        pm_bind (pm_get (\<lambda>w. JObj [(''tools'', JList (list_local_tools (gw_reg w)))])) (\<lambda>r. pm_return (Reply r))
      else if method = JStr ''tools/call'' then pm_bind (handle_tools_call env auth params) (\<lambda>r. pm_return (Reply r))
      else if method = JStr ''server/reload'' then pm_bind (handle_reload env) (\<lambda>r. pm_return (Reply r))
      else if method = JStr ''resources/list'' then pm_bind (pm_get (\<lambda>w. resources_list (gw_reg w))) (\<lambda>r. pm_return (Reply r))
      else if method = JStr ''resources/read'' then
        pm_bind (pm_get (\<lambda>w. read_resource (gw_reg w) (jget params ''uri''))) (\<lambda>r.
          pm_bind (pm_lift r) (\<lambda>x. pm_return (Reply x)))
      else if method = JStr ''invocation/stream'' then handle_invocation_stream env ws req_id params polls
      else if method = JStr ''server/status'' then pm_bind (handle_server_status auth) (\<lambda>r. pm_return (Reply r))
      else if method = JStr ''sync/all'' then pm_bind (handle_sync_all env params) (\<lambda>r. pm_return (Reply r))
      else if method = JStr ''sync/tool'' then pm_bind (handle_sync_tool env params) (\<lambda>r. pm_return (Reply r))
      else pm_raise (RpcErr (-32601) (''Unknown method: '' @ py_str method)))"

section \<open>The connection\<close>

datatype ws_input = Frame string "(seconds \<times> poll) list" | Quiet | Gone | Broken exc

datatype ws_end = Serving | Closed

text \<open>One request: its answer, or \<open>Streaming\<close> while its event stream is open.\<close>

definition answer :: "gw_env \<Rightarrow> nat \<Rightarrow> auth_ctx option \<Rightarrow> json \<Rightarrow> json \<Rightarrow> jdict \<Rightarrow> (seconds \<times> poll) list \<Rightarrow> bool gw" where
  "answer env ws auth req_id method params polls =
     pm_catch
       (pm_bind (dispatch env ws auth method params req_id polls) (\<lambda>r.
          case r of
            Reply x \<Rightarrow> pm_then (send_text env ws (rpc_ok req_id x)) (pm_return True)
          | NoReply \<Rightarrow> pm_return True
          | Streaming \<Rightarrow> pm_return False))
       (\<lambda>e. case e of
          RpcErr code msg \<Rightarrow> pm_then (send_text env ws (rpc_err req_id code msg)) (pm_return True)
        | PyErr x \<Rightarrow>
            if is_exception x then pm_then (send_text env ws (rpc_err req_id (-32603) (exc_msg x))) (pm_return True)
            else pm_raise e)"

definition handle_frame :: "gw_env \<Rightarrow> nat \<Rightarrow> auth_ctx option \<Rightarrow> string \<Rightarrow> (seconds \<times> poll) list \<Rightarrow> bool gw" where
  "handle_frame env ws auth raw polls =
     (case loads raw of
        None \<Rightarrow> pm_then (send_text env ws (rpc_err JNull (-32700) (''Parse error: '' @ ge_parse_error env raw))) (pm_return True)
      | Some (JObj req) \<Rightarrow>
          (case (if truthy (jget req ''params'') then jget req ''params'' else JObj []) of
             JObj params \<Rightarrow> answer env ws auth (jget req ''id'') (jget req ''method'') params polls
           | _ \<Rightarrow> pm_then (send_text env ws (rpc_err (jget req ''id'') (-32602) ''params must be an object'')) (pm_return True))
      | Some _ \<Rightarrow> pm_then (send_text env ws (rpc_err JNull (-32600) ''Request must be a JSON object'')) (pm_return True))"

definition ws_disconnect_exc :: exc where
  "ws_disconnect_exc = Exc (OtherErr ''WebSocketDisconnect'') []"

text \<open>The loop \<open>while True\<close> over the inputs; without further input it waits in the receive.\<close>

fun ws_loop :: "gw_env \<Rightarrow> nat \<Rightarrow> auth_ctx option \<Rightarrow> ws_input list \<Rightarrow> ws_end gw" where
  "ws_loop env ws auth [] = pm_return Serving"
| "ws_loop env ws auth (Quiet # xs) = pm_then (send_text env ws (notification ''ping'' None)) (ws_loop env ws auth xs)"
| "ws_loop env ws auth (Gone # xs) = pm_raise (PyErr ws_disconnect_exc)"
| "ws_loop env ws auth (Broken e # xs) = pm_raise (PyErr e)"
| "ws_loop env ws auth (Frame raw polls # xs) =
     pm_bind (handle_frame env ws auth raw polls) (\<lambda>go. if go then ws_loop env ws auth xs else pm_return Serving)"

definition ws_serve :: "gw_env \<Rightarrow> nat \<Rightarrow> auth_ctx option \<Rightarrow> ws_input list \<Rightarrow> ws_end gw" where
  "ws_serve env ws auth inputs w =
     (let org = caller_org auth in
      case ws_loop env ws auth inputs (snd (on_streams (sm_connect ws org) w)) of
        (Inr Serving, w') \<Rightarrow> (Inr Serving, w')
      | (Inl (PyErr e), w') \<Rightarrow>
          (if is_exception e then Inr Closed else Inl (PyErr e), snd (on_streams (sm_disconnect ws org) w'))
      | (r, w') \<Rightarrow> (Inr Closed, snd (on_streams (sm_disconnect ws org) w')))"

definition websocket_gateway :: "gw_env \<Rightarrow> nat \<Rightarrow> string option \<Rightarrow> ws_input list \<Rightarrow> ws_end gw" where
  "websocket_gateway env ws token inputs =
     (if \<not> str_truthy token then ws_serve env ws None inputs
      else
        pm_bind
          (pm_catch
            (pm_bind (on_app (on_exec (get_ws_auth_context (re_backend (xe_router (ae_exec (ge_app env)))) (ae_net (ge_app env)) (the token))))
              (\<lambda>a. pm_return (Some a)))
            (\<lambda>e. case e of PyErr x \<Rightarrow> if is_exception x then pm_return None else pm_raise e | RpcErr _ _ \<Rightarrow> pm_raise e))
          (\<lambda>auth. case auth of
             None \<Rightarrow> pm_then (send_text env ws (rpc_err JNull (-32001) ''Invalid token'')) (pm_return Closed)
           | Some a \<Rightarrow> ws_serve env ws (Some a) inputs))"

end
