(* ===== verification/Legacy_Api.thy ===== *)
theory Legacy_Api
  imports Ws_Gateway
begin

text \<open>
  The endpoints of \<open>app/api/legacy.py\<close> that shipped clients still call.  They need no authentication and work on
  the same world as the gateway.  A response is a status and a JSON body; what escapes a handler is answered
  with status 500 by the framework and is an exception of the model.  A request body that cannot be decoded is
  \<open>None\<close>.  A call whose names are not strings or whose arguments are no object has a parameter as its outcome.
\<close>

type_synonym http_reply = "int \<times> json"

type_synonym 'a lg = "(gw_world, exc, 'a) pm"

text \<open>The legacy handlers know no JSON-RPC errors.\<close>

definition lg_run :: "'a gw \<Rightarrow> 'a lg" where
  "lg_run m w =
     (case m w of
        (Inr x, w') \<Rightarrow> (Inr x, w')
      | (Inl (PyErr e), w') \<Rightarrow> (Inl e, w')
      | (Inl (RpcErr c s), w') \<Rightarrow> (Inl (Exc (OtherErr ''_JsonRpcError'') s), w'))"

definition TOOL_TIMEOUT :: seconds where
  "TOOL_TIMEOUT = 120"

definition legacy_health :: "gw_world \<Rightarrow> json" where
  "legacy_health w =
     JObj [(''status'', JStr ''healthy''), (''initialized'', JBool (plugins_loaded (gw_reg w))),
       (''tools_count'', JInt (int (length (TOOLS (gw_reg w)))))]"

definition legacy_list_tools :: "gw_world \<Rightarrow> json" where
  "legacy_list_tools w = JObj [(''tools'', JList (list_local_tools (gw_reg w)))]"

section \<open>The request of a tool call\<close>

definition normalize_body :: "json option \<Rightarrow> jdict" where
  "normalize_body b = (case b of Some (JObj d) \<Rightarrow> d | _ \<Rightarrow> [])"

definition string_items :: "json \<Rightarrow> string list" where
  "string_items j = (case j of JList xs \<Rightarrow> concat (map (\<lambda>x. case x of JStr s \<Rightarrow> [s] | _ \<Rightarrow> []) xs) | _ \<Rightarrow> [])"

text \<open>The second key is only taken out when the first gives nothing.\<close>

definition take_paths :: "jdict \<Rightarrow> string list \<times> jdict" where
  "take_paths b =
     (let p = jget b ''__output_port_paths__''; b1 = dict_pop ''__output_port_paths__'' b
      in if truthy p then (string_items p, b1)
         else (string_items (jget b1 ''output_port_paths''), dict_pop ''output_port_paths'' b1))"

record legacy_call =
  lc_paths :: "string list"
  lc_username :: json
  lc_project :: json
  lc_category :: json
  lc_arguments :: json

definition query_or :: "string option \<Rightarrow> string \<Rightarrow> jdict \<Rightarrow> json" where
  "query_or q k args = (if str_truthy q then JStr (the q) else jget args k)"

definition parse_call :: "jdict \<Rightarrow> string option \<Rightarrow> string option \<Rightarrow> legacy_call" where
  "parse_call body username project =
     (case take_paths body of (paths, args) \<Rightarrow>
      let a1 = dict_pop ''username'' args; a2 = dict_pop ''project'' a1; a3 = dict_pop ''category'' a2;
          arguments = dict_get_or a3 ''arguments'' (JObj a3);
          cat = jget a2 ''category'';
          cat' = (case arguments of JObj d \<Rightarrow> if truthy cat then cat else opt_json (infer_category_from_arguments d) | _ \<Rightarrow> cat)
      in \<lparr>lc_paths = paths, lc_username = query_or username ''username'' args, lc_project = query_or project ''project'' a1,
          lc_category = cat', lc_arguments = arguments\<rparr>)"

definition typed_legacy :: "legacy_call \<Rightarrow> (jdict \<times> owner) option" where
  "typed_legacy c =
     (case (lc_arguments c, text_param (lc_username c), text_param (lc_project c), text_param (lc_category c)) of
        (JObj args, Some u, Some p, Some g) \<Rightarrow> Some (args, u, p, g)
      | _ \<Rightarrow> None)"

section \<open>The call\<close>

definition invoke_once :: "gw_env \<Rightarrow> string \<Rightarrow> jdict \<Rightarrow> legacy_call \<Rightarrow> json lg" where
  "invoke_once env name body c =
     (case typed_legacy c of
        Some (args, ow) \<Rightarrow> lg_run (call_in_thread env name args ow)
      | None \<Rightarrow> pm_lift (ge_untyped env body))"

definition attach_output_files :: "tool_env \<Rightarrow> legacy_call \<Rightarrow> json \<Rightarrow> json" where
  "attach_output_files te c result =
     (let inferred = (case lc_arguments c of JObj d \<Rightarrow> infer_output_port_paths te d | _ \<Rightarrow> []);
          paths = (if lc_paths c = [] then inferred else lc_paths c);
          fs = read_output_files te paths;
          fs' = (if fs = [] \<and> inferred \<noteq> [] \<and> inferred \<noteq> paths then read_output_files te inferred else fs)
      in case result of
           JObj d \<Rightarrow> if paths = [] \<or> fs' = [] then result else JObj (dict_set ''output_files'' (JList fs') d)
         | _ \<Rightarrow> result)"

definition invoke_attach :: "gw_env \<Rightarrow> string \<Rightarrow> jdict \<Rightarrow> legacy_call \<Rightarrow> http_reply lg" where
  "invoke_attach env name body c =
     pm_bind (invoke_once env name body c) (\<lambda>r w. (Inr (200, attach_output_files (seen_tools env w) c r), w))"

definition tool_error_reply :: "exc \<Rightarrow> http_reply" where
  "tool_error_reply e = (200, tool_error (''Tool error: '' @ exc_msg e) [])"

definition timeout_reply :: "string \<Rightarrow> http_reply" where
  "timeout_reply name = (504, tool_error (''Tool '' @ [CHR 0x27] @ name @ [CHR 0x27] @ '' timed out after 120 s'') [])"

definition count_of :: "json \<Rightarrow> string \<Rightarrow> int" where
  "count_of r k = (case obj_get r k of Some (JInt n) \<Rightarrow> n | _ \<Rightarrow> 0)"

text \<open>An unknown tool is fetched from Supabase; when that gave nothing the plugins are loaded again.  The second
attempt is inside the handler of the first error, where only \<open>ValueError\<close> is caught.\<close>

definition sync_and_retry :: "gw_env \<Rightarrow> string \<Rightarrow> jdict \<Rightarrow> legacy_call \<Rightarrow> exc \<Rightarrow> http_reply lg" where
  "sync_and_retry env name body c e =
     pm_bind (lg_run (on_sync (sync_tool_from_supabase (ge_sync env) (lc_username c) (lc_project c) (JStr name) (lc_category c)))) (\<lambda>sb.
       pm_then
         (if count_of sb ''files_synced'' = 0 \<and> count_of sb ''tools_loaded'' = 0
          then pm_bind (lg_run (on_sync (sync_reload (ge_sync env)))) (\<lambda>_. pm_return ()) else pm_return ())
         (pm_catch (invoke_attach env name body c)
           (\<lambda>x. if isinstance x [ValueErr] then pm_return (tool_error_reply e) else pm_raise x)))"

definition recoverable :: "legacy_call \<Rightarrow> exc \<Rightarrow> bool" where
  "recoverable c e \<longleftrightarrow> str_contains ''Unknown tool'' (exc_msg e) \<and> truthy (lc_username c) \<and> truthy (lc_project c)"

definition legacy_call_tool :: "gw_env \<Rightarrow> string \<Rightarrow> json option \<Rightarrow> string option \<Rightarrow> string option \<Rightarrow> http_reply lg" where
  "legacy_call_tool env name body0 username project =
     (let body = normalize_body body0; c = parse_call body username project in
      pm_catch (invoke_attach env name body c)
        (\<lambda>e. if isinstance e [ValueErr] then
               (if recoverable c e then sync_and_retry env name body c e else pm_return (tool_error_reply e))
             else if is_timeout_exc e then pm_return (timeout_reply name)
             else if is_exception e then pm_return (tool_error_reply e)
             else pm_raise e))"

section \<open>Reloading and synchronising\<close>

definition legacy_reload_tools :: "gw_env \<Rightarrow> json lg" where
  "legacy_reload_tools env =
     pm_bind (lg_run (on_sync (sync_reload (ge_sync env)))) (\<lambda>c.
       pm_return (JObj [(''success'', JBool True), (''counts'', counts_json c)]))"

definition legacy_sync_s3 :: "gw_env \<Rightarrow> string option \<Rightarrow> string option \<Rightarrow> json lg" where
  "legacy_sync_s3 env username project =
     lg_run (on_sync (sync_all (ge_sync env) (opt_json username) (opt_json project) (JBool False)))"

definition succeeded :: "json \<Rightarrow> bool" where
  "succeeded r \<longleftrightarrow> obj_get r ''success'' = Some (JBool True)"

definition legacy_sync_tool ::
  "gw_env \<Rightarrow> string \<Rightarrow> string \<Rightarrow> string \<Rightarrow> string option \<Rightarrow> string option \<Rightarrow> json lg" where
  "legacy_sync_tool env username project tool_name category user_id =
     pm_bind (lg_run (on_sync (sync_tool_from_supabase (ge_sync env) (JStr username) (JStr project) (JStr tool_name) (opt_json category)))) (\<lambda>sb.
       pm_bind (lg_run (on_sync (sync_tool (ge_sync env) (JStr username) (JStr project) (JStr tool_name) (opt_json category) (opt_json user_id)))) (\<lambda>s3.
         let synced = count_of sb ''files_synced'' + count_of s3 ''files_synced'';
             tools = max (count_of sb ''tools_loaded'') (count_of s3 ''tools_loaded'')
         in pm_return (JObj [(''success'', JBool (synced \<noteq> 0 \<or> succeeded sb \<or> succeeded s3)), (''files_synced'', JInt synced),
              (''tools_loaded'', JInt tools), (''supabase'', sb), (''s3'', s3)])))"

end
