(* ===== verification/Gateway_Safety.thy ===== *)
theory Gateway_Safety
  imports Ws_Gateway Cloud_Mirror
begin

text \<open>
  What the gateway guarantees: every request is answered, a socket is registered exactly while it is served, and
  whose name a tool call runs under.
\<close>

section \<open>What a handler leaves alone\<close>

text \<open>The messages sent and the registrations of sockets.\<close>

definition wire :: "gw_world \<Rightarrow> (nat \<times> json) list \<times> streams" where
  "wire w = (gw_sent w, ap_streams (gw_app w))"

lemma keeps_wire_app: "keeps ap_streams m \<Longrightarrow> keeps wire (on_app m)"
  unfolding keeps_def wire_def on_app_def by (simp add: case_prod_beta)

lemma keeps_wire_sync [keeps_intros]: "keeps wire (on_sync m)"
  unfolding keeps_def wire_def on_sync_def set_reg_def by (simp add: case_prod_beta)

lemma keeps_streams_exec: "keeps ap_streams (on_exec m)"
  unfolding keeps_def on_exec_def by (simp add: case_prod_beta)

lemma keeps_wire_call [keeps_intros]: "keeps wire (call_in_thread env name args ow)"
proof -
  have "wire (leave_files env n w) = wire w" for n w by (simp add: leave_files_def wire_def Let_def)
  then show ?thesis
    unfolding call_in_thread_def keeps_def by (simp add: case_prod_beta keeps_at [OF keeps_wire_app [OF keeps_streams_exec]])
qed

lemma keeps_wire_embed [keeps_intros]: "keeps wire (embed_outputs env ps args r)"
  unfolding keeps_def embed_outputs_def by (simp split: json.split sum.split list.split)

lemma keeps_wire_tools_call [keeps_intros]: "keeps wire (handle_tools_call env auth ps)"
proof -
  have "keeps wire (case e of PyErr x \<Rightarrow> if is_timeout_exc x then pm_return (Inl t) else pm_raise e | RpcErr _ _ \<Rightarrow> pm_raise e)"
    for e and t :: json
    by (cases e) (simp_all add: keeps_pure)
  moreover have "keeps wire (case r of Inl t \<Rightarrow> pm_return t | Inr x \<Rightarrow> embed_outputs env ps args x)" for r args
    by (cases r) (simp_all add: keeps_pure keeps_wire_embed)
  ultimately show ?thesis
    unfolding handle_tools_call_def
    by (auto split: json.split option.split intro!: keeps_intros)
qed

lemma keeps_wire_handlers [keeps_intros]:
  "keeps wire (handle_reload env)" "keeps wire (handle_server_status auth)" "keeps wire (handle_sync_all env ps)"
  "keeps wire (handle_sync_tool env ps)"
proof -
  have "keeps ap_streams (redis_do f)" for f :: "seconds \<Rightarrow> redis \<Rightarrow> 'a \<times> redis"
    by (rule keeps_redis_do) simp_all
  then show "keeps wire (handle_server_status auth)"
    unfolding handle_server_status_def by (intro keeps_intros keeps_wire_app)
qed (unfold handle_reload_def handle_sync_all_def handle_sync_tool_def Let_def, (intro keeps_intros keeps_cases)+)

lemma keeps_wire_dispatch:
  "method \<noteq> JStr ''invocation/stream'' \<Longrightarrow> keeps wire (dispatch env ws auth method ps i polls)"
  unfolding dispatch_def by (auto intro!: keeps_intros)

lemma dispatch_no_stream:
  assumes "method \<noteq> JStr ''invocation/stream''" "dispatch env ws auth method ps i polls w = (Inr r, w')"
  shows "\<exists>x. r = Reply x"
  using assms unfolding dispatch_def
  by (auto split: if_splits elim!: pm_bind_InrE simp: pm_return_def pm_raise_def)

section \<open>Answers\<close>

definition response :: "json \<Rightarrow> json \<Rightarrow> bool" where
  "response i m \<longleftrightarrow> obj_get m ''jsonrpc'' = Some (JStr ''2.0'') \<and> obj_get m ''id'' = Some i
     \<and> (obj_get m ''result'' = None) \<noteq> (obj_get m ''error'' = None)"

definition is_event :: "json \<Rightarrow> bool" where
  "is_event m \<longleftrightarrow> obj_get m ''id'' = None \<and> obj_get m ''method'' = Some (JStr ''invocation/event'')"

lemma response_simps [simp]: "response i (rpc_ok i x)" "response i (rpc_err i c m)" "is_event (event_notification i d)"
  by (simp_all add: response_def rpc_ok_def rpc_err_def is_event_def event_notification_def notification_def)

text \<open>The identifier a frame is answered under, and whether it asks for an event stream.\<close>

definition frame_id :: "string \<Rightarrow> json" where
  "frame_id raw = (case loads raw of Some (JObj req) \<Rightarrow> jget req ''id'' | _ \<Rightarrow> JNull)"

definition asks_stream :: "string \<Rightarrow> bool" where
  "asks_stream raw = (case loads raw of Some (JObj req) \<Rightarrow> jget req ''method'' = JStr ''invocation/stream'' | _ \<Rightarrow> False)"

definition all_sent :: "gw_env \<Rightarrow> bool" where
  "all_sent env \<longleftrightarrow> (\<forall>n. ge_send env n = None)"

lemma send_ok: "all_sent env \<Longrightarrow> send_text env ws m w = (Inr (), w\<lparr>gw_sends := Suc (gw_sends w), gw_sent := gw_sent w @ [(ws, m)]\<rparr>)"
  by (simp add: send_text_def all_sent_def)

lemma forward_sent:
  assumes "all_sent env" "forward env ws i es w = (r, w')"
  shows "\<exists>ns. gw_sent w' = gw_sent w @ map (Pair ws) ns \<and> list_all is_event ns
    \<and> (r = Inr True \<or> (\<exists>x. r = Inl (PyErr x)))"
  using assms(2)
proof (induction es arbitrary: w)
  case (Cons e es)
  show ?case
  proof (cases e)
    case (JObj d)
    with Cons.prems assms(1) have "forward env ws i es (snd (send_text env ws (event_notification i d) w)) = (r, w')"
      by (simp add: send_ok)
    from Cons.IH [OF this] obtain ns where
      "gw_sent w' = gw_sent (snd (send_text env ws (event_notification i d) w)) @ map (Pair ws) ns" "list_all is_event ns"
      "r = Inr True \<or> (\<exists>x. r = Inl (PyErr x))"
      by blast
    with assms(1) show ?thesis by (intro exI [of _ "event_notification i d # ns"]) (simp add: send_ok)
  qed (use Cons.prems in \<open>auto simp: pm_raise_def intro!: exI [of _ "[]"]\<close>)
qed (auto simp: pm_return_def intro!: exI [of _ "[]"])

lemma unsub_sent [simp]: "gw_sent (snd (on_streams f w)) = gw_sent w"
  by (simp add: on_streams_def)

lemma stream_events_sent:
  assumes "all_sent env" "stream_events env ws i polls w = (r, w')"
  shows "\<exists>ns. gw_sent w' = gw_sent w @ map (Pair ws) ns \<and> list_all is_event ns
    \<and> (r = Inr NoReply \<or> r = Inr Streaming \<or> (\<exists>x. r = Inl (PyErr x)))"
proof -
  obtain evs x where s: "sub_loop (ap_now (gw_app w) + 300) polls = (evs, x)" by (cases "sub_loop (ap_now (gw_app w) + 300) polls")
  obtain q w1 where f: "forward env ws i evs w = (q, w1)" by (cases "forward env ws i evs w")
  from forward_sent [OF assms(1) f] obtain ns where
    n: "gw_sent w1 = gw_sent w @ map (Pair ws) ns" "list_all is_event ns" "q = Inr True \<or> (\<exists>x. q = Inl (PyErr x))"
    by blast
  have "w' = w1 \<and> (r = Inr NoReply \<or> r = Inr Streaming \<or> (\<exists>x. r = Inl (PyErr x)))"
    using assms(2) s f n(3) by (cases x) (auto simp: stream_events_def pm_bind_def pm_return_def pm_raise_def)
  with n show ?thesis by blast
qed

lemma stream_sent:
  assumes "all_sent env" "handle_invocation_stream env ws i ps polls w = (r, w')"
  shows "\<exists>resp ns. (gw_sent w' = gw_sent w @ map (Pair ws) (resp # ns) \<and> response i resp \<and> list_all is_event ns
      \<or> gw_sent w' = gw_sent w \<and> (\<exists>x. r = Inl (PyErr x)))
    \<and> (r = Inr NoReply \<or> r = Inr Streaming \<or> (\<exists>x. r = Inl (PyErr x)))"
proof -
  let ?i = "jget ps ''invocation_id''"
  consider (missing) "\<not> truthy ?i" | (odd) "truthy ?i" "\<not> hashable ?i" | (go) "truthy ?i" "hashable ?i" by blast
  then show ?thesis
  proof cases
    case missing
    then show ?thesis using assms
      by (auto simp: handle_invocation_stream_def pm_then_def pm_return_def send_ok intro!: exI [of _ "[]"])
  next
    case odd
    then show ?thesis using assms by (auto simp: handle_invocation_stream_def pm_raise_def)
  next
    case go
    let ?ack = "rpc_ok i (JObj [(''subscribed'', JBool True), (''invocation_id'', ?i)])"
    let ?w = "snd (send_text env ws ?ack (snd (on_streams (sm_subscribe_invocation ws (py_str ?i)) w)))"
    obtain q w1 where s: "stream_events env ws ?i polls ?w = (q, w1)" by (cases "stream_events env ws ?i polls ?w")
    from stream_events_sent [OF assms(1) s] obtain ns where n: "gw_sent w1 = gw_sent w @ [(ws, ?ack)] @ map (Pair ws) ns"
      "list_all is_event ns" "q = Inr NoReply \<or> q = Inr Streaming \<or> (\<exists>x. q = Inl (PyErr x))"
      using assms(1) by (auto simp: send_ok)
    have "r = q" "gw_sent w' = gw_sent w1"
      using go assms s n(3)
      by (auto simp: handle_invocation_stream_def Let_def pm_then_def on_streams_def send_ok split: prod.splits sum.splits reply.splits)
    with n show ?thesis by (intro exI [of _ ?ack] exI [of _ ns]) auto
  qed
qed

definition answered :: "json \<Rightarrow> bool \<Rightarrow> json list \<Rightarrow> bool" where
  "answered i streams ms \<longleftrightarrow>
     (\<exists>resp ns late. ms = resp # ns @ late \<and> response i resp \<and> list_all is_event ns
        \<and> (\<not> streams \<longrightarrow> ns = [] \<and> late = []) \<and> (late \<noteq> [] \<longrightarrow> (\<exists>m. late = [rpc_err i (-32603) m])))"

lemma answered_one: "response i m \<Longrightarrow> answered i s [m]"
  by (auto simp: answered_def)

lemma answered_stream: "response i r \<Longrightarrow> list_all is_event ns \<Longrightarrow> answered i True (r # ns)"
  "response i r \<Longrightarrow> list_all is_event ns \<Longrightarrow> answered i True (r # ns @ [rpc_err i (-32603) m])"
  by (auto simp: answered_def)

definition outcome_ok :: "nat \<Rightarrow> json \<Rightarrow> bool \<Rightarrow> gw_world \<Rightarrow> (rpc_exc + bool) \<times> gw_world \<Rightarrow> bool" where
  "outcome_ok ws i s w res \<longleftrightarrow>
     (case res of
        (Inr go, w') \<Rightarrow> \<exists>ms. gw_sent w' = gw_sent w @ map (Pair ws) ms \<and> answered i s ms
      | (Inl e, w') \<Rightarrow> \<exists>x. e = PyErr x \<and> \<not> is_exception x)"

lemma outcome_send:
  assumes "all_sent env" "response i m" "gw_sent v = gw_sent w"
  shows "outcome_ok ws i s w (pm_then (send_text env ws m) (pm_return True) v)"
  using assms answered_one [OF assms(2)]
  by (auto simp: outcome_ok_def pm_then_def pm_return_def send_ok intro!: exI [of _ "[m]"])

lemma answer_plain:
  assumes "all_sent env" "method \<noteq> JStr ''invocation/stream''"
  shows "outcome_ok ws i False w (answer env ws auth i method ps polls w)"
proof -
  obtain r v where d: "dispatch env ws auth method ps i polls w = (r, v)" by (cases "dispatch env ws auth method ps i polls w")
  have v: "gw_sent v = gw_sent w" using keeps_run [OF keeps_wire_dispatch [OF assms(2)] d] by (simp add: wire_def)
  show ?thesis
  proof (cases r)
    case (Inr x)
    then obtain y where y: "x = Reply y" using dispatch_no_stream [OF assms(2)] d by blast
    have "outcome_ok ws i False w (pm_then (send_text env ws (rpc_ok i y)) (pm_return True) v)"
      by (rule outcome_send [OF assms(1) _ v]) simp
    moreover have "answer env ws auth i method ps polls w = pm_then (send_text env ws (rpc_ok i y)) (pm_return True) v"
      using Inr y d assms(1) by (simp add: answer_def pm_catch_def pm_bind_def pm_then_def pm_return_def send_ok)
    ultimately show ?thesis by simp
  next
    case (Inl e)
    then have a: "answer env ws auth i method ps polls w = (case e of
          RpcErr code msg \<Rightarrow> pm_then (send_text env ws (rpc_err i code msg)) (pm_return True)
        | PyErr x \<Rightarrow> if is_exception x then pm_then (send_text env ws (rpc_err i (-32603) (exc_msg x))) (pm_return True)
            else pm_raise e) v"
      using d by (simp add: answer_def pm_catch_def pm_bind_def)
    show ?thesis
    proof (cases e)
      case (PyErr x)
      then show ?thesis unfolding a
        using outcome_send [OF assms(1) _ v, where m = "rpc_err i (-32603) (exc_msg x)"]
        by (cases "is_exception x") (simp_all add: outcome_ok_def [of _ _ _ _ "(Inl _, _)"] pm_raise_def)
    qed (unfold a, simp add: outcome_send [OF assms(1) _ v])
  qed
qed

lemma answer_stream:
  assumes "all_sent env"
  shows "outcome_ok ws i True w (answer env ws auth i (JStr ''invocation/stream'') ps polls w)"
proof -
  obtain r v where d: "handle_invocation_stream env ws i ps polls w = (r, v)" by (cases "handle_invocation_stream env ws i ps polls w")
  have a: "r = Inr NoReply \<Longrightarrow> answer env ws auth i (JStr ''invocation/stream'') ps polls w = (Inr True, v)"
      "r = Inr Streaming \<Longrightarrow> answer env ws auth i (JStr ''invocation/stream'') ps polls w = (Inr False, v)"
      "\<And>x. r = Inl (PyErr x) \<Longrightarrow> answer env ws auth i (JStr ''invocation/stream'') ps polls w =
        (if is_exception x then pm_then (send_text env ws (rpc_err i (-32603) (exc_msg x))) (pm_return True) v else (Inl (PyErr x), v))"
    using d by (simp_all add: answer_def dispatch_def pm_catch_def pm_bind_def pm_return_def pm_raise_def)
  from stream_sent [OF assms d] obtain resp ns where
    s: "gw_sent v = gw_sent w @ map (Pair ws) (resp # ns) \<and> response i resp \<and> list_all is_event ns
        \<or> gw_sent v = gw_sent w \<and> (\<exists>x. r = Inl (PyErr x))"
    and r: "r = Inr NoReply \<or> r = Inr Streaming \<or> (\<exists>x. r = Inl (PyErr x))"
    by blast
  from r show ?thesis
  proof (elim disjE exE)
    fix x assume x: "r = Inl (PyErr x)"
    show ?thesis
    proof (cases "is_exception x")
      case True
      from s show ?thesis
      proof (elim disjE conjE)
        assume g: "gw_sent v = gw_sent w @ map (Pair ws) (resp # ns)" "response i resp" "list_all is_event ns"
        let ?ms = "resp # ns @ [rpc_err i (-32603) (exc_msg x)]"
        have "answered i True ?ms" using g(2,3) by (rule answered_stream)
        then show ?thesis unfolding a(3) [OF x] using True g(1) assms
          by (auto simp: outcome_ok_def pm_then_def pm_return_def send_ok intro!: exI [of _ ?ms])
      next
        assume "gw_sent v = gw_sent w"
        from outcome_send [OF assms _ this, of i "rpc_err i (-32603) (exc_msg x)"] show ?thesis unfolding a(3) [OF x] using True by simp
      qed
    next
      case False
      then show ?thesis unfolding a(3) [OF x] by (simp add: outcome_ok_def)
    qed
  qed (use s answered_stream(1) in \<open>auto simp: a(1,2) outcome_ok_def intro!: exI [of _ "resp # ns"]\<close>)
qed


definition demo_gw :: gw_env where
  "demo_gw = \<lparr>ge_app = demo_app_env, ge_sync = demo_sync_env, ge_root = ''/srv'', ge_effect = (\<lambda>_ f. f),
     ge_untyped = (\<lambda>_. Inl (Exc TypeErr [])), ge_parse_error = (\<lambda>_. []), ge_send = (\<lambda>_. None)\<rparr>"

definition demo_gw_world :: gw_world where
  "demo_gw_world = \<lparr>gw_app = demo_app, gw_sync = demo_sync, gw_sent = [], gw_sends = 0\<rparr>"

lemma demo_all_sent [simp]: "all_sent demo_gw"
  by (simp add: all_sent_def demo_gw_def)


section \<open>Registration of sockets\<close>

text \<open>The organisations a socket is registered for and the invocations it waits for.\<close>

definition places :: "nat \<Rightarrow> streams \<Rightarrow> string set \<times> string set" where
  "places v s = ({k. v \<in> set (dd_at (connections s) k)}, {i. v \<in> set (dd_at (invocation_waiters s) i)})"

lemma places_ops:
  "v \<noteq> ws \<Longrightarrow> places v (sm_connect ws org s) = places v s"
  "v \<noteq> ws \<Longrightarrow> places v (sm_disconnect ws org s) = places v s"
  "v \<noteq> ws \<Longrightarrow> places v (sm_subscribe_invocation ws i s) = places v s"
  "v \<noteq> ws \<Longrightarrow> places v (sm_unsubscribe_invocation ws i s) = places v s"
  using disconnect_removes [of ws org s]
  by (auto simp: places_def sm_connect_def sm_subscribe_invocation_def sm_unsubscribe_invocation_def dd_at_add dd_at_discard)

lemma places_own:
  "fst (places ws (sm_connect ws org s)) = insert org (fst (places ws s))"
  "fst (places ws (sm_subscribe_invocation ws i s)) = fst (places ws s)"
  "fst (places ws (sm_unsubscribe_invocation ws i s)) = fst (places ws s)"
  "fst (places ws s) = {org} \<Longrightarrow> places ws (sm_disconnect ws org s) = ({}, {})"
  using disconnect_removes [of ws org s]
  by (auto simp: places_def sm_connect_def sm_subscribe_invocation_def sm_unsubscribe_invocation_def dd_at_add)

text \<open>The part of the registrations a served request keeps: the organisations of its socket, and all of any other socket.\<close>

definition seats :: "nat \<Rightarrow> gw_world \<Rightarrow> string set \<times> (nat \<Rightarrow> string set \<times> string set)" where
  "seats ws w = (fst (places ws (ap_streams (gw_app w))), \<lambda>v. if v = ws then ({}, {}) else places v (ap_streams (gw_app w)))"

lemma seats_eq:
  assumes "ap_streams (gw_app w') = ap_streams (gw_app w)"
  shows "seats ws w' = seats ws w"
  unfolding seats_def assms ..

lemma keeps_seats_wire: "keeps wire m \<Longrightarrow> keeps (seats ws) m"
  unfolding keeps_def wire_def by (auto intro!: seats_eq)

lemma keeps_seats_streams [keeps_intros]:
  "keeps (seats ws) (on_streams (sm_subscribe_invocation ws i))" "keeps (seats ws) (on_streams (sm_unsubscribe_invocation ws i))"
  unfolding keeps_def on_streams_def seats_def by (auto simp: places_ops places_own fun_eq_iff)

lemma keeps_seats_send [keeps_intros]: "keeps (seats ws) (send_text env v m)"
  unfolding keeps_def send_text_def Let_def by (auto split: option.split intro!: seats_eq)

lemma keeps_seats_forward [keeps_intros]: "keeps (seats ws) (forward env v i es)"
proof (induction env v i es rule: forward.induct)
  case (2 env v i d es)
  have "seats ws (snd (forward env v i (JObj d # es) w)) = seats ws w" for w
  proof (cases "send_text env v (event_notification i d) w")
    case (Pair r w1)
    have w1: "seats ws w1 = seats ws w" using keeps_run [OF keeps_seats_send Pair] .
    show ?thesis
    proof (cases r)
      case (Inr u)
      then show ?thesis using 2 [OF Pair [symmetric]] Pair w1 by (simp add: keeps_def)
    qed (use Pair w1 in \<open>simp split: rpc_exc.split\<close>)
  qed
  then show ?case by (simp add: keeps_def)
qed (simp_all add: keeps_pure)

lemma keeps_seats_stream [keeps_intros]: "keeps (seats ws) (handle_invocation_stream env ws i ps polls)"
proof -
  have f: "keeps (seats ws) (pm_bind (forward env ws j evs) (\<lambda>sent.
      if \<not> sent then pm_return NoReply
      else (case x of SubFinal \<Rightarrow> pm_return NoReply | SubTimeout \<Rightarrow> pm_return NoReply
            | SubError e \<Rightarrow> pm_raise (PyErr e) | SubOpen \<Rightarrow> pm_return Streaming)))" for j evs x
    by (intro keeps_intros) (simp add: keeps_pure split: sub_end.split)
  have e: "keeps (seats ws) (stream_events env ws j polls)" for j
    using f unfolding keeps_def stream_events_def by (simp add: case_prod_beta)
  have "keeps (seats ws) (\<lambda>w. case stream_events env ws j polls w of
      (Inr Streaming, w') \<Rightarrow> (Inr Streaming, w') | (r, w') \<Rightarrow> (r, snd (on_streams (sm_unsubscribe_invocation ws (py_str j)) w')))" for j
    unfolding keeps_def
    using keeps_at [OF e] keeps_at [OF keeps_seats_streams(2)]
    by (auto simp: case_prod_beta split: sum.split reply.split)
  then show ?thesis unfolding handle_invocation_stream_def Let_def by (intro keeps_intros)
qed

lemma keeps_seats_dispatch [keeps_intros]: "keeps (seats ws) (dispatch env ws auth method ps i polls)"
proof (cases "method = JStr ''invocation/stream''")
  case True
  then show ?thesis by (simp add: dispatch_def keeps_seats_stream)
qed (simp add: keeps_wire_dispatch keeps_seats_wire)

lemma keeps_seats_answer [keeps_intros]: "keeps (seats ws) (answer env ws auth i method ps polls)"
proof -
  have "keeps (seats ws) (case r of Reply x \<Rightarrow> pm_then (send_text env ws (rpc_ok i x)) (pm_return True)
      | NoReply \<Rightarrow> pm_return True | Streaming \<Rightarrow> pm_return False)" for r
    by (cases r) (auto intro: keeps_intros)
  moreover have "keeps (seats ws) (case e of
          RpcErr code msg \<Rightarrow> pm_then (send_text env ws (rpc_err i code msg)) (pm_return True)
        | PyErr x \<Rightarrow> if is_exception x then pm_then (send_text env ws (rpc_err i (-32603) (exc_msg x))) (pm_return True)
            else pm_raise e)" for e
    by (cases e) (auto intro: keeps_intros)
  ultimately show ?thesis unfolding answer_def by (intro keeps_intros)
qed

lemma keeps_seats_loop: "keeps (seats ws) (ws_loop env ws auth xs)"
proof (induction xs)
  case (Cons x xs)
  have "keeps (seats ws) (handle_frame env ws auth raw polls)" for raw polls
    unfolding handle_frame_def by (auto intro!: keeps_intros split: option.split json.split)
  with Cons show ?case by (cases x) (auto intro!: keeps_intros)
qed (simp add: keeps_pure)

text \<open>Serving a socket, whatever it was registered as before, and how the others are left.\<close>

lemma serve_places:
  assumes "ws_serve env ws auth inputs u = (q, u')" and "places ws (ap_streams (gw_app u)) = ({}, {})"
  shows "(if q = Inr Serving then \<exists>org. fst (places ws (ap_streams (gw_app u'))) = {org}
          else places ws (ap_streams (gw_app u')) = ({}, {}))
    \<and> (\<forall>v. v \<noteq> ws \<longrightarrow> places v (ap_streams (gw_app u')) = places v (ap_streams (gw_app u)))"
proof -
  let ?org = "caller_org auth"
  let ?u = "snd (on_streams (sm_connect ws ?org) u)"
  obtain p v where l: "ws_loop env ws auth inputs ?u = (p, v)" by (cases "ws_loop env ws auth inputs ?u")
  have "seats ws v = seats ws ?u" using keeps_run [OF keeps_seats_loop l] .
  then have v: "fst (places ws (ap_streams (gw_app v))) = {?org}"
      "\<And>x. x \<noteq> ws \<Longrightarrow> places x (ap_streams (gw_app v)) = places x (ap_streams (gw_app u))"
    using assms(2) by (auto simp: seats_def on_streams_def places_own places_ops fun_eq_iff split: if_splits)
  have "q = Inr Serving \<and> u' = v \<or> q \<noteq> Inr Serving \<and> u' = snd (on_streams (sm_disconnect ws ?org) v)"
    using assms(1) l by (auto simp: ws_serve_def Let_def split: sum.splits rpc_exc.splits ws_end.splits if_splits)
  then show ?thesis using v by (auto simp: on_streams_def places_own places_ops)
qed

text \<open>C31.  A socket is registered exactly while it is served: whatever the client sends and whatever fails, once the connection
has ended (or was refused) the socket is in no registry of the stream manager, while it is served it is registered for
exactly one organisation, and no other socket's registrations have changed.\<close>

theorem socket_released:
  assumes "websocket_gateway env ws token inputs w = (r, w')" and "places ws (ap_streams (gw_app w)) = ({}, {})"
  shows "(if r = Inr Serving then \<exists>org. fst (places ws (ap_streams (gw_app w'))) = {org}
          else places ws (ap_streams (gw_app w')) = ({}, {}))
    \<and> (\<forall>v. v \<noteq> ws \<longrightarrow> places v (ap_streams (gw_app w')) = places v (ap_streams (gw_app w)))"
proof -
  show ?thesis
  proof (cases "str_truthy token")
    case False
    then show ?thesis using assms by (simp add: websocket_gateway_def serve_places)
  next
    case True
    let ?auth = "pm_catch
        (pm_bind (on_app (on_exec (get_ws_auth_context (re_backend (xe_router (ae_exec (ge_app env)))) (ae_net (ge_app env)) (the token))))
          (\<lambda>a. pm_return (Some a)))
        (\<lambda>e. case e of PyErr x \<Rightarrow> if is_exception x then pm_return None else pm_raise e | RpcErr _ _ \<Rightarrow> pm_raise e)"
    obtain a u where a: "?auth w = (a, u)" by (cases "?auth w")
    have "keeps wire ?auth"
      by (intro keeps_intros keeps_wire_app keeps_streams_exec) (simp add: keeps_pure split: rpc_exc.split)
    from keeps_run [OF this a] have u: "ap_streams (gw_app u) = ap_streams (gw_app w)" by (simp add: wire_def)
    have run: "(case a of Inl e \<Rightarrow> (Inl e, u) | Inr None \<Rightarrow> pm_then (send_text env ws (rpc_err JNull (-32001) ''Invalid token'')) (pm_return Closed) u
        | Inr (Some b) \<Rightarrow> ws_serve env ws (Some b) inputs u) = (r, w')"
      using True assms(1) a by (auto simp: websocket_gateway_def pm_bind_def split: sum.splits option.splits)
    show ?thesis
    proof (cases a)
      case (Inr x)
      show ?thesis
      proof (cases x)
        case None
        have "ap_streams (gw_app w') = ap_streams (gw_app w) \<and> r \<noteq> Inr Serving"
          using run Inr None u by (auto simp: pm_then_def pm_return_def send_text_def Let_def split: option.splits)
        then show ?thesis using assms(2) by simp
      next
        case (Some b)
        then show ?thesis using serve_places [of env ws "Some b" inputs u r w'] run Inr u assms(2) by simp
      qed
    qed (use run u assms(2) in auto)
  qed
qed

theorem socket_released_witness:
  "places 5 (ap_streams (gw_app (snd (websocket_gateway demo_gw 5 None [Quiet, Gone] demo_gw_world)))) = ({}, {})"
proof -
  have "places 5 (ap_streams (gw_app demo_gw_world)) = ({}, {})"
    by (simp add: places_def demo_gw_world_def demo_app_def streams_init_def dd_at_def dict_get_or_def)
  moreover have "fst (websocket_gateway demo_gw 5 None [Quiet, Gone] demo_gw_world) \<noteq> Inr Serving"
    by (auto simp: websocket_gateway_def ws_serve_def pm_then_def pm_raise_def send_ok Let_def split: prod.splits sum.splits)
  ultimately show ?thesis
    using socket_released [OF prod.collapse [symmetric], where ws = 5 and w = demo_gw_world and env = demo_gw and token = None
        and inputs = "[Quiet, Gone]"] by simp
qed

section \<open>In whose name tools run\<close>

definition calls_made :: "gw_world \<Rightarrow> func list" where
  "calls_made w = ts_calls (rw_tools (ap_exec (gw_app w)))"

lemma net_op_tools [simp]: "rw_tools (snd (net_op op res w)) = rw_tools w"
  by (simp add: net_op_def Let_def split: option.split)

lemma run_local_tools:
  assumes "0 < rc_timeout ctx"
  shows "rw_tools (snd (run_local env ctx w)) = snd (call_tool_direct (re_tools env) (rc_tool_name ctx) (rc_arguments ctx)
     (rc_username ctx) (rc_project ctx) (rc_category ctx) (rw_tools w))"
  using assms by (simp add: run_local_def wait_for_def in_thread_def case_prod_beta)

lemma owned_call:
  assumes "dict_get (TOOLS (ts_reg s)) (u @ ''/'' @ p @ ''/'' @ name) = Some i" and "ti_username i = Some u" "ti_project i = Some p"
    and "u \<noteq> []" "p \<noteq> []" and "resolve_editable_path env args = None"
  shows "ts_calls (snd (call_tool_direct env name args (Some u) (Some p) None s)) = ts_calls s @ [ti_func i]"
proof -
  have o: "has_owner (Some u) (Some p)" using assms(4,5) by (simp add: has_owner_def str_truthy_def)
  obtain c cs where u: "u = c # cs" using assms(4) by (cases u) auto
  have "resolve_tool name (Some u) (Some p) None (ts_reg s) = Some (u @ ''/'' @ p @ ''/'' @ name, i)"
    using assms(1) o u by (simp add: resolve_tool_def candidate_keys_def)
  then show ?thesis
    using assms(2,3,6) o
    by (auto simp: call_tool_direct_def run_tool_def load_editable_no_path call_func_def split: prod.splits sum.splits)
qed

lemma calls_embed [simp]: "calls_made (snd (embed_outputs env ps args r w)) = calls_made w"
  by (simp add: embed_outputs_def split: json.split sum.split list.split)

lemma calls_leave [simp]: "calls_made (leave_files env n w) = calls_made w"
  by (simp add: leave_files_def calls_made_def Let_def)

lemma calls_tools_call:
  assumes "typed_call ps = Some (name, ow)" and "truthy (jget ps ''name'')"
    and "(if truthy (jget ps ''arguments'') then jget ps ''arguments'' else JObj []) = JObj args"
  shows "calls_made (snd (handle_tools_call env auth ps w)) = calls_made (snd (call_in_thread env name args (caller_owner auth args ow) w))"
proof -
  obtain r v where c: "call_in_thread env name args (caller_owner auth args ow) w = (r, v)"
    by (cases "call_in_thread env name args (caller_owner auth args ow) w")
  show ?thesis
  proof (cases r)
    case (Inl e)
    with c assms show ?thesis
      by (cases e) (auto simp: handle_tools_call_def pm_bind_def pm_catch_def pm_return_def pm_raise_def)
  next
    case (Inr x)
    with c assms show ?thesis
      by (simp add: handle_tools_call_def pm_bind_def pm_catch_def pm_return_def)
  qed
qed


definition owned_tool :: tool_info where
  "owned_tool = \<lparr>ti_func = 3, ti_name = ''t'', ti_description = [], ti_schema = JObj [], ti_username = Some ''al'',
     ti_project = Some ''p'', ti_category = None\<rparr>"

definition owned_world :: gw_world where
  "owned_world = demo_gw_world\<lparr>gw_app := set_reg (registry_init\<lparr>TOOLS := [(''al/p/t'', owned_tool)]\<rparr>) demo_app\<rparr>"


text \<open>Whatever path a client names as an output port, also one with steps to the parent, is read and returned.\<close>

lemma requested_file_is_returned:
  assumes "env_read te (path_join (te_root te) (normalize_rel_path rel)) = Inr t" and "rel \<noteq> []"
  shows "\<exists>fs. output_files te (JList [JStr rel]) args
     = Inr (JObj [(''path'', JStr (normalize_rel_path rel)), (''content'', JStr t)] # fs)"
proof -
  have "te_node te (path_join (te_root te) (normalize_rel_path rel)) \<noteq> None"
    using assms(1) by (auto simp: env_read_def split: option.splits)
  then show ?thesis
    using assms(1)
    by (auto simp: output_files_def requested_paths_def truthy_def read_output_files_def read_output_file_def Let_def split: sum.split)
qed

text \<open>The monitor's health entries are never among the statuses of an organisation.\<close>

lemma monitor_key_unseen:
  assumes "list_all plain_char org" "CHR '':'' \<notin> set org" "CHR '':'' \<notin> set sid"
  shows "\<not> fnmatch (monitor_key sid) (key_server_status_pattern org)"
proof
  let ?p = "''mcp:'' @ org @ '':server:''"
  assume m: "fnmatch (monitor_key sid) (key_server_status_pattern org)"
  have "list_all plain_char ?p" using assms(1) by (simp add: plain_char_def)
  from glob_parse_plain [OF this, of "''*:health''"]
  have "glob_match (map GLit ?p @ glob_parse ''*:health'') (monitor_key sid)"
    using m by (simp add: fnmatch_def key_server_status_pattern_def)
  then obtain t where "monitor_key sid = ?p @ t" unfolding glob_match_lits by blast
  then have "''health'' @ CHR '':'' # sid = org @ CHR '':'' # ''server'' @ CHR '':'' # t" by (simp add: monitor_key_def)
  then have "split_char (CHR '':'') (''health'' @ CHR '':'' # sid) = split_char (CHR '':'') (org @ CHR '':'' # ''server'' @ CHR '':'' # t)"
    by (rule arg_cong)
  then show False
    using assms(2,3) split_char_append [of "CHR '':''" "''server''" t]
    by (simp only: split_char_append [OF assms(2)] split_char_append [of _ "''health''"]) (simp add: split_char_id split_char_nonempty [symmetric])
qed

end
