(* ===== verification/Legacy_Recovery.thy ===== *)
theory Legacy_Recovery
  imports Legacy_Api Gateway_Safety
begin

text \<open>
  What the legacy endpoints guarantee: a tool that is not loaded yet is fetched from Supabase and then run once.
\<close>

lemma unknown_call:
  assumes "resolve_tool name u p c (ts_reg s) = None" and "resolve_editable_path env args = None"
  shows "call_tool_direct env name args u p c s = (Inl (Exc ValueErr (''Unknown tool: '' @ name)), s)"
  using assms by (simp add: call_tool_direct_def run_fallback_def Let_def)

lemma tools_on_exec [simp]:
  "gw_reg (w\<lparr>gw_app := set_reg g (gw_app w)\<rparr>) = g" "gw_reg (w\<lparr>gw_sync := s, gw_app := set_reg g (gw_app w)\<rparr>) = g"
  "calls_made (w\<lparr>gw_sync := s, gw_app := set_reg g (gw_app w)\<rparr>) = calls_made w"
  by (simp_all add: gw_reg_def set_reg_def calls_made_def)

text \<open>A thread that ends in time, with no other deadline pending.\<close>

lemma in_time_call:
  assumes "call_tool_direct (re_tools env) (rc_tool_name ctx) (rc_arguments ctx) (rc_username ctx) (rc_project ctx)
      (rc_category ctx) (rw_tools x) = (r, ts)"
    and "nw_deadlines x = []" and "0 < rc_timeout ctx" and "re_thread env (net_tick x) \<le> rc_timeout ctx"
    and "\<And>e. r = Inl e \<Longrightarrow> \<not> is_cancelled_exc e"
  shows "fst (run_local env ctx x) = r \<and> rw_tools (snd (run_local env ctx x)) = ts"
  using assms
  by (cases r) (simp_all add: run_local_def wait_for_def in_thread_def net_op_def net_tick_def Let_def case_prod_beta)

lemma unknown_in_thread:
  assumes "resolve_tool name (fst ow) (fst (snd ow)) (snd (snd ow)) (gw_reg w) = None"
    and "resolve_editable_path (seen_tools env w) args = None"
    and "nw_deadlines (ap_exec (gw_app w)) = []"
    and "re_thread (seen_router env w) (net_tick (ap_exec (gw_app w))) \<le> 120"
    and "call_in_thread env name args ow w = (r, w')"
  shows "r = Inl (PyErr (Exc ValueErr (''Unknown tool: '' @ name))) \<and> gw_sync w' = gw_sync w \<and> gw_reg w' = gw_reg w
    \<and> calls_made w' = calls_made w"
proof -
  let ?e = "Exc ValueErr (''Unknown tool: '' @ name)" and ?ctx = "call_ctx name args ow" and ?x = "ap_exec (gw_app w)"
  have n: "\<not> is_cancelled_exc ?e" by (simp add: is_cancelled_iff)
  have "call_tool_direct (re_tools (seen_router env w)) (rc_tool_name ?ctx) (rc_arguments ?ctx) (rc_username ?ctx) (rc_project ?ctx)
      (rc_category ?ctx) (rw_tools ?x) = (Inl ?e, rw_tools ?x)"
    using unknown_call [of name "fst ow" "fst (snd ow)" "snd (snd ow)" "rw_tools ?x" "seen_tools env w" args] assms(1,2)
    by (simp add: call_ctx_def seen_router_def gw_reg_def)
  from in_time_call [OF this assms(3)] assms(4) n
  have "fst (run_local (seen_router env w) ?ctx ?x) = Inl ?e" "rw_tools (snd (run_local (seen_router env w) ?ctx ?x)) = rw_tools ?x"
    by (simp_all add: call_ctx_def)
  then show ?thesis
    using assms(5)
    by (auto simp: call_in_thread_def on_app_def on_exec_def gw_reg_def calls_made_def leave_files_def Let_def case_prod_beta)
qed

lemma known_in_thread:
  assumes "resolve_tool name (fst ow) (fst (snd ow)) (snd (snd ow)) (gw_reg w) = Some (k, i)"
    and "authorised i (fst ow) (fst (snd ow))" and "has_owner (fst ow) (fst (snd ow))"
    and "resolve_editable_path (seen_tools env w) args = None"
  shows "calls_made (snd (call_in_thread env name args ow w)) = calls_made w @ [ti_func i]"
proof -
  have "ts_calls (snd (call_tool_direct te name args (fst ow) (fst (snd ow)) (snd (snd ow)) s)) = ts_calls s @ [ti_func i]"
    if "resolve_tool name (fst ow) (fst (snd ow)) (snd (snd ow)) (ts_reg s) = Some (k, i)" "resolve_editable_path te args = None"
    for te and s :: tool_state
    using assms(2,3) that
    by (auto simp: call_tool_direct_def authorised_def run_tool_def load_editable_no_path call_func_def split: prod.splits sum.splits)
  then show ?thesis
    using assms(1,4)
    by (simp add: call_in_thread_def case_prod_beta on_app_def on_exec_def calls_made_def run_local_tools call_ctx_def gw_reg_def
        seen_router_def leave_files_def Let_def)
qed

lemma calls_lg_run: "calls_made (snd (lg_run m w)) = calls_made (snd (m w))"
  by (simp add: lg_run_def case_prod_beta split: sum.split rpc_exc.split)

lemma calls_attach: "calls_made (snd (invoke_attach env name body c w)) = calls_made (snd (invoke_once env name body c w))"
  by (simp add: invoke_attach_def pm_bind_def case_prod_beta split: sum.split)

lemma calls_catch_pure:
  "(\<And>e v. calls_made (snd (h e v)) = calls_made v) \<Longrightarrow> calls_made (snd (pm_catch m h w)) = calls_made (snd (m w))"
  by (simp add: pm_catch_def case_prod_beta split: sum.split)

text \<open>C33.  A tool that is not loaded is fetched and then run once: when a legacy call names its user and project, the tool is unknown,
and the synchronisation with Supabase brings files after which the tool resolves for that caller, then the
request runs exactly that tool's function, once.\<close>

theorem unknown_tool_fetched_and_run:
  assumes "c = parse_call (normalize_body b) q q'" and "typed_legacy c = Some (args, Some u, Some p, g)" and "u \<noteq> []" "p \<noteq> []"
    and "resolve_tool name (Some u) (Some p) g (gw_reg w) = None" and "resolve_editable_path (seen_tools env w) args = None"
    and "nw_deadlines (ap_exec (gw_app w)) = []" and "re_thread (seen_router env w) (net_tick (ap_exec (gw_app w))) \<le> 120"
    and sync: "sync_tool_from_supabase (ge_sync env) (lc_username c) (lc_project c) (JStr name) (lc_category c)
          ((gw_sync w)\<lparr>sy_reg := gw_reg w\<rparr>) = (Inr sb, s)"
    and "count_of sb ''files_synced'' \<noteq> 0"
    and known: "resolve_tool name (Some u) (Some p) g (sy_reg s) = Some (k, i)" and "authorised i (Some u) (Some p)"
    and edit: "resolve_editable_path (seen_tools env (w\<lparr>gw_sync := s\<rparr>)) args = None"
  shows "calls_made (snd (legacy_call_tool env name b q q' w)) = calls_made w @ [ti_func i]"
proof -
  let ?ow = "(Some u, Some p, g)" and ?body = "normalize_body b"
  obtain e where e: "e = Exc ValueErr (''Unknown tool: '' @ name)" by blast
  obtain r w1 where c1: "call_in_thread env name args ?ow w = (r, w1)" by (cases "call_in_thread env name args ?ow w")
  have 1: "r = Inl (PyErr e)" "gw_sync w1 = gw_sync w" "gw_reg w1 = gw_reg w" "calls_made w1 = calls_made w"
    using unknown_in_thread [OF _ assms(6-8) c1] assms(5) e by auto
  have first: "invoke_attach env name ?body c w = (Inl e, w1)"
    using c1 1(1) assms(2) by (simp add: invoke_attach_def invoke_once_def lg_run_def pm_bind_def)
  have up: "lc_username c = JStr u" "lc_project c = JStr p"
    using assms(2) by (auto simp: typed_legacy_def split: json.splits option.splits elim!: text_param.elims)
  have rec: "recoverable c e" using assms(3,4) up by (simp add: e recoverable_def truthy_def startswith_def)
  let ?w2 = "w1\<lparr>gw_sync := s, gw_app := set_reg (sy_reg s) (gw_app w1)\<rparr>"
  have s2: "lg_run (on_sync (sync_tool_from_supabase (ge_sync env) (lc_username c) (lc_project c) (JStr name) (lc_category c))) w1 = (Inr sb, ?w2)"
    using sync 1(2,3) by (simp add: lg_run_def on_sync_def)
  have "seen_tools env ?w2 = seen_tools env (w\<lparr>gw_sync := s\<rparr>)" by (simp add: seen_tools_def)
  then have e2: "resolve_editable_path (seen_tools env ?w2) args = None" using edit by simp
  have "calls_made (snd (call_in_thread env name args ?ow ?w2)) = calls_made ?w2 @ [ti_func i]"
    by (rule known_in_thread [where k = k]) (use known assms(3,4,12) e2 in \<open>simp_all add: has_owner_def str_truthy_def\<close>)
  then have "calls_made (snd (invoke_attach env name ?body c ?w2)) = calls_made w @ [ti_func i]"
    using assms(2) 1(4) by (simp add: calls_attach invoke_once_def calls_lg_run)
  moreover have "legacy_call_tool env name b q q' w = pm_catch (invoke_attach env name ?body c)
      (\<lambda>x. if isinstance x [ValueErr] then pm_return (tool_error_reply e) else pm_raise x) ?w2"
  proof -
    have "legacy_call_tool env name b q q' w = sync_and_retry env name ?body c e w1"
      using first rec assms(1) by (simp add: legacy_call_tool_def pm_catch_def isinstance_def Let_def) (simp add: e)
    then show ?thesis
      using s2 assms(10) by (simp add: sync_and_retry_def pm_bind_def pm_then_def pm_return_def)
  qed
  ultimately show ?thesis by (simp add: calls_catch_pure pm_return_def pm_raise_def)
qed

section \<open>A tool that Supabase has\<close>

text \<open>The listing of the tool's folder, of its folder \<open>references\<close>, and the file.\<close>

definition fetch_env :: sync_env where
  "fetch_env = demo_sync_env\<lparr>sx_supabase_url := ''https://s'', sx_service_key := ''k'',
     sx_http := (\<lambda>n q. Inr \<lparr>rp_status = 200,
       rp_json = (if n = 0 then Some (JList [JObj [(''name'', JStr ''references'')]])
                  else if n = 1 then Some (JList [JObj [(''name'', JStr ''x.py''), (''id'', JStr ''1'')]]) else None),
       rp_text = ''src''\<rparr>),
     sx_lang := \<lparr>pl_compile = (\<lambda>_. None), pl_exec = (\<lambda>_ _. ([RegTool ''t'' [] (JObj []) None 3], None))\<rparr>\<rparr>"

definition fetch_gw :: gw_env where
  "fetch_gw = demo_gw\<lparr>ge_sync := fetch_env,
     ge_app := demo_app_env\<lparr>ae_exec := demo_exec\<lparr>xe_router := demo_router\<lparr>re_thread := (\<lambda>_. 1)\<rparr>\<rparr>\<rparr>\<rparr>"

definition fetch_world :: gw_world where
  "fetch_world = demo_gw_world\<lparr>gw_app := set_reg registry_init demo_app\<rparr>"

lemma fetch_result:
  "case sync_tool_from_supabase fetch_env (JStr ''al'') (JStr ''p'') (JStr ''t'') (JStr ''c'') demo_sync of
     (Inr sb, s) \<Rightarrow> count_of sb ''files_synced'' = 1
        \<and> (case resolve_tool ''t'' (Some ''al'') (Some ''p'') (Some ''c'') (sy_reg s) of
             Some (k, i) \<Rightarrow> ti_func i = 3 \<and> authorised i (Some ''al'') (Some ''p'') | None \<Rightarrow> False)
   | _ \<Rightarrow> False"
  by code_simp

theorem unknown_tool_fetched_and_run_witness:
  "calls_made (snd (legacy_call_tool fetch_gw ''t'' (Some (JObj [(''category'', JStr ''c''), (''arguments'', JObj [])]))
      (Some ''al'') (Some ''p'') fetch_world)) = calls_made fetch_world @ [3]"
proof -
  let ?c = "\<lparr>lc_paths = [], lc_username = JStr ''al'', lc_project = JStr ''p'', lc_category = JStr ''c'', lc_arguments = JObj []\<rparr>"
  obtain sb s k i where f: "sync_tool_from_supabase fetch_env (JStr ''al'') (JStr ''p'') (JStr ''t'') (JStr ''c'') demo_sync = (Inr sb, s)"
      "count_of sb ''files_synced'' = 1" "resolve_tool ''t'' (Some ''al'') (Some ''p'') (Some ''c'') (sy_reg s) = Some (k, i)"
      "ti_func i = 3" "authorised i (Some ''al'') (Some ''p'')"
    using fetch_result by (auto split: prod.splits sum.splits option.splits)
  have c: "?c = parse_call (normalize_body (Some (JObj [(''category'', JStr ''c''), (''arguments'', JObj [])]))) (Some ''al'') (Some ''p'')"
    by (simp add: parse_call_def normalize_body_def take_paths_def string_items_def query_or_def jget_def dict_get_or_def truthy_def Let_def)
  have t: "typed_legacy ?c = Some ([], Some ''al'', Some ''p'', Some ''c'')" by (simp add: typed_legacy_def)
  have g: "gw_reg fetch_world = registry_init" and y: "(gw_sync fetch_world)\<lparr>sy_reg := registry_init\<rparr> = demo_sync"
    and d: "nw_deadlines (ap_exec (gw_app fetch_world)) = []" and e: "ge_sync fetch_gw = fetch_env"
    by (simp_all add: gw_reg_def fetch_world_def set_reg_def demo_gw_world_def demo_app_def demo_exec_world_def demo_sync_def fetch_gw_def)
  have r: "re_thread (seen_router fetch_gw fetch_world) n \<le> 120" for n
    by (simp add: seen_router_def fetch_gw_def)
  have n: "resolve_editable_path te [] = None" for te by (simp add: resolve_editable_path_def)
  have u: "resolve_tool ''t'' (Some ''al'') (Some ''p'') (Some ''c'') registry_init = None"
    by (simp add: resolve_tool_def candidate_keys_def registry_init_def dict_get_or_def)
  show ?thesis
    using unknown_tool_fetched_and_run [OF c t _ _ _ n d r, where s = s and sb = sb and k = k and i = i and name = "''t''"] f
    by (simp add: g y e u n)
qed

end
