(* ===== verification/Shared_Resources.thy ===== *)
theory Shared_Resources
  imports Redis_Cache App_Config
begin

text \<open>
  The resources of the process that are made on first use and kept: the HTTP client of each event loop,
  \<open>app/core/http_client.py\<close>, the bounded thread pool, \<open>app/core/runtime/threadpool.py\<close>, and the Redis client of
  \<open>Redis_Cache\<close>.  What their getters promise is the locale \<open>shared_resource\<close>; those that can be given back
  again extend it.
\<close>

section \<open>The contract\<close>

locale shared_resource =
  fixes get :: "'s \<Rightarrow> 'r \<times> 's"
    and held :: "'s \<Rightarrow> 'r option"
    and ok :: "'s \<Rightarrow> bool"
  assumes get_held: "held s = Some r \<Longrightarrow> get s = (r, s)"
    and get_holds: "ok s \<Longrightarrow> get s = (r, s') \<Longrightarrow> held s' = Some r \<and> ok s'"
begin

text \<open>From the first use on everyone gets the same resource, and getting it changes nothing.\<close>

lemma get_again: "ok s \<Longrightarrow> get s = (r, s') \<Longrightarrow> get s' = (r, s')"
  using get_holds get_held by blast

primrec get_many :: "nat \<Rightarrow> 's \<Rightarrow> 'r list \<times> 's" where
  "get_many 0 s = ([], s)"
| "get_many (Suc n) s = (case get s of (r, s') \<Rightarrow> case get_many n s' of (rs, s'') \<Rightarrow> (r # rs, s''))"

lemma get_many_same:
  assumes "ok s" "get s = (r, s')"
  shows "get_many (Suc n) s = (replicate (Suc n) r, s')"
proof -
  have "get_many n s' = (replicate n r, s')"
    by (induction n) (simp_all add: get_again [OF assms])
  with assms show ?thesis by simp
qed

end

locale releasable_resource = shared_resource get held ok
  for get :: "'s \<Rightarrow> 'r \<times> 's" and held :: "'s \<Rightarrow> 'r option" and ok :: "'s \<Rightarrow> bool" +
  fixes release :: "'s \<Rightarrow> 's"
  assumes release_drops: "ok s \<Longrightarrow> held (release s) = None \<and> ok (release s)"
begin

lemma released_again: "ok s \<Longrightarrow> get s = (r, s') \<Longrightarrow> held (release (release s')) = None"
  using get_holds release_drops by blast

end

text \<open>The real Redis client is the module's until closed; the stand-in stays for ever.\<close>

definition redis_held :: "redis_module \<Rightarrow> client option" where
  "redis_held m =
     (if use_fallback m then map_option (\<lambda>_. FallbackRedis) (fallback m)
      else if has_pool m then Some RealRedis else None)"

interpretation redis_client: shared_resource get_redis_pool redis_held "\<lambda>_. True"
  by unfold_locales (auto simp: get_redis_pool_def redis_held_def split: if_splits option.splits)

section \<open>The thread pool\<close>

record executor =
  tp_id :: nat
  tp_workers :: int
  tp_prefix :: string

record pool_module =
  tp_executor :: "executor option"
  tp_made :: nat

definition get_threadpool :: "settings \<Rightarrow> pool_module \<Rightarrow> executor \<times> pool_module" where
  "get_threadpool cfg m =
     (case tp_executor m of
        Some x \<Rightarrow> (x, m)
      | None \<Rightarrow>
          (let x = \<lparr>tp_id = tp_made m, tp_workers = cf_threadpool_max_workers cfg, tp_prefix = ''grafux-mcp-io''\<rparr>
           in (x, m\<lparr>tp_executor := Some x, tp_made := Suc (tp_made m)\<rparr>)))"

text \<open>Running jobs are not waited for.\<close>

definition shutdown_threadpool :: "pool_module \<Rightarrow> pool_module" where
  "shutdown_threadpool m = m\<lparr>tp_executor := None\<rparr>"

interpretation thread_pool: releasable_resource "get_threadpool cfg" tp_executor "\<lambda>_. True" shutdown_threadpool
  by unfold_locales (auto simp: get_threadpool_def shutdown_threadpool_def Let_def split: option.splits)

section \<open>HTTP clients\<close>

text \<open>
  An event loop has an identity and the number \<open>id(loop)\<close>, which a later loop may have again.  The module
  state has the dictionary \<open>_clients\<close>, the loops that were closed and the clients that were closed.
\<close>

datatype evloop = EvLoop (lp_identity: nat) (lp_id: nat)

record http_client =
  hc_id :: nat
  hc_timeout :: seconds
  hc_max_connections :: int
  hc_max_keepalive :: int

record http_module =
  hm_clients :: "(nat, evloop \<times> http_client) dict"
  hm_closed_loops :: "evloop list"
  hm_closed :: "nat list"
  hm_made :: nat

definition new_client :: "settings \<Rightarrow> http_module \<Rightarrow> http_client" where
  "new_client cfg m =
     \<lparr>hc_id = hm_made m, hc_timeout = cf_http_default_timeout cfg, hc_max_connections = cf_http_max_connections cfg,
      hc_max_keepalive = cf_http_max_keepalive_connections cfg\<rparr>"

definition is_closed :: "http_module \<Rightarrow> http_client \<Rightarrow> bool" where
  "is_closed m c \<longleftrightarrow> hc_id c \<in> set (hm_closed m)"

definition prune_closed :: "http_module \<Rightarrow> http_module" where
  "prune_closed m = m\<lparr>hm_clients := filter (\<lambda>(k, l, c). l \<notin> set (hm_closed_loops m)) (hm_clients m)\<rparr>"

definition fresh_client :: "settings \<Rightarrow> evloop \<Rightarrow> http_module \<Rightarrow> http_client \<times> http_module" where
  "fresh_client cfg loop m =
     (let m' = prune_closed m; c = new_client cfg m'
      in (c, m'\<lparr>hm_clients := dict_set (lp_id loop) (loop, c) (hm_clients m'), hm_made := Suc (hm_made m')\<rparr>))"

definition get_http_client :: "settings \<Rightarrow> evloop \<Rightarrow> http_module \<Rightarrow> http_client \<times> http_module" where
  "get_http_client cfg loop m =
     (case dict_get (hm_clients m) (lp_id loop) of
        Some (l, c) \<Rightarrow> if l = loop \<and> \<not> is_closed m c then (c, m) else fresh_client cfg loop m
      | None \<Rightarrow> fresh_client cfg loop m)"

text \<open>\<open>fault\<close> is what closing the connections raises, if it does; the client counts as closed in any case.\<close>

definition aclose_http_client :: "exc option \<Rightarrow> evloop \<Rightarrow> (http_module, exc, unit) pm" where
  "aclose_http_client fault loop m =
     (let m' = m\<lparr>hm_clients := dict_pop (lp_id loop) (hm_clients m)\<rparr>
      in case dict_get (hm_clients m) (lp_id loop) of
           None \<Rightarrow> (Inr (), m')
         | Some (l, c) \<Rightarrow>
             if is_closed m c then (Inr (), m')
             else (case fault of None \<Rightarrow> Inr () | Some e \<Rightarrow> Inl e, m'\<lparr>hm_closed := hc_id c # hm_closed m'\<rparr>))"

text \<open>The client a loop uses, if it has an open one.\<close>

definition client_of :: "evloop \<Rightarrow> http_module \<Rightarrow> http_client option" where
  "client_of loop m =
     (case dict_get (hm_clients m) (lp_id loop) of
        Some (l, c) \<Rightarrow> if l = loop \<and> \<not> is_closed m c then Some c else None
      | None \<Rightarrow> None)"

text \<open>
  In a well-formed module the key of an entry is the number of its loop, and the clients were made one after
  the other, so a new one is not among the closed ones.
\<close>

definition http_wf :: "http_module \<Rightarrow> bool" where
  "http_wf m \<longleftrightarrow> dict_wf (hm_clients m) \<and> (\<forall>(k, l, c) \<in> set (hm_clients m). k = lp_id l \<and> hc_id c < hm_made m)
     \<and> distinct (map (\<lambda>(k, l, c). hc_id c) (hm_clients m)) \<and> (\<forall>n \<in> set (hm_closed m). n < hm_made m)"

definition http_init :: http_module where
  "http_init = \<lparr>hm_clients = [], hm_closed_loops = [], hm_closed = [], hm_made = 0\<rparr>"

lemma http_wf_init: "http_wf http_init"
  by (simp add: http_wf_def http_init_def)

lemma prune_closed_parts [simp]:
  "hm_closed (prune_closed m) = hm_closed m" "hm_made (prune_closed m) = hm_made m"
  "hm_closed_loops (prune_closed m) = hm_closed_loops m"
  by (simp_all add: prune_closed_def)

lemma distinct_filter_map: "distinct (map f xs) \<Longrightarrow> distinct (map f (filter P xs))"
  by (induction xs) auto

lemma prune_wf: "http_wf m \<Longrightarrow> http_wf (prune_closed m)"
  by (auto simp: http_wf_def prune_closed_def dict_wf_def intro!: distinct_filter_map)

lemma set_dict_set_subset: "set (dict_set k v d) \<subseteq> insert (k, v) (set d)"
  by (induction d) auto

lemma distinct_update_ids:
  assumes "distinct (map f d)" "\<And>e. e \<in> set d \<Longrightarrow> f e \<noteq> f (k, v)"
  shows "distinct (map f (dict_set k v d))"
  using assms
proof (induction d)
  case (Cons e d)
  obtain i x where e: "e = (i, x)" by (cases e)
  have kv: "f (k, v) \<notin> f ` set d" using Cons.prems(2) by fastforce
  show ?case
  proof (cases "i = k")
    case True
    with Cons.prems kv e show ?thesis by simp
  next
    case False
    have "f e \<noteq> f (k, v)" using Cons.prems(2) [of e] by simp
    moreover have "f e \<notin> f ` set d" using Cons.prems(1) by simp
    ultimately have "f e \<notin> f ` set (dict_set k v d)" using set_dict_set_subset [of k v d] by auto
    moreover have "distinct (map f (dict_set k v d))" using Cons.prems by (intro Cons.IH) auto
    ultimately show ?thesis using False e by simp
  qed
qed simp

lemma dict_get_filter:
  "dict_wf d \<Longrightarrow> dict_get (filter P d) k =
     (case dict_get d k of Some v \<Rightarrow> if P (k, v) then Some v else None | None \<Rightarrow> None)"
proof (induction d)
  case (Cons e d)
  have "dict_get d (fst e) = None" using Cons.prems by (auto simp: dict_wf_def map_of_eq_None_iff)
  with Cons show ?case by (cases e) (auto simp: dict_wf_def split: option.splits)
qed simp

lemma fresh_client_wf:
  assumes "http_wf m" and "fresh_client cfg loop m = (c, m')"
  shows "http_wf m'" and "client_of loop m' = Some c"
    and "other \<noteq> loop \<Longrightarrow> client_of other m' = (if lp_id other = lp_id loop \<or> other \<in> set (hm_closed_loops m) then None else client_of other m)"
proof -
  let ?p = "prune_closed m"
  have wf: "http_wf ?p" by (rule prune_wf [OF assms(1)])
  have m': "m' = ?p\<lparr>hm_clients := dict_set (lp_id loop) (loop, c) (hm_clients ?p), hm_made := Suc (hm_made m)\<rparr>"
    and c: "hc_id c = hm_made m"
    using assms(2) by (auto simp: fresh_client_def Let_def new_client_def)
  have "distinct (map (\<lambda>(k, l, c). hc_id c) (hm_clients m'))"
    unfolding m' using wf by (auto simp: http_wf_def c intro!: distinct_update_ids)
  moreover have "\<forall>(k, l, c) \<in> set (hm_clients m'). k = lp_id l \<and> hc_id c < hm_made m'"
    using wf set_dict_set_subset [of "lp_id loop" "(loop, c)" "hm_clients ?p"] unfolding m' http_wf_def by (fastforce simp: c)
  ultimately show "http_wf m'"
    using wf unfolding m' by (auto simp: http_wf_def less_Suc_eq)
  have "hm_made m \<notin> set (hm_closed m)" using assms(1) by (auto simp: http_wf_def)
  then show "client_of loop m' = Some c" by (simp add: client_of_def m' is_closed_def c)
  have gp: "dict_get (hm_clients ?p) k = (case dict_get (hm_clients m) k of Some (l, x) \<Rightarrow>
      if l \<in> set (hm_closed_loops m) then None else Some (l, x) | None \<Rightarrow> None)" for k
    using assms(1) unfolding http_wf_def prune_closed_def by (auto simp: dict_get_filter split: option.split)
  show "other \<noteq> loop \<Longrightarrow> client_of other m' = (if lp_id other = lp_id loop \<or> other \<in> set (hm_closed_loops m) then None else client_of other m)"
    by (auto simp: client_of_def m' gp is_closed_def split: option.split)
qed

lemma aclose_wf: "http_wf m \<Longrightarrow> http_wf (snd (aclose_http_client fault loop m))"
proof -
  assume wf: "http_wf m"
  let ?d = "dict_pop (lp_id loop) (hm_clients m)"
  have d: "?d = filter (\<lambda>e. fst e \<noteq> lp_id loop) (hm_clients m)"
    by (auto simp: AList.delete_eq intro!: filter_cong)
  have "\<forall>n. dict_get (hm_clients m) (lp_id loop) = Some n \<longrightarrow> hc_id (snd n) < hm_made m"
    using wf unfolding http_wf_def by (auto dest!: map_of_SomeD)
  with wf show ?thesis
    unfolding aclose_http_client_def Let_def
    by (auto simp: http_wf_def d dict_wf_def intro!: distinct_filter_map split: option.split)
qed

lemma aclose_drops: "client_of loop (snd (aclose_http_client fault loop m)) = None"
  by (auto simp: aclose_http_client_def client_of_def Let_def split: option.split)

lemma get_http_client_held:
  "client_of loop m = Some c \<Longrightarrow> get_http_client cfg loop m = (c, m)"
  "client_of loop m = None \<Longrightarrow> get_http_client cfg loop m = fresh_client cfg loop m"
  by (auto simp: client_of_def get_http_client_def split: option.splits if_splits)

interpretation http_client: releasable_resource "get_http_client cfg loop" "client_of loop" http_wf
    "\<lambda>m. snd (aclose_http_client fault loop m)"
proof
  fix m r m'
  show "client_of loop m = Some r \<Longrightarrow> get_http_client cfg loop m = (r, m)" by (rule get_http_client_held)
  show "http_wf m \<Longrightarrow> get_http_client cfg loop m = (r, m') \<Longrightarrow> client_of loop m' = Some r \<and> http_wf m'"
    by (cases "client_of loop m") (auto simp: get_http_client_held fresh_client_wf)
  show "http_wf m \<Longrightarrow> client_of loop (snd (aclose_http_client fault loop m)) = None
      \<and> http_wf (snd (aclose_http_client fault loop m))"
    by (simp add: aclose_drops aclose_wf)
qed

end
