(* ===== verification/App_Lifespan.thy ===== *)
theory App_Lifespan
  imports Ws_Gateway Shared_Resources
begin

text \<open>
  The process from start to end: the lifespan of \<open>app/main.py\<close> with its periodic synchronisation, the worker of
  \<open>app/worker.py\<close>, and the CORS headers of unhandled errors.  The world adds to the one of the gateway the module
  states that only start-up and shutdown touch.  Log lines are left out.  A job in the thread pool that is given up
  after its time-out goes on; its effects are those of the whole job.
\<close>

section \<open>Environment and state\<close>

record life_env =
  le_gw :: gw_env
  le_cfg :: settings
  le_redis_probe :: "exc option"
  le_sync_time :: "nat \<Rightarrow> seconds"
  le_loop :: evloop
  le_http_fault :: "exc option"

record life_world =
  lf_gw :: gw_world
  lf_redis :: redis_module
  lf_pool :: pool_module
  lf_http :: http_module
  lf_monitor :: monitor
  lf_sync_task :: bool

type_synonym 'a life = "(life_world, exc, 'a) pm"

abbreviation lf_app :: "life_world \<Rightarrow> app_world" where
  "lf_app w \<equiv> gw_app (lf_gw w)"

abbreviation le_net :: "life_env \<Rightarrow> net_env" where
  "le_net env \<equiv> ae_net (ge_app (le_gw env))"

definition on_life_app :: "(app_world, exc, 'a) pm \<Rightarrow> 'a life" where
  "on_life_app m w =
     (case m (lf_app w) of (r, a) \<Rightarrow> (r, w\<lparr>lf_gw := (lf_gw w)\<lparr>gw_app := a\<rparr>\<rparr>))"

text \<open>\<open>try: .. except Exception\<close> around something whose failure is only logged.\<close>

definition log_failure :: "('s, exc, unit) pm \<Rightarrow> ('s, exc, unit) pm" where
  "log_failure m = pm_catch m (\<lambda>e. if is_exception e then pm_return () else pm_raise e)"

section \<open>Start-up\<close>

definition start_redis :: "life_env \<Rightarrow> unit life" where
  "start_redis env w =
     (case init_redis (cf_redis_url (le_cfg env)) (le_redis_probe env) (lf_redis w) of
        (Inl e, m) \<Rightarrow> (Inl e, w\<lparr>lf_redis := m\<rparr>)
      | (Inr _, m) \<Rightarrow> (Inr (), w\<lparr>lf_redis := m\<rparr>))"

text \<open>The plugins are loaded by a thread of its own; what it raises stays there.\<close>

definition start_plugins :: "life_env \<Rightarrow> unit life" where
  "start_plugins env w =
     (case start_plugin_loader (sx_lang (ge_sync (le_gw env)))
             (disk_of (ge_sync (le_gw env)) (sy_fs (gw_sync (lf_gw w)))) (gw_reg (lf_gw w)) of
        (_, g) \<Rightarrow> (Inr (), w\<lparr>lf_gw := (lf_gw w)\<lparr>gw_app := set_reg g (lf_app w)\<rparr>\<rparr>))"

text \<open>\<open>run_in_threadpool(s3_syncer.sync_all)\<close>.\<close>

definition life_sync :: "life_env \<Rightarrow> gw_world \<Rightarrow> (exc + json) \<times> gw_world" where
  "life_sync env g =
     (case sync_all (ge_sync (le_gw env)) JNull JNull (JBool False) ((gw_sync g)\<lparr>sy_reg := gw_reg g\<rparr>) of
        (r, s) \<Rightarrow> (r, g\<lparr>gw_sync := s, gw_app := set_reg (sy_reg s) (gw_app g)\<rparr>))"

definition pooled :: "life_env \<Rightarrow> life_world \<Rightarrow> life_world" where
  "pooled env w = w\<lparr>lf_pool := snd (get_threadpool (le_cfg env) (lf_pool w))\<rparr>"

definition thread_result :: "life_env \<Rightarrow> exc + json \<Rightarrow> (exec_world, exc, json) pm" where
  "thread_result env r x = net_op (NThread ''sync_all'') (le_sync_time env (net_tick x), r) x"

definition sync_in_thread :: "life_env \<Rightarrow> seconds option \<Rightarrow> json life" where
  "sync_in_thread env limit w =
     (let w' = pooled env w in
      case life_sync env (lf_gw w') of
        (r, g) \<Rightarrow>
          on_life_app (on_exec (case limit of None \<Rightarrow> thread_result env r | Some t \<Rightarrow> wait_for t (thread_result env r)))
            (w'\<lparr>lf_gw := g\<rparr>))"

definition start_sync :: "life_env \<Rightarrow> unit life" where
  "start_sync env =
     (if str_truthy (cf_aws_access_key_id (le_cfg env)) then
        pm_then (log_failure (pm_then (sync_in_thread env (Some 120)) (pm_return ())))
          (pm_modify (\<lambda>w. if 0 < cf_s3_sync_interval (le_cfg env) then w\<lparr>lf_sync_task := True\<rparr> else w))
      else pm_return ())"

definition start_monitor :: "unit life" where
  "start_monitor = pm_modify (\<lambda>w. w\<lparr>lf_monitor := monitor_start (lf_monitor w)\<rparr>)"

definition startup :: "life_env \<Rightarrow> unit life" where
  "startup env =
     pm_then (start_redis env) (pm_then (start_plugins env) (pm_then (start_sync env) start_monitor))"

section \<open>Shutdown\<close>

definition forget_session :: "wrapper \<Rightarrow> wrapper" where
  "forget_session m = m\<lparr>mw_session := None\<rparr>"

text \<open>One live connection: its disconnect is bounded, and its session is forgotten however it ends.\<close>

definition bounded_disconnect :: "net_env \<Rightarrow> string \<times> wrapper \<Rightarrow> (app_world, exc, unit) pm" where
  "bounded_disconnect env sc =
     log_failure
       (\<lambda>w. case on_exec (wait_for 5 (\<lambda>x. case mw_disconnect env (snd sc) x of (r, _, x') \<Rightarrow> (r, x'))) w of
              (r, w') \<Rightarrow> (r, w'\<lparr>ap_active := dict_set (fst sc) (forget_session (snd sc)) (ap_active w')\<rparr>))"

fun disconnect_all :: "net_env \<Rightarrow> (string \<times> wrapper) list \<Rightarrow> (app_world, exc, unit) pm" where
  "disconnect_all env [] = pm_return ()"
| "disconnect_all env (sc # scs) = pm_then (bounded_disconnect env sc) (disconnect_all env scs)"

definition close_http :: "life_env \<Rightarrow> unit life" where
  "close_http env w =
     (case aclose_http_client (le_http_fault env) (le_loop env) (lf_http w) of (r, m) \<Rightarrow> (r, w\<lparr>lf_http := m\<rparr>))"

text \<open>The monitor and the periodic synchronisation are cancelled and waited for, then the running invocations.\<close>

definition stop_tasks :: "unit life" where
  "stop_tasks = pm_modify (\<lambda>w. w\<lparr>lf_monitor := monitor_stop (lf_monitor w), lf_sync_task := False,
     lf_gw := (lf_gw w)\<lparr>gw_app := (lf_app w)\<lparr>ap_exec := Execution_Service.shutdown (ap_exec (lf_app w))\<rparr>\<rparr>\<rparr>)"

definition lifespan_shutdown :: "life_env \<Rightarrow> unit life" where
  "lifespan_shutdown env =
     pm_then stop_tasks
       (pm_then (on_life_app (\<lambda>a. disconnect_all (le_net env) (ap_active a) a))
         (pm_then (on_life_app (on_exec (aclose_all (le_net env))))
           (pm_then (close_http env)
             (pm_modify (\<lambda>w. w\<lparr>lf_pool := shutdown_threadpool (lf_pool w), lf_redis := close_redis_pool (lf_redis w)\<rparr>)))))"

text \<open>\<open>lifespan\<close>: what happens between start-up and shutdown is given.\<close>

definition lifespan :: "life_env \<Rightarrow> (life_world \<Rightarrow> life_world) \<Rightarrow> unit life" where
  "lifespan env serving =
     pm_then (startup env) (pm_then (pm_modify serving) (lifespan_shutdown env))"

section \<open>Periodic synchronisation\<close>

text \<open>
  The background task as a state machine.  A state is what the task waits for.  A sleep ends in time or is cancelled,
  a synchronisation has its own outcome.
\<close>

datatype psync = PsDelay | PsWait | PsSync | PsBackoff | PsStopped | PsFailed exc

fun caught :: "exc \<Rightarrow> psync" where
  "caught e = (if is_cancelled_exc e then PsStopped else if is_exception e then PsBackoff else PsFailed e)"

fun ps_next :: "psync \<Rightarrow> exc + unit \<Rightarrow> psync" where
  "ps_next PsDelay (Inr _) = PsWait"
| "ps_next PsDelay (Inl e) = PsFailed e"
| "ps_next PsWait (Inr _) = PsSync"
| "ps_next PsWait (Inl e) = caught e"
| "ps_next PsSync (Inr _) = PsWait"
| "ps_next PsSync (Inl e) = caught e"
| "ps_next PsBackoff (Inr _) = PsWait"
| "ps_next PsBackoff (Inl e) = PsFailed e"
| "ps_next st _ = st"

definition ps_sleep :: "life_env \<Rightarrow> psync \<Rightarrow> seconds" where
  "ps_sleep env st =
     (case st of PsDelay \<Rightarrow> 60 | PsWait \<Rightarrow> of_int (cf_s3_sync_interval (le_cfg env)) | _ \<Rightarrow> 300)"

definition drop_value :: "exc + 'a \<Rightarrow> exc + unit" where
  "drop_value r = (case r of Inl e \<Rightarrow> Inl e | Inr _ \<Rightarrow> Inr ())"

inductive ps_step :: "life_env \<Rightarrow> psync \<times> life_world \<Rightarrow> psync \<times> life_world \<Rightarrow> bool" for env where
  sleeping: "st \<in> {PsDelay, PsWait, PsBackoff} \<Longrightarrow> slept = Inr () \<or> slept = Inl cancelled_exc \<Longrightarrow>
     on_life_app (on_exec (net_op (NSleep (ps_sleep env st)) (ps_sleep env st, slept))) w = (r, w') \<Longrightarrow>
     ps_step env (st, w) (ps_next st r, w')"
| syncing: "sync_in_thread env None w = (r, w') \<Longrightarrow> ps_step env (PsSync, w) (ps_next PsSync (drop_value r), w')"

inductive_cases ps_stepE: "ps_step env (st, w) (st', w')"

text \<open>The worker's loop has its sleep outside the \<open>try\<close>, and goes on after an exception at once.\<close>

fun worker_next :: "psync \<Rightarrow> exc + unit \<Rightarrow> psync" where
  "worker_next PsWait (Inr _) = PsSync"
| "worker_next PsWait (Inl e) = PsFailed e"
| "worker_next PsSync (Inr _) = PsWait"
| "worker_next PsSync (Inl e) = (if is_exception e then PsWait else PsFailed e)"
| "worker_next st _ = st"

section \<open>The worker process\<close>

definition LOG_LEVELS :: "string list" where
  "LOG_LEVELS = [''CRITICAL'', ''FATAL'', ''ERROR'', ''WARN'', ''WARNING'', ''INFO'', ''DEBUG'', ''NOTSET'']"

definition char_upper :: "char \<Rightarrow> char" where
  "char_upper c = (let n = (of_char c :: nat) in if 97 \<le> n \<and> n \<le> 122 then char_of (n - 32) else c)"

text \<open>The level must be an attribute of the logging module that is a level; \<open>BASIC_FORMAT\<close> is one that is not.\<close>

definition check_log_level :: "string \<Rightarrow> exc + unit" where
  "check_log_level l =
     (let u = map char_upper l in
      if u \<in> set LOG_LEVELS then Inr ()
      else if u = ''BASIC_FORMAT'' then Inl (Exc ValueErr ''Unknown level'')
      else Inl (Exc AttributeErr (''module 'logging' has no attribute '' @ u)))"

text \<open>The default executor of the loop runs the worker's synchronisation, not the pool of the service.\<close>

definition worker_sync :: "life_env \<Rightarrow> seconds option \<Rightarrow> json life" where
  "worker_sync env limit w =
     (case life_sync env (lf_gw w) of
        (r, g) \<Rightarrow>
          on_life_app (on_exec (case limit of None \<Rightarrow> thread_result env r | Some t \<Rightarrow> wait_for t (thread_result env r)))
            (w\<lparr>lf_gw := g\<rparr>))"

definition worker_start :: "life_env \<Rightarrow> unit life" where
  "worker_start env =
     pm_then (pm_lift (check_log_level (cf_log_level (le_cfg env))))
       (pm_then (start_redis env)
         (pm_then (start_plugins env)
           (pm_then
             (if str_truthy (cf_aws_access_key_id (le_cfg env))
              then log_failure (pm_then (worker_sync env (Some 120)) (pm_return ())) else pm_return ())
             (pm_then start_monitor
               (pm_modify (\<lambda>w. if 0 < cf_s3_sync_interval (le_cfg env) \<and> str_truthy (cf_aws_access_key_id (le_cfg env))
                               then w\<lparr>lf_sync_task := True\<rparr> else w))))))"

text \<open>
  The worker then waits for ever.  Only a cancellation ends the wait, \<open>asyncio.run\<close> makes one of an interrupt; the
  monitor is stopped and the process ends.
\<close>

definition worker_main :: "life_env \<Rightarrow> unit life" where
  "worker_main env =
     pm_then (worker_start env) (pm_modify (\<lambda>w. w\<lparr>lf_monitor := monitor_stop (lf_monitor w)\<rparr>))"

section \<open>Answers to unhandled errors\<close>

definition cors_headers :: "string list \<Rightarrow> string option \<Rightarrow> (string, string) dict" where
  "cors_headers allowed origin =
     (let star = ''*'' \<in> set allowed;
          allow = (if str_truthy origin \<and> (star \<or> the origin \<in> set allowed) then the origin
                   else if star then ''*''
                   else (case allowed of [] \<Rightarrow> ''*'' | a # _ \<Rightarrow> a))
      in [(''Access-Control-Allow-Origin'', allow),
          (''Access-Control-Allow-Credentials'', if star then ''false'' else ''true''),
          (''Vary'', ''Origin'')])"

definition unhandled_exception :: "settings \<Rightarrow> string option \<Rightarrow> exc \<Rightarrow> int \<times> json \<times> (string, string) dict" where
  "unhandled_exception cfg origin e =
     (500, tool_error (''Server error: '' @ exc_msg e) [], cors_headers (cf_allowed_origins cfg) origin)"

definition root_endpoint :: json where
  "root_endpoint =
     JObj [(''service'', JStr ''Grafux-mcp''), (''version'', JStr ''2.0.0''), (''status'', JStr ''running''),
       (''docs'', JStr ''/docs''),
       (''endpoints'', JObj [(''health'', JStr ''/api/v1/health''), (''tools'', JStr ''/api/v1/tools''),
          (''execute'', JStr ''/api/v1/execute''), (''registry'', JStr ''/api/v1/registry/servers''),
          (''sessions'', JStr ''/api/v1/sessions''), (''websocket'', JStr ''/ws'')])]"

end
