(* ===== verification/Lifespan_Safety.thy ===== *)
theory Lifespan_Safety
  imports App_Lifespan Gateway_Safety
begin

text \<open>
  What start-up, shutdown and the periodic synchronisation guarantee whatever the network, the object store and Redis do:
  a failure outside never keeps the service from starting, shutdown gives everything back, and only a cancellation
  ends the periodic synchronisation.  Exceptions that are no \<open>Exception\<close> pass everywhere.
\<close>

section \<open>Failures that are logged\<close>

text \<open>\<open>raises P m\<close> says that what \<open>m\<close> raises satisfies \<open>P\<close>.\<close>

definition raises :: "('e \<Rightarrow> bool) \<Rightarrow> ('s, 'e, 'a) pm \<Rightarrow> bool" where
  "raises P m \<longleftrightarrow> (\<forall>w e w'. m w = (Inl e, w') \<longrightarrow> P e)"

named_theorems raises_intros \<open>introduction rules for the exceptions of a computation\<close>

lemma raises_run: "raises P m \<Longrightarrow> m w = (Inl e, w') \<Longrightarrow> P e"
  by (auto simp: raises_def)

lemma raises_pure [raises_intros]: "raises P (pm_return x)" "raises P (pm_modify f)"
  by (simp_all add: raises_def pm_return_def pm_modify_def)

lemma raises_then [raises_intros]: "raises P m \<Longrightarrow> raises P k \<Longrightarrow> raises P (pm_then m k)"
  unfolding raises_def pm_then_def by (auto split: prod.splits sum.splits)

lemma raises_log_failure [raises_intros]: "raises (\<lambda>e. \<not> is_exception e) (log_failure m)"
  unfolding raises_def log_failure_def pm_catch_def
  by (auto simp: pm_return_def pm_raise_def split: prod.splits sum.splits if_splits)

lemma raises_if [raises_intros]: "raises P a \<Longrightarrow> raises P b \<Longrightarrow> raises P (if c then a else b)"
  by simp

lemma raises_on_life_app: "raises P m \<Longrightarrow> raises P (on_life_app m)"
  unfolding raises_def on_life_app_def by (auto split: prod.splits)

lemma raises_on_exec: "raises P m \<Longrightarrow> raises P (on_exec m)"
  unfolding raises_def on_exec_def by (auto split: prod.splits)

lemma raises_start_redis [raises_intros]: "raises (\<lambda>e. \<not> is_exception e) (start_redis env)"
  unfolding raises_def start_redis_def init_redis_def
  by (auto split: prod.splits sum.splits option.splits if_splits)

lemma raises_start_plugins [raises_intros]: "raises P (start_plugins env)"
  unfolding raises_def start_plugins_def by (auto split: prod.splits)

lemma raises_start_monitor [raises_intros]: "raises P start_monitor"
  unfolding start_monitor_def by (rule raises_intros)

lemma raises_startup: "raises (\<lambda>e. \<not> is_exception e) (startup env)"
  unfolding startup_def start_sync_def by (intro raises_intros)

section \<open>Start-up\<close>

lemma net_op_length: "length (nw_deadlines (snd (net_op op res w))) = length (nw_deadlines w)"
  by (auto simp: net_op_def Let_def split: option.split)

lemma timely_thread_result: "timely (thread_result env r)"
  unfolding timely_def thread_result_def using timely_net_op by blast

lemma net_only_thread_result: "net_only (thread_result env r)"
  unfolding thread_result_def net_only_def by (auto simp: net_op_def Let_def split: option.split)

lemma wait_for_clean:
  assumes "nw_deadlines w = []" and "\<And>v. length (nw_deadlines (snd (m v))) = length (nw_deadlines v)"
  shows "nw_deadlines (snd (wait_for t m w)) = []"
proof (cases "t \<le> 0")
  case False
  let ?v = "w\<lparr>nw_deadlines := Some (nw_now w + t) # nw_deadlines w\<rparr>"
  have "length (nw_deadlines (snd (m ?v))) = 1" using assms by simp
  then obtain d where "nw_deadlines (snd (m ?v)) = [d]" by (metis One_nat_def length_0_conv length_Suc_conv)
  with False show ?thesis by (auto simp: wait_for_def case_prod_beta)
qed (use assms(1) in \<open>simp add: wait_for_def\<close>)

abbreviation life_now :: "life_world \<Rightarrow> seconds" where
  "life_now w \<equiv> ap_now (lf_app w)"

abbreviation life_deadlines :: "life_world \<Rightarrow> seconds option list" where
  "life_deadlines w \<equiv> nw_deadlines (ap_exec (lf_app w))"

lemma set_reg_parts [simp]:
  "ap_now (set_reg g a) = ap_now a" "nw_deadlines (ap_exec (set_reg g a)) = nw_deadlines (ap_exec a)"
  "nw_log (ap_exec (set_reg g a)) = nw_log (ap_exec a)" "ap_active (set_reg g a) = ap_active a"
  by (simp_all add: set_reg_def)

lemma sync_in_thread_run:
  assumes "life_deadlines w = []" and "sync_in_thread env (Some t) w = (r, w')" and "0 < t"
  shows "life_deadlines w' = [] \<and> life_now w' \<le> life_now w + t \<and> lf_monitor w' = lf_monitor w \<and> lf_redis w' = lf_redis w
    \<and> lf_sync_task w' = lf_sync_task w \<and> tp_executor (lf_pool w') \<noteq> None \<and> ap_active (lf_app w') = ap_active (lf_app w)"
proof -
  obtain q g where g: "life_sync env (lf_gw (pooled env w)) = (q, g)" by force
  have a: "ap_now (gw_app g) = life_now w" "nw_deadlines (ap_exec (gw_app g)) = []" "ap_active (gw_app g) = ap_active (lf_app w)"
    using g assms(1) by (auto simp: life_sync_def pooled_def split: prod.splits)
  let ?x = "ap_exec (gw_app g)"
  let ?m = "wait_for t (thread_result env q) ?x"
  have "nw_deadlines (snd ?m) = []"
    by (rule wait_for_clean) (simp_all add: a thread_result_def net_op_length)
  moreover have "nw_now (snd ?m) \<le> nw_now ?x + t"
    by (rule wait_for_bound [OF timely_thread_result]) (use assms(3) a in auto)
  moreover have "tp_executor (lf_pool (pooled env w)) \<noteq> None"
    using thread_pool.get_holds [where cfg = "le_cfg env" and s = "lf_pool w"] by (cases "get_threadpool (le_cfg env) (lf_pool w)") (simp add: pooled_def)
  moreover have "w' = (pooled env w)\<lparr>lf_gw := g\<lparr>gw_app := (gw_app g)\<lparr>ap_exec := snd ?m\<rparr>\<rparr>\<rparr>"
    using assms(2) g by (auto simp: sync_in_thread_def Let_def on_life_app_def on_exec_def split: prod.splits)
  ultimately show ?thesis using a by (simp add: pooled_def)
qed

lemma start_sync_run:
  assumes "life_deadlines w = []" and "start_sync env w = (Inr (), w')"
  shows "life_deadlines w' = [] \<and> lf_monitor w' = lf_monitor w \<and> lf_redis w' = lf_redis w
    \<and> (if str_truthy (cf_aws_access_key_id (le_cfg env))
       then life_now w' \<le> life_now w + 120 \<and> lf_sync_task w' = (lf_sync_task w \<or> 0 < cf_s3_sync_interval (le_cfg env))
       else w' = w)"
proof (cases "str_truthy (cf_aws_access_key_id (le_cfg env))")
  case True
  obtain r v where s: "sync_in_thread env (Some 120) w = (r, v)" by force
  with True assms(2) have "w' = (if 0 < cf_s3_sync_interval (le_cfg env) then v\<lparr>lf_sync_task := True\<rparr> else v)"
    by (auto simp: start_sync_def log_failure_def pm_defs split: sum.splits if_splits)
  with sync_in_thread_run [OF assms(1) s] True show ?thesis by auto
qed (use assms in \<open>simp add: start_sync_def pm_return_def\<close>)

lemma start_plugins_run:
  "\<exists>g. start_plugins env w = (Inr (), w\<lparr>lf_gw := (lf_gw w)\<lparr>gw_app := set_reg g (lf_app w)\<rparr>\<rparr>) \<and> plugins_loaded g"
  by (auto simp: start_plugins_def start_plugin_loader_def split: prod.split sum.split)

lemma start_redis_run:
  "start_redis env w = (Inr (), w') \<Longrightarrow>
     (\<exists>m. w' = w\<lparr>lf_redis := m\<rparr>) \<and> (le_redis_probe env \<noteq> None \<longrightarrow> use_fallback (lf_redis w'))"
  by (auto simp: start_redis_def init_redis_def get_redis_pool_def close_redis_pool_def
      split: prod.splits sum.splits option.splits if_splits)


section \<open>Shutdown\<close>

lemma mw_disconnect_forgets: "fst (snd (mw_disconnect env m w)) = forget_session m"
  by (auto simp: mw_disconnect_def forget_session_def split: option.split prod.split)

lemma mw_disconnect_raises: "mw_disconnect env m w = (Inl e, m', w') \<Longrightarrow> \<not> is_exception e"
  by (auto simp: mw_disconnect_def split: option.splits prod.splits sum.splits if_splits)

definition closing :: "net_env \<Rightarrow> wrapper \<Rightarrow> ('w net_world_scheme, exc, unit) pm" where
  "closing env m x = (case mw_disconnect env m x of (r, _, x') \<Rightarrow> (r, x'))"

lemma timely_closing: "timely (closing env m)"
  unfolding timely_def closing_def case_prod_beta by (rule allI) (rule timely_disconnect)

lemma net_only_closing: "net_only (closing env m)"
  unfolding net_only_def closing_def by (auto simp: case_prod_beta) (auto simp: mw_disconnect_def case_prod_beta split: option.split)

lemma closing_deadlines: "length (nw_deadlines (snd (closing env m x))) = length (nw_deadlines x)"
  by (auto simp: closing_def mw_disconnect_def case_prod_beta net_op_length split: option.split)

lemma closing_log: "nw_log (snd (closing env m x)) = nw_log x @ (case mw_session m of None \<Rightarrow> [] | Some s \<Rightarrow> [NSessionClose s])"
  by (auto simp: closing_def mw_disconnect_def case_prod_beta split: option.split)

definition closes :: "wrapper \<Rightarrow> netop list" where
  "closes m = (case mw_session m of None \<Rightarrow> [] | Some s \<Rightarrow> [NSessionClose s])"

definition entry_closes :: "entry \<Rightarrow> netop list" where
  "entry_closes e = (if pe_connected e then closes (pe_wrapper e) else [])"

lemma wait_closing:
  assumes "wait_for 5 (closing env m) x = (r, x')"
  shows "r = Inr () \<or> (\<exists>e. r = Inl e \<and> (\<not> is_exception e \<or> is_timeout_exc e))"
    and "nw_log x' = nw_log x @ closes m" and "net_world.more x' = net_world.more x"
    and "nw_deadlines x = [] \<Longrightarrow> nw_deadlines x' = [] \<and> nw_now x' \<le> nw_now x + 5"
proof -
  show "r = Inr () \<or> (\<exists>e. r = Inl e \<and> (\<not> is_exception e \<or> is_timeout_exc e))"
    using assms
    by (auto dest: mw_disconnect_raises simp: wait_for_def closing_def timeout_exc_def is_timeout_iff split: prod.splits sum.splits if_splits)
  show "nw_log x' = nw_log x @ closes m"
    using Integrations.wait_for_log [of 5 "closing env m" x] assms by (simp add: closing_log closes_def)
  show "net_world.more x' = net_world.more x"
    using net_only_wait_for [OF net_only_closing, of 5 env m] assms unfolding net_only_def by (metis snd_conv)
  assume d: "nw_deadlines x = []"
  show "nw_deadlines x' = [] \<and> nw_now x' \<le> nw_now x + 5"
    using wait_for_clean [where m = "closing env m" and w = x and t = 5, OF d closing_deadlines]
      wait_for_bound [OF timely_closing, of 5 x env m] assms d by simp
qed

lemma bounded_disconnect_run:
  assumes "bounded_disconnect env (k, m) a = (r, a')"
  shows "r = Inr () \<or> (\<exists>e. r = Inl e \<and> \<not> is_exception e)"
    and "ap_active a' = dict_set k (forget_session m) (ap_active a)"
    and "nw_log (ap_exec a') = nw_log (ap_exec a) @ closes m"
    and "net_world.more (ap_exec a') = net_world.more (ap_exec a)"
    and "nw_deadlines (ap_exec a) = [] \<Longrightarrow> nw_deadlines (ap_exec a') = [] \<and> ap_now a' \<le> ap_now a + 5"
proof -
  obtain q x where x: "wait_for 5 (closing env m) (ap_exec a) = (q, x)" by force
  have b: "bounded_disconnect env (k, m) a =
      log_failure (\<lambda>w. case on_exec (wait_for 5 (closing env m)) w of
          (r, w') \<Rightarrow> (r, w'\<lparr>ap_active := dict_set k (forget_session m) (ap_active w')\<rparr>)) a"
    unfolding bounded_disconnect_def closing_def [abs_def] by simp
  have a': "a' = a\<lparr>ap_exec := x, ap_active := dict_set k (forget_session m) (ap_active a)\<rparr>"
    and r: "r = (case q of Inl e \<Rightarrow> if is_exception e then Inr () else Inl e | Inr _ \<Rightarrow> Inr ())"
    using assms x unfolding b
    by (auto simp: log_failure_def pm_catch_def on_exec_def pm_return_def pm_raise_def split: sum.splits if_splits)
  show "r = Inr () \<or> (\<exists>e. r = Inl e \<and> \<not> is_exception e)" by (auto simp: r split: sum.split)
  show "ap_active a' = dict_set k (forget_session m) (ap_active a)" by (simp add: a')
  show "nw_log (ap_exec a') = nw_log (ap_exec a) @ closes m" "net_world.more (ap_exec a') = net_world.more (ap_exec a)"
    "nw_deadlines (ap_exec a) = [] \<Longrightarrow> nw_deadlines (ap_exec a') = [] \<and> ap_now a' \<le> ap_now a + 5"
    using wait_closing [OF x] by (simp_all add: a')
qed

lemma disconnect_all_run:
  assumes "disconnect_all env scs a = (Inr u, a')"
  shows "nw_log (ap_exec a') = nw_log (ap_exec a) @ concat (map (closes \<circ> snd) scs)
    \<and> net_world.more (ap_exec a') = net_world.more (ap_exec a)
    \<and> (\<forall>k m. dict_get (ap_active a') k = Some m \<longrightarrow> mw_session m = None \<or> k \<notin> fst ` set scs \<and> dict_get (ap_active a) k = Some m)
    \<and> (nw_deadlines (ap_exec a) = [] \<longrightarrow> nw_deadlines (ap_exec a') = [] \<and> ap_now a' \<le> ap_now a + 5 * of_nat (length scs))"
  using assms
proof (induction scs arbitrary: a)
  case Nil
  then show ?case by (simp add: pm_return_def)
next
  case (Cons sc scs)
  obtain k m where sc: "sc = (k, m)" by (cases sc)
  from Cons.prems obtain v a1 where a1: "bounded_disconnect env (k, m) a = (Inr v, a1)"
    and rest: "disconnect_all env scs a1 = (Inr u, a')"
    unfolding sc disconnect_all.simps by (elim pm_then_InrE)
  note b = bounded_disconnect_run [OF a1] and ih = Cons.IH [OF rest]
  have "\<forall>k' m'. dict_get (ap_active a') k' = Some m' \<longrightarrow>
      mw_session m' = None \<or> k' \<notin> fst ` set (sc # scs) \<and> dict_get (ap_active a) k' = Some m'"
  proof (intro allI impI)
    fix k' m'
    assume "dict_get (ap_active a') k' = Some m'"
    with ih have "mw_session m' = None \<or> k' \<notin> fst ` set scs \<and> dict_get (ap_active a1) k' = Some m'" by simp
    then show "mw_session m' = None \<or> k' \<notin> fst ` set (sc # scs) \<and> dict_get (ap_active a) k' = Some m'"
      by (elim disjE conjE) (simp_all add: b(2) sc forget_session_def split: if_splits, force)
  qed
  moreover have "nw_deadlines (ap_exec a) = [] \<Longrightarrow>
      nw_deadlines (ap_exec a') = [] \<and> ap_now a' \<le> ap_now a + 5 * of_nat (length (sc # scs))"
    using b(5) ih by (auto simp: algebra_simps)
  ultimately show ?case using b(3,4) ih by (simp add: sc)
qed

lemma raises_disconnect_all: "raises (\<lambda>e. \<not> is_exception e) (disconnect_all env scs)"
proof (induction scs)
  case (Cons sc scs)
  have "raises (\<lambda>e. \<not> is_exception e) (bounded_disconnect env sc)"
    unfolding bounded_disconnect_def by (rule raises_intros)
  with Cons show ?case by (auto intro: raises_intros)
qed (auto intro: raises_intros)

lemma pool_more_eq:
  fixes x y :: "'a pool_world_scheme"
  assumes "net_world.more x = net_world.more y"
  shows "pool_world.more x = pool_world.more y" and "pw_entries x = pw_entries y"
  using assms by (cases x; cases y; simp)+

lemma hard_close_run:
  assumes "hard_close env k e w = (r, w')"
  shows "(\<exists>e'. r = Inr e') \<or> (\<exists>x. r = Inl x \<and> \<not> is_exception x)" and "nw_log w' = nw_log w @ entry_closes e"
    and "pool_world.more w' = pool_world.more w"
proof -
  have l: "nw_log (snd (snd (mw_disconnect env (pe_wrapper e) w))) = nw_log w @ closes (pe_wrapper e)"
    using closing_log [of env "pe_wrapper e" w] by (simp add: closing_def case_prod_beta closes_def)
  show "(\<exists>e'. r = Inr e') \<or> (\<exists>x. r = Inl x \<and> \<not> is_exception x)"
    using assms by (auto dest: mw_disconnect_raises simp: hard_close_def Let_def split: if_splits prod.splits sum.splits)
  show "nw_log w' = nw_log w @ entry_closes e"
    using assms l by (auto simp: hard_close_def Let_def set_entry_def entry_closes_def split: if_splits prod.splits sum.splits)
  show "pool_world.more w' = pool_world.more w"
    by (rule keeps_run [OF pool_frame_hard_close assms])
qed

lemma close_each_run:
  "close_each env xs w = (Inr u, w') \<Longrightarrow>
     nw_log w' = nw_log w @ concat (map (entry_closes \<circ> snd) xs) \<and> pool_world.more w' = pool_world.more w"
proof (induction xs arbitrary: w)
  case (Cons x xs)
  obtain k e where x: "x = (k, e)" by (cases x)
  obtain q w1 where h: "hard_close env k e w = (q, w1)" by force
  note c = hard_close_run(2,3) [OF h]
  show ?case
  proof (cases q)
    case (Inr e')
    with Cons.prems h have "close_each env xs w1 = (Inr u, w')" by (simp add: x)
    from Cons.IH [OF this] c show ?thesis by (simp add: x)
  qed (use Cons.prems h in \<open>simp add: x\<close>)
qed simp

lemma raises_aclose_all: "raises (\<lambda>e. \<not> is_exception e) (aclose_all env)"
proof -
  have "close_each env xs w = (Inl e, w') \<Longrightarrow> \<not> is_exception e" for xs :: "(pool_key \<times> entry) list" and e and w w' :: "'a pool_world_scheme"
  proof (induction xs arbitrary: w)
    case (Cons x xs)
    obtain k en where x: "x = (k, en)" by (cases x)
    obtain q w1 where h: "hard_close env k en w = (q, w1)" by force
    from hard_close_run(1) [OF h] Cons h show ?case by (auto simp: x)
  qed simp
  then show ?thesis
    unfolding raises_def aclose_all_def by (auto split: prod.splits sum.splits)
qed

lemma aclose_all_run:
  "aclose_all env w = (Inr u, w') \<Longrightarrow>
     pw_entries w' = [] \<and> nw_log w' = nw_log w @ concat (map (entry_closes \<circ> snd) (pw_entries w))
     \<and> pool_world.more w' = pool_world.more w"
  using close_each_run [of env "pw_entries w" w] by (auto simp: aclose_all_def split: prod.splits sum.splits)

lemma aclose_all_empty: "pw_entries w = [] \<Longrightarrow> nw_now (snd (aclose_all env w)) = nw_now w"
  by (simp add: aclose_all_def)

lemma exec_pool_more:
  fixes x y :: exec_world
  assumes "pool_world.more y = pool_world.more x"
  shows "ew_tasks y = ew_tasks x"
  using assms by (cases x; cases y) simp

lemma raises_shutdown: "raises (\<lambda>e. \<not> is_exception e \<or> le_http_fault env = Some e) (lifespan_shutdown env)"
proof -
  let ?P = "\<lambda>e. \<not> is_exception e \<or> le_http_fault env = Some e"
  have weaken: "raises (\<lambda>e. \<not> is_exception e) m \<Longrightarrow> raises ?P m" for m :: "unit life" by (auto simp: raises_def)
  have "raises (\<lambda>e. \<not> is_exception e) (\<lambda>a. disconnect_all (le_net env) (ap_active a) a)"
    using raises_disconnect_all unfolding raises_def by blast
  then have d: "raises ?P (on_life_app (\<lambda>a. disconnect_all (le_net env) (ap_active a) a))"
    by (intro weaken raises_on_life_app)
  have c: "raises ?P (on_life_app (on_exec (aclose_all (le_net env))))"
    by (intro weaken raises_on_life_app raises_on_exec raises_aclose_all)
  have h: "raises ?P (close_http env)"
    unfolding raises_def close_http_def aclose_http_client_def Let_def
    by (auto split: option.splits if_splits prod.splits)
  show ?thesis
    unfolding lifespan_shutdown_def by (intro raises_then d c h) (auto simp: stop_tasks_def intro: raises_intros)
qed

text \<open>C36.  Shutdown gives everything back, whatever the remote servers do: afterwards the monitor, the periodic
synchronisation and every background invocation are stopped, each live connection and each connected entry of the
pool was asked to close, in this order, no session is held, and the pool, the HTTP client, the thread pool and the
Redis client are gone.  Only an exception of closing the HTTP client or one that is no \<open>Exception\<close> gets out.  With
an empty pool an unreachable server delays it by at most five seconds.\<close>

theorem shutdown_releases:
  shows "case lifespan_shutdown env w of
      (Inl e, _) \<Rightarrow> \<not> is_exception e \<or> le_http_fault env = Some e
    | (Inr _, w') \<Rightarrow>
        \<not> hm_running (lf_monitor w') \<and> \<not> lf_sync_task w' \<and> ew_tasks (ap_exec (lf_app w')) = []
        \<and> (\<forall>k m. dict_get (ap_active (lf_app w')) k = Some m \<longrightarrow> mw_session m = None)
        \<and> pw_entries (ap_exec (lf_app w')) = [] \<and> client_of (le_loop env) (lf_http w') = None
        \<and> tp_executor (lf_pool w') = None \<and> \<not> has_pool (lf_redis w')
        \<and> nw_log (ap_exec (lf_app w')) = nw_log (ap_exec (lf_app w))
            @ concat (map (closes \<circ> snd) (ap_active (lf_app w)))
            @ concat (map (entry_closes \<circ> snd) (pw_entries (ap_exec (lf_app w))))
        \<and> (life_deadlines w = [] \<and> pw_entries (ap_exec (lf_app w)) = [] \<longrightarrow>
             life_now w' \<le> life_now w + 5 * of_nat (length (ap_active (lf_app w))))"
proof (cases "lifespan_shutdown env w")
  case (Pair r w')
  show ?thesis
  proof (cases r)
    case (Inl e)
    with Pair raises_run [OF raises_shutdown] show ?thesis by auto
  next
    case (Inr u)
    let ?last = "\<lambda>w :: life_world. w\<lparr>lf_pool := shutdown_threadpool (lf_pool w), lf_redis := close_redis_pool (lf_redis w)\<rparr>"
    from Pair Inr have "lifespan_shutdown env w = (Inr u, w')" by simp
    then obtain u0 w0 u1 w1 u2 w2 u3 w3 where w0: "stop_tasks w = (Inr u0, w0)"
      and w1: "on_life_app (\<lambda>a. disconnect_all (le_net env) (ap_active a) a) w0 = (Inr u1, w1)"
      and w2: "on_life_app (on_exec (aclose_all (le_net env))) w1 = (Inr u2, w2)"
      and w3: "close_http env w2 = (Inr u3, w3)" and w4: "(pm_modify ?last :: unit life) w3 = (Inr u, w')"
      unfolding lifespan_shutdown_def by (elim pm_then_InrE)
    let ?a0 = "(lf_app w)\<lparr>ap_exec := Execution_Service.shutdown (ap_exec (lf_app w))\<rparr>"
    have s0: "w0 = w\<lparr>lf_monitor := monitor_stop (lf_monitor w), lf_sync_task := False, lf_gw := (lf_gw w)\<lparr>gw_app := ?a0\<rparr>\<rparr>"
      using w0 by (simp add: stop_tasks_def pm_modify_def)
    obtain a1 where a1: "disconnect_all (le_net env) (ap_active (lf_app w)) ?a0 = (Inr u1, a1)"
      "w1 = w0\<lparr>lf_gw := (lf_gw w0)\<lparr>gw_app := a1\<rparr>\<rparr>"
      using w1 by (auto simp: on_life_app_def s0 split: prod.splits)
    obtain x2 where x2: "aclose_all (le_net env) (ap_exec a1) = (Inr u2, x2)"
      "w2 = w1\<lparr>lf_gw := (lf_gw w1)\<lparr>gw_app := a1\<lparr>ap_exec := x2\<rparr>\<rparr>\<rparr>"
      using w2 by (auto simp: on_life_app_def on_exec_def a1(2) split: prod.splits)
    have w': "w' = ?last (w2\<lparr>lf_http := snd (aclose_http_client (le_http_fault env) (le_loop env) (lf_http w2))\<rparr>)"
      using w3 w4 by (auto simp: close_http_def pm_modify_def split: prod.splits)
    have key: "k \<in> fst ` set (ap_active (lf_app w))" if "dict_get (ap_active (lf_app w)) k = Some m" for k m
      using map_of_SomeD [OF that] by force
    note dr = disconnect_all_run [OF a1(1)]
    have forgot: "mw_session m = None" if "dict_get (ap_active a1) k = Some m" for k m
      using dr [THEN conjunct2, THEN conjunct2, THEN conjunct1, rule_format, OF that] key by auto
    have d: "nw_log (ap_exec a1) = nw_log (ap_exec (lf_app w)) @ concat (map (closes \<circ> snd) (ap_active (lf_app w)))"
      "net_world.more (ap_exec a1) = net_world.more (ap_exec ?a0)"
      "life_deadlines w = [] \<Longrightarrow> ap_now a1 \<le> life_now w + 5 * of_nat (length (ap_active (lf_app w)))"
      using dr by (simp_all add: Execution_Service.shutdown_def)
    have p: "pw_entries (ap_exec a1) = pw_entries (ap_exec (lf_app w))" "ew_tasks (ap_exec a1) = []"
      using pool_more_eq(2) [OF d(2)] exec_more [OF d(2)] by (simp_all add: Execution_Service.shutdown_def)
    note c = aclose_all_run [OF x2(1)]
    have t: "ew_tasks x2 = []" using c p(2) exec_pool_more by metis
    have now: "pw_entries (ap_exec (lf_app w)) = [] \<Longrightarrow> nw_now x2 = ap_now a1"
      using aclose_all_empty [of "ap_exec a1" "le_net env"] x2(1) p(1) by simp
    show ?thesis
      using Pair Inr d(3) forgot c t now p(1)
      by (simp add: w' x2(2) a1(2) s0 monitor_stop_def aclose_drops shutdown_threadpool_def close_redis_pool_def d(1))
  qed
qed

text \<open>Closing an entry of the pool has no time-out of its own: a server that does not answer holds up the shutdown.\<close>

lemma pool_close_unbounded:
  assumes "nw_deadlines w = []" "pe_connected e" "mw_session (pe_wrapper e) = Some s"
  shows "nw_now (snd (hard_close env k e w)) = nw_now w + fst (ne_close env (net_tick w) s)"
  using assms by (auto simp: hard_close_def mw_disconnect_def net_op_def set_entry_def Let_def split: sum.split)

section \<open>The periodic synchronisation\<close>

lemma life_sleep:
  assumes "on_life_app (on_exec (net_op op (d, slept))) w = (r, w')"
  shows "r = slept \<or> r = Inl cancelled_exc"
    and "life_deadlines w = [] \<Longrightarrow> r = slept \<and> life_deadlines w' = [] \<and> life_now w' = life_now w + d"
  using assms net_op_cases [of op "(d, slept)" "ap_exec (lf_app w)"]
  by (auto simp: on_life_app_def on_exec_def net_op_def Let_def split: prod.splits option.splits if_splits)

definition orderly :: "psync \<times> life_world \<Rightarrow> bool" where
  "orderly s \<longleftrightarrow> (case fst s of PsFailed e \<Rightarrow> \<not> is_exception e | _ \<Rightarrow> True)"

lemma cancelled_no_exception [simp]: "is_cancelled_exc cancelled_exc" "\<not> is_exception cancelled_exc"
  by (simp_all add: cancelled_exc_def is_cancelled_iff is_exception_iff)

lemma ps_step_orderly: "ps_step env s t \<Longrightarrow> orderly s \<Longrightarrow> orderly t"
proof (induction rule: ps_step.induct)
  case (sleeping st slept w r w')
  from life_sleep(1) [OF sleeping(3)] sleeping(2) have "r = Inr () \<or> r = Inl cancelled_exc" by blast
  with sleeping(1) show ?case by (auto simp: orderly_def)
next
  case (syncing w r w')
  then show ?case by (auto simp: orderly_def drop_value_def split: sum.split)
qed

interpretation periodic: step_invariant "\<lambda>s. fst s = PsDelay" "ps_step env" orderly
  by unfold_locales (simp add: orderly_def, rule ps_step_orderly)

lemma slept_step:
  assumes "st \<in> {PsDelay, PsWait, PsBackoff}" and "life_deadlines w = []"
  shows "\<exists>w'. ps_step env (st, w) (ps_next st (Inr ()), w') \<and> life_deadlines w' = [] \<and> life_now w' = life_now w + ps_sleep env st"
proof -
  obtain r w' where s: "on_life_app (on_exec (net_op (NSleep (ps_sleep env st)) (ps_sleep env st, Inr ()))) w = (r, w')" by force
  from life_sleep(2) [OF s assms(2)] ps_step.sleeping [OF assms(1) _ s] show ?thesis by auto
qed

lemma wait_reaches_sync:
  assumes "st \<in> {PsDelay, PsWait, PsBackoff}" and "life_deadlines w = []"
  shows "\<exists>w'. (ps_step env)\<^sup>+\<^sup>+ (st, w) (PsSync, w')
    \<and> life_now w' = life_now w + (if st = PsWait then 0 else ps_sleep env st) + of_int (cf_s3_sync_interval (le_cfg env))"
proof -
  have wait: "\<exists>w'. ps_step env (PsWait, v) (PsSync, w') \<and> life_now w' = life_now v + of_int (cf_s3_sync_interval (le_cfg env))"
    if "life_deadlines v = []" for v
    using slept_step [of PsWait v env] that by (auto simp: ps_sleep_def)
  show ?thesis
  proof (cases "st = PsWait")
    case True
    with wait [OF assms(2)] show ?thesis by auto
  next
    case False
    with assms(1) slept_step [OF assms, of env] obtain v where
      "ps_step env (st, w) (PsWait, v)" "life_deadlines v = []" "life_now v = life_now w + ps_sleep env st" by auto
    moreover from wait [OF this(2)] obtain w' where
      "ps_step env (PsWait, v) (PsSync, w')" "life_now w' = life_now v + of_int (cf_s3_sync_interval (le_cfg env))" by blast
    ultimately show ?thesis
      using False tranclp.trancl_into_trancl [OF tranclp.r_into_trancl] by (intro exI [of _ w']) simp
  qed
qed

text \<open>C37.  No failure of a synchronisation ends the periodic task: it is only ever ended by a cancellation or by
something that is no \<open>Exception\<close>.  After every synchronisation it waits again, after a failed one for five minutes
more, and undisturbed it comes to the next synchronisation when these waits are over.\<close>

theorem periodic_sync_survives:
  assumes "reachable_by (\<lambda>s. fst s = PsDelay) (ps_step env) (st, w)"
  shows "(\<forall>e. st = PsFailed e \<longrightarrow> \<not> is_exception e)
    \<and> (\<forall>st' w'. st = PsSync \<and> ps_step env (st, w) (st', w') \<longrightarrow>
         (case fst (sync_in_thread env None w) of
            Inr _ \<Rightarrow> st' = PsWait
          | Inl e \<Rightarrow> if is_exception e then st' = PsBackoff else st' = PsStopped \<or> st' = PsFailed e))
    \<and> (life_deadlines w = [] \<and> st \<in> {PsDelay, PsWait, PsBackoff} \<longrightarrow>
         (\<exists>w'. (ps_step env)\<^sup>+\<^sup>+ (st, w) (PsSync, w')
            \<and> life_now w' = life_now w + (case st of PsDelay \<Rightarrow> 60 | PsBackoff \<Rightarrow> 300 | _ \<Rightarrow> 0)
                + of_int (cf_s3_sync_interval (le_cfg env))))"
proof -
  have "orderly (st, w)" by (rule periodic.reachable_inv [OF assms])
  then have "\<forall>e. st = PsFailed e \<longrightarrow> \<not> is_exception e" by (auto simp: orderly_def)
  moreover have "case fst (sync_in_thread env None w) of
            Inr _ \<Rightarrow> st' = PsWait
          | Inl e \<Rightarrow> if is_exception e then st' = PsBackoff else st' = PsStopped \<or> st' = PsFailed e"
    if "ps_step env (PsSync, w) (st', w')" for st' w'
    using that by (rule ps_stepE)
      (auto simp: drop_value_def is_exception_iff is_cancelled_iff split: sum.splits)
  moreover have "\<exists>w'. (ps_step env)\<^sup>+\<^sup>+ (st, w) (PsSync, w')
            \<and> life_now w' = life_now w + (case st of PsDelay \<Rightarrow> 60 | PsBackoff \<Rightarrow> 300 | _ \<Rightarrow> 0)
                + of_int (cf_s3_sync_interval (le_cfg env))"
    if "life_deadlines w = []" "st \<in> {PsDelay, PsWait, PsBackoff}"
    using wait_reaches_sync [OF that(2,1), of env] that(2) by (auto simp: ps_sleep_def)
  ultimately show ?thesis by blast
qed

section \<open>Unhandled errors\<close>

text \<open>
  An answer to an unhandled error lets credentials through only for the one origin it names, which is an allowed one
  as long as any origin is allowed at all.
\<close>

lemma cors_headers_safe:
  assumes "dict_get (cors_headers allowed origin) ''Access-Control-Allow-Credentials'' = Some ''true''" and "allowed \<noteq> []"
  shows "\<exists>a \<in> set allowed. a \<noteq> ''*'' \<and> dict_get (cors_headers allowed origin) ''Access-Control-Allow-Origin'' = Some a"
  using assms by (cases allowed) (auto simp: cors_headers_def Let_def str_truthy_def split: if_splits option.splits)

text \<open>With no allowed origin at all the answer is open to every origin.\<close>

lemma cors_headers_empty:
  "cors_headers [] origin = [(''Access-Control-Allow-Origin'', ''*''), (''Access-Control-Allow-Credentials'', ''true''), (''Vary'', ''Origin'')]"
  by (simp add: cors_headers_def Let_def)

section \<open>Concrete runs\<close>

text \<open>A process with one live connection, to a server that never finishes closing, and no Redis.\<close>

definition hang_net :: net_env where
  "hang_net = dead_net\<lparr>ne_close := (\<lambda>_ _. (1000, Inr ()))\<rparr>"

definition demo_life :: life_env where
  "demo_life =
     \<lparr>le_gw = demo_gw\<lparr>ge_app := demo_app_env\<lparr>ae_exec := demo_exec\<lparr>xe_router := demo_router\<lparr>re_net := hang_net\<rparr>\<rparr>\<rparr>\<rparr>,
      le_cfg = settings_default, le_redis_probe = Some (Exc ConnectionErr ''refused''), le_sync_time = (\<lambda>_. 300),
      le_loop = EvLoop 0 0, le_http_fault = None\<rparr>"

definition demo_life_world :: life_world where
  "demo_life_world =
     \<lparr>lf_gw = demo_gw_world\<lparr>gw_app := demo_app\<lparr>ap_active := [(''s1'', (new_wrapper ''http://s1'' ''sse'')\<lparr>mw_session := Some 7\<rparr>)]\<rparr>\<rparr>,
      lf_redis = \<lparr>has_pool = False, fallback = None, use_fallback = False\<rparr>,
      lf_pool = \<lparr>tp_executor = None, tp_made = 0\<rparr>, lf_http = http_init,
      lf_monitor = \<lparr>hm_running = False, hm_task = False\<rparr>, lf_sync_task = False\<rparr>"

lemma demo_life_parts [simp]:
  "life_deadlines demo_life_world = []" "life_now demo_life_world = 0" "nw_log (ap_exec (lf_app demo_life_world)) = []"
  "pw_entries (ap_exec (lf_app demo_life_world)) = []" "le_net demo_life = hang_net"
  "ap_active (lf_app demo_life_world) = [(''s1'', (new_wrapper ''http://s1'' ''sse'')\<lparr>mw_session := Some 7\<rparr>)]"
  by (simp_all add: demo_life_world_def demo_gw_world_def demo_app_def demo_exec_world_def demo_life_def demo_gw_def
      demo_app_env_def demo_exec_def demo_router_def)


theorem shutdown_releases_witness:
  "case lifespan_shutdown demo_life demo_life_world of
     (Inl _, _) \<Rightarrow> False
   | (Inr _, w') \<Rightarrow> nw_log (ap_exec (lf_app w')) = [NSessionClose 7] \<and> life_now w' \<le> 5 \<and> tp_executor (lf_pool w') = None"
proof -
  obtain u w0 where w0: "stop_tasks demo_life_world = (Inr u, w0)" "life_deadlines w0 = []" "life_now w0 = 0"
    "pw_entries (ap_exec (lf_app w0)) = []" "nw_log (ap_exec (lf_app w0)) = []" "lf_http w0 = http_init"
    "ap_active (lf_app w0) = [(''s1'', (new_wrapper ''http://s1'' ''sse'')\<lparr>mw_session := Some 7\<rparr>)]"
    by (simp add: stop_tasks_def pm_modify_def Execution_Service.shutdown_def demo_life_world_def demo_gw_world_def
        demo_app_def demo_exec_world_def)
  have "fst (disconnect_all hang_net (ap_active (lf_app w0)) (lf_app w0)) = Inr ()"
    using w0 by (simp add: bounded_disconnect_def on_exec_def wait_for_def mw_disconnect_def net_op_def hang_net_def dead_net_def
        log_failure_def pm_defs cancelled_exc_def timeout_exc_def is_cancelled_iff is_exception_iff Let_def)
  then obtain a1 where a1: "disconnect_all hang_net (ap_active (lf_app w0)) (lf_app w0) = (Inr (), a1)"
    by (metis prod.collapse)
  then have p: "pw_entries (ap_exec a1) = []"
    using disconnect_all_run [OF a1] pool_more_eq(2) [of "ap_exec a1" "ap_exec (lf_app w0)"] w0(4) by simp
  have "\<exists>w'. lifespan_shutdown demo_life demo_life_world = (Inr (), w')"
    unfolding lifespan_shutdown_def pm_then_def w0(1)
    using a1 p w0(6) by (simp add: on_life_app_def on_exec_def aclose_all_def close_http_def aclose_http_client_def http_init_def
        pm_modify_def Let_def)
  then show ?thesis
    using shutdown_releases [of demo_life demo_life_world] by (auto simp: closes_def)
qed

theorem periodic_sync_survives_witness:
  "\<exists>w'. (ps_step demo_life)\<^sup>+\<^sup>+ (PsDelay, demo_life_world) (PsSync, w') \<and> life_now w' = 660"
  using periodic_sync_survives [of demo_life PsDelay demo_life_world, OF reachable_by.reach_init]
  by (simp add: demo_life_def settings_default_def)

end
