(* ===== verification/Sandbox_Manager.thy ===== *)
theory Sandbox_Manager
  imports Services Security
begin

text \<open>
  The sandbox manager, \<open>app/integrations/e2b/sandbox.py\<close>, with its table of persistent sessions from
  \<open>app/models/sandbox.py\<close>, and the path of \<open>execute\<close> in \<open>app/integrations/e2b/executor.py\<close> that is given a
  database.  The two E2B packages are outside: whether each can be imported, and what creating a sandbox and
  connecting to one gives.  A sandbox is a number with the identifier it carries.
\<close>

section \<open>Environment\<close>

record manager_env =
  me_api_key :: "string option"
  me_interpreter :: bool
  me_basic :: bool
  me_create :: "nat \<Rightarrow> string option \<Rightarrow> seconds \<Rightarrow> seconds \<times> (exc + nat \<times> string)"
  me_reconnect :: "nat \<Rightarrow> string \<Rightarrow> seconds \<times> (exc + nat)"
  me_sandbox :: sandbox_env

definition DEFAULT_SANDBOX_TIMEOUT :: seconds where
  "DEFAULT_SANDBOX_TIMEOUT = 300"

definition import_error :: exc where
  "import_error = Exc ImportErr ''No module named e2b''"

text \<open>The first package is tried, and the second after any \<open>ImportError\<close> on the way.\<close>

definition with_e2b :: "manager_env \<Rightarrow> (app_world, exc, 'a) pm \<Rightarrow> (app_world, exc, 'a) pm \<Rightarrow> (app_world, exc, 'a) pm" where
  "with_e2b env interpreter basic =
     pm_catch (if me_interpreter env then interpreter else pm_raise import_error)
       (\<lambda>e. if isinstance e [ImportErr] then (if me_basic env then basic else pm_raise import_error) else pm_raise e)"

text \<open>The basic package is not told the template.\<close>

definition create_with :: "manager_env \<Rightarrow> string option \<Rightarrow> seconds \<Rightarrow> (app_world, exc, nat \<times> string) pm" where
  "create_with env template timeout =
     on_exec (\<lambda>x. net_op (NSandbox ''create'' 0) (me_create env (net_tick x) template timeout) x)"

definition sm_create :: "manager_env \<Rightarrow> string \<Rightarrow> seconds \<Rightarrow> (app_world, exc, nat \<times> string) pm" where
  "sm_create env template timeout =
     with_e2b env (create_with env (Some template) timeout) (create_with env None timeout)"

definition reconnect_with :: "manager_env \<Rightarrow> string \<Rightarrow> (app_world, exc, nat) pm" where
  "reconnect_with env i = on_exec (\<lambda>x. net_op (NSandbox ''reconnect'' 0) (me_reconnect env (net_tick x) i) x)"

definition sm_reconnect :: "manager_env \<Rightarrow> string \<Rightarrow> (app_world, exc, nat) pm" where
  "sm_reconnect env i = with_e2b env (reconnect_with env i) (reconnect_with env i)"

section \<open>Sessions\<close>

definition usable_session :: "uuid \<Rightarrow> seconds \<Rightarrow> sandbox_session \<Rightarrow> bool" where
  "usable_session org now r \<longleftrightarrow> bx_org r = org \<and> bx_status r = ''active''
     \<and> (case bx_expires r of None \<Rightarrow> False | Some t \<Rightarrow> now < t)"

text \<open>\<open>order_by(created_at.desc()).limit(1)\<close>; among rows of the same time the first is taken.\<close>

fun newest :: "sandbox_session list \<Rightarrow> sandbox_session option" where
  "newest [] = None"
| "newest (r # rs) = (case newest rs of None \<Rightarrow> Some r | Some q \<Rightarrow> if bx_created r < bx_created q then Some q else Some r)"

definition get_active_session :: "string \<Rightarrow> (app_world, exc, sandbox_session option) pm" where
  "get_active_session org =
     pm_bind (parse_uuid org) (\<lambda>o' w.
       sql_query (\<lambda>d. newest (filter (usable_session o' (ap_now w)) (db_sandboxes d))) w)"

definition expire_session :: "sandbox_session \<Rightarrow> (app_world, exc, unit) pm" where
  "expire_session s =
     sql (\<lambda>d. d\<lparr>db_sandboxes := update_rows (\<lambda>r. bx_id r = bx_id s) (\<lambda>r. r\<lparr>bx_status := ''expired''\<rparr>) (db_sandboxes d)\<rparr>)"

definition store_session :: "app_env \<Rightarrow> string \<Rightarrow> string \<Rightarrow> (app_world, exc, unit) pm" where
  "store_session env org i =
     pm_bind (parse_uuid org) (\<lambda>o'.
       pm_bind (fresh_id env) (\<lambda>k w.
         sql_run (\<lambda>d. if list_ex (\<lambda>r. bx_id r = k) (db_sandboxes d) then Inl integrity_error
                      else Inr ((), d\<lparr>db_sandboxes := db_sandboxes d @
                        [\<lparr>bx_id = k, bx_org = o', bx_sandbox_id = i, bx_status = ''active'', bx_created = ap_now w,
                          bx_expires = Some (ap_now w + DEFAULT_SANDBOX_TIMEOUT)\<rparr>]\<rparr>)) w))"

text \<open>A session whose sandbox cannot be reached any more is expired, and gives no sandbox.\<close>

definition reuse_sandbox :: "manager_env \<Rightarrow> string \<Rightarrow> (app_world, exc, nat option) pm" where
  "reuse_sandbox me org =
     pm_bind (get_active_session org) (\<lambda>s.
       case s of
         None \<Rightarrow> pm_return None
       | Some row \<Rightarrow>
           pm_catch (pm_bind (sm_reconnect me (bx_sandbox_id row)) (\<lambda>sb. pm_return (Some sb)))
             (\<lambda>e. if is_exception e then pm_then (expire_session row) (pm_return None) else pm_raise e))"

definition new_sandbox :: "manager_env \<Rightarrow> app_env \<Rightarrow> string \<Rightarrow> bool \<Rightarrow> string \<Rightarrow> (app_world, exc, nat \<times> bool) pm" where
  "new_sandbox me env org persistent template =
     pm_bind (sm_create me template DEFAULT_SANDBOX_TIMEOUT) (\<lambda>(sb, i).
       pm_then (if persistent then store_session env org i else pm_return ()) (pm_return (sb, True)))"

definition get_or_create_sandbox ::
  "manager_env \<Rightarrow> app_env \<Rightarrow> string \<Rightarrow> bool \<Rightarrow> string \<Rightarrow> (app_world, exc, nat \<times> bool) pm" where
  "get_or_create_sandbox me env org persistent template =
     (if \<not> str_truthy (me_api_key me) then pm_raise (Exc RuntimeErr ''E2B_API_KEY not configured'')
      else if persistent then
        pm_bind (reuse_sandbox me org) (\<lambda>r.
          case r of Some sb \<Rightarrow> pm_return (sb, False) | None \<Rightarrow> new_sandbox me env org persistent template)
      else new_sandbox me env org persistent template)"

section \<open>Execution with a database\<close>

definition sandbox_failure :: "string \<Rightarrow> exc \<Rightarrow> (app_world, exc, json) pm" where
  "sandbox_failure iv e =
     (if is_exception e
      then on_exec (\<lambda>x. (Inr (tool_error (exc_msg e) []), emit_event iv (log_event ''error'' (''Sandbox error: '' @ exc_msg e)) x))
      else pm_raise e)"

text \<open>The \<open>finally\<close> block: what the clean-up raises is dropped when it is an \<open>Exception\<close>.\<close>

definition clean_up :: "manager_env \<Rightarrow> nat \<Rightarrow> exc + json \<Rightarrow> (app_world, exc, json) pm" where
  "clean_up me sb res =
     pm_then (pm_catch (on_exec (wait_for 10 (destroy_sandbox (me_sandbox me) sb)))
               (\<lambda>e. if is_exception e then pm_return () else pm_raise e))
       (pm_lift res)"

definition execute_with_db ::
  "manager_env \<Rightarrow> app_env \<Rightarrow> string \<Rightarrow> jdict \<Rightarrow> string \<Rightarrow> string \<Rightarrow> bool \<Rightarrow> (app_world, exc, json) pm" where
  "execute_with_db me env code0 args org iv persistent w =
     (let code = (if code0 = [] then build_code_from_arguments args else code0)
      in case get_or_create_sandbox me env org persistent ''base'' w of
           (Inl e, w1) \<Rightarrow> sandbox_failure iv e w1
         | (Inr (sb, is_new), w1) \<Rightarrow>
             (case pm_catch (pm_bind (on_exec (run_in_sandbox (me_sandbox me) sb code iv)) (\<lambda>r. pm_return (run_result_json r)))
                     (sandbox_failure iv) w1 of
                (res, w2) \<Rightarrow> if is_new \<and> \<not> persistent then clean_up me sb res w2 else (res, w2)))"

section \<open>Reuse\<close>

lemma net_only_op: "net_only (\<lambda>x. net_op op (f x) x)"
  unfolding net_only_def by (auto simp: net_op_def Let_def split: option.split)

lemma keeps_on_exec_op [keeps_intros]:
  "keeps ap_db (on_exec (\<lambda>x. net_op op (f x) x))" "keeps calm (on_exec (\<lambda>x. net_op op (f x) x))"
  "keeps ap_ids (on_exec (\<lambda>x. net_op op (f x) x))"
proof -
  have "ap_db (snd (on_exec (\<lambda>x. net_op op (f x) x) s)) = ap_db s \<and> calm (snd (on_exec (\<lambda>x. net_op op (f x) x) s)) = calm s
      \<and> ap_ids (snd (on_exec (\<lambda>x. net_op op (f x) x) s)) = ap_ids s" for s
  proof (cases "on_exec (\<lambda>x. net_op op (f x) x) s")
    case (Pair r w')
    with on_exec_net [OF net_only_op Pair] show ?thesis by simp
  qed
  then show "keeps ap_db (on_exec (\<lambda>x. net_op op (f x) x))" "keeps calm (on_exec (\<lambda>x. net_op op (f x) x))"
    "keeps ap_ids (on_exec (\<lambda>x. net_op op (f x) x))" by (simp_all add: keeps_def)
qed

lemma keeps_sm_create: "keeps ap_db (sm_create me t s)" "keeps calm (sm_create me t s)" "keeps ap_ids (sm_create me t s)"
  unfolding sm_create_def with_e2b_def create_with_def by (intro keeps_intros)+

lemma newest_in: "newest rs = Some r \<Longrightarrow> r \<in> set rs"
  by (induction rs arbitrary: r) (auto split: option.splits if_splits)

lemma get_active_session_calm:
  assumes "calm w" "uuid_parse org = Some o'"
  shows "get_active_session org w = (Inr (newest (filter (usable_session o' (ap_now w)) (db_sandboxes (ap_db w)))), w)"
  using assms by (simp add: get_active_session_def parse_uuid_def pm_bind_def pm_return_def sql_query_calm)

lemma usable_later: "\<not> usable_session o' now r \<Longrightarrow> now \<le> t \<Longrightarrow> \<not> usable_session o' t r"
  by (auto simp: usable_session_def split: option.splits)

lemma expired_unusable: "\<not> usable_session o' t (r\<lparr>bx_status := ''expired''\<rparr>)"
  by (simp add: usable_session_def)

text \<open>What a reused sandbox is: one of a session of this organisation, active and not expired.\<close>

lemma reused_is_own:
  assumes "calm w" and "get_or_create_sandbox me env org persistent template w = (Inr (sb, False), w')"
  shows "persistent \<and> (\<exists>o' row. uuid_parse org = Some o' \<and> row \<in> set (db_sandboxes (ap_db w))
    \<and> usable_session o' (ap_now w) row \<and> sm_reconnect me (bx_sandbox_id row) w = (Inr sb, w'))"
proof -
  have p: "persistent \<and> reuse_sandbox me org w = (Inr (Some sb), w')"
  proof (rule ccontr)
    assume no: "\<not> ?thesis"
    have "\<exists>v. new_sandbox me env org persistent template v = (Inr (sb, False), w')"
    proof (cases "str_truthy (me_api_key me) \<and> persistent")
      case True
      then have t: "(\<not> str_truthy (me_api_key me)) = False" "persistent = True" by simp_all
      from assms(2) have "pm_bind (reuse_sandbox me org) (\<lambda>r. case r of Some sb \<Rightarrow> pm_return (sb, False)
          | None \<Rightarrow> new_sandbox me env org True template) w = (Inr (sb, False), w')"
        unfolding get_or_create_sandbox_def t if_True if_False .
      then obtain r v where r: "reuse_sandbox me org w = (Inr r, v)" and v: "(case r of Some sb \<Rightarrow> pm_return (sb, False)
          | None \<Rightarrow> new_sandbox me env org True template) v = (Inr (sb, False), w')" by (rule pm_bind_InrE)
      with no True show ?thesis by (cases r) (auto simp: pm_return_def)
    qed (use assms(2) in \<open>auto simp: get_or_create_sandbox_def pm_raise_def split: if_splits\<close>)
    then obtain v where "new_sandbox me env org persistent template v = (Inr (sb, False), w')" by blast
    then obtain x v' where "(case x of (sb, i) \<Rightarrow>
        pm_then (if persistent then store_session env org i else pm_return ()) (pm_return (sb, True))) v' = (Inr (sb, False), w')"
      unfolding new_sandbox_def by (rule pm_bind_InrE)
    then show False by (cases x) (auto simp: pm_return_def elim!: pm_then_InrE)
  qed
  then have r: "reuse_sandbox me org w = (Inr (Some sb), w')" by simp
  then obtain o' where o': "uuid_parse org = Some o'"
    by (cases "uuid_parse org") (auto simp: reuse_sandbox_def get_active_session_def parse_uuid_def pm_bind_def pm_raise_def)
  obtain row where row: "newest (filter (usable_session o' (ap_now w)) (db_sandboxes (ap_db w))) = Some row"
    using r by (cases "newest (filter (usable_session o' (ap_now w)) (db_sandboxes (ap_db w)))")
      (simp_all add: reuse_sandbox_def pm_bind_def get_active_session_calm [OF assms(1) o'] pm_return_def)
  have "sm_reconnect me (bx_sandbox_id row) w = (Inr sb, w')"
    using r row by (auto simp: reuse_sandbox_def pm_bind_def pm_catch_def get_active_session_calm [OF assms(1) o'] pm_return_def
        pm_then_def pm_raise_def split: prod.splits sum.splits if_splits)
  with p o' newest_in [OF row] show ?thesis by auto
qed

lemma store_session_calm:
  assumes "calm w" "uuid_parse org = Some o'" "\<not> list_ex (\<lambda>r. bx_id r = ae_new_id env (ap_ids w)) (db_sandboxes (ap_db w))"
  shows "store_session env org i w = (Inr (),
    set_db ((ap_db w)\<lparr>db_sandboxes := db_sandboxes (ap_db w) @
        [\<lparr>bx_id = ae_new_id env (ap_ids w), bx_org = o', bx_sandbox_id = i, bx_status = ''active'', bx_created = ap_now w,
          bx_expires = Some (ap_now w + DEFAULT_SANDBOX_TIMEOUT)\<rparr>]\<rparr>) (w\<lparr>ap_ids := Suc (ap_ids w)\<rparr>))"
  using assms by (simp add: store_session_def parse_uuid_def pm_bind_def pm_return_def fresh_id_def sql_run_calm transact_def)

text \<open>A later request of the organisation, when the stored session is the only one that can be usable.\<close>

lemma reuse_stored:
  assumes "calm w2" "str_truthy (me_api_key me)" "uuid_parse org = Some o'" and rows: "db_sandboxes (ap_db w2) = olds @ [row]"
    and old: "\<forall>r \<in> set olds. \<not> usable_session o' (ap_now w2) r" and use: "usable_session o' (ap_now w2) row" and i: "bx_sandbox_id row = i"
  shows "case sm_reconnect me i w2 of
            (Inr sb', w3) \<Rightarrow> get_or_create_sandbox me env org True template w2 = (Inr (sb', False), w3)
          | (Inl e, w3) \<Rightarrow> is_exception e \<and> calm w3 \<and> ap_db w3 = ap_db w2 \<longrightarrow>
              (\<exists>w4. reuse_sandbox me org w2 = (Inr None, w4) \<and> (\<forall>r \<in> set (db_sandboxes (ap_db w4)). \<not> usable_session o' (ap_now w2) r))"
proof -
  have "filter (usable_session o' (ap_now w2)) olds = []" using old by (simp add: filter_empty_conv)
  then have s: "get_active_session org w2 = (Inr (Some row), w2)"
    using get_active_session_calm [OF assms(1,3)] use by (simp add: rows)
  obtain r w3 where r: "sm_reconnect me i w2 = (r, w3)" by force
  show ?thesis
  proof (cases r)
    case (Inr sb')
    then show ?thesis
      using assms(2) by (simp add: r get_or_create_sandbox_def reuse_sandbox_def s i pm_bind_def pm_catch_def pm_return_def)
  next
    case (Inl e)
    have "\<exists>w4. reuse_sandbox me org w2 = (Inr None, w4) \<and> (\<forall>r \<in> set (db_sandboxes (ap_db w4)). \<not> usable_session o' (ap_now w2) r)"
      if x: "is_exception e" "calm w3" "ap_db w3 = ap_db w2"
    proof -
      let ?u = "update_rows (\<lambda>r. bx_id r = bx_id row) (\<lambda>r. r\<lparr>bx_status := ''expired''\<rparr>) (db_sandboxes (ap_db w2))"
      have "reuse_sandbox me org w2 = (Inr None, set_db ((ap_db w2)\<lparr>db_sandboxes := ?u\<rparr>) w3)"
        using x by (simp add: reuse_sandbox_def s i r Inl pm_bind_def pm_catch_def pm_then_def pm_return_def expire_session_def sql_calm)
      moreover have "\<forall>r \<in> set ?u. \<not> usable_session o' (ap_now w2) r"
        using old unfolding rows by (auto simp: update_rows_def expired_unusable)
      ultimately show ?thesis by auto
    qed
    then show ?thesis by (simp add: r Inl)
  qed
qed


text \<open>
  A persistent sandbox whose session cannot be stored is lost: the caller gets an error, no row names the sandbox, and
  nothing asks it to close.
\<close>

lemma keeps_faults_create: "keeps (\<lambda>w. (ew_faults (ap_exec w), ap_aborted w)) (sm_create me t s)"
proof -
  have "keeps (\<lambda>w. (ew_faults (ap_exec w), ap_aborted w)) (on_exec (\<lambda>x. net_op op (f x) x))" for op and f :: "exec_world \<Rightarrow> seconds \<times> (exc + 'a)"
    unfolding keeps_def
  proof
    fix w
    show "(ew_faults (ap_exec (snd (on_exec (\<lambda>x. net_op op (f x) x) w))), ap_aborted (snd (on_exec (\<lambda>x. net_op op (f x) x) w)))
        = (ew_faults (ap_exec w), ap_aborted w)"
    proof (cases "on_exec (\<lambda>x. net_op op (f x) x) w")
      case (Pair r w')
      with on_exec_net [OF net_only_op Pair] show ?thesis by simp
    qed
  qed
  then show ?thesis unfolding sm_create_def with_e2b_def create_with_def by (intro keeps_intros)
qed

lemma sandbox_leaked:
  assumes "str_truthy (me_api_key me)" "uuid_parse org = Some o'" "ew_faults (ap_exec w) = [None, Some e]" "\<not> ap_aborted w"
    and "is_exception e" and "\<forall>r \<in> set (db_sandboxes (ap_db w)). \<not> usable_session o' (ap_now w) r"
    and create: "sm_create me ''base'' DEFAULT_SANDBOX_TIMEOUT (set_faults [Some e] w) = (Inr (sb, i), w1)"
  shows "\<exists>w'. execute_with_db me env code args org iv True w = (Inr (tool_error (exc_msg e) []), w')
    \<and> nw_log (ap_exec w') = nw_log (ap_exec w1) \<and> db_sandboxes (ap_db w') = db_sandboxes (ap_db w)"
proof -
  have "filter (usable_session o' (ap_now w)) (db_sandboxes (ap_db w)) = []" using assms(6) by (simp add: filter_empty_conv)
  then have "get_active_session org w = (Inr None, set_faults [Some e] w)"
    using assms(2-4) by (simp add: get_active_session_def parse_uuid_def pm_bind_def pm_return_def sql_query_def sql_run_def transact_def
        set_db_def set_faults_def)
  then have none: "reuse_sandbox me org w = (Inr None, set_faults [Some e] w)"
    by (simp add: reuse_sandbox_def pm_bind_def pm_return_def)
  have w1: "ew_faults (ap_exec w1) = [Some e]" "\<not> ap_aborted w1" "ap_db w1 = ap_db w"
    using keeps_run [OF keeps_faults_create create] keeps_run [OF keeps_sm_create(1) create] assms(4) by (auto simp: set_faults_def)
  obtain w2 where w2: "store_session env org i w1 = (Inl e, w2)" "nw_log (ap_exec w2) = nw_log (ap_exec w1)" "ap_db w2 = ap_db w"
    using assms(2) w1 by (simp add: store_session_def parse_uuid_def pm_bind_def pm_return_def fresh_id_def sql_run_def set_faults_def)
  have "get_or_create_sandbox me env org True ''base'' w = (Inl e, w2)"
    using assms(1) none create w2(1) by (simp add: get_or_create_sandbox_def new_sandbox_def pm_bind_def pm_then_def)
  then show ?thesis
    using assms(5) w2(2,3) by (simp add: execute_with_db_def sandbox_failure_def on_exec_def emit_event_def Let_def)
qed

definition demo_manager :: manager_env where
  "demo_manager = \<lparr>me_api_key = Some ''k'', me_interpreter = True, me_basic = False,
     me_create = (\<lambda>_ _ _. (1, Inr (3, ''sb-3''))), me_reconnect = (\<lambda>_ _. (1, Inr 3)), me_sandbox = demo_sandbox ''x''\<rparr>"


end
