(* ===== verification/Brave_Search.thy ===== *)
theory Brave_Search
  imports Plugin_Registry
begin

text \<open>
  The built-in tool \<open>tools/brave_search.py\<close>: the check of its arguments, the request it makes and the text it makes of
  the answer.  Outside are the key in the environment, what the web answers to a request, the message of a JSON
  error and the integer part of a float literal.
\<close>

section \<open>Integers from arguments\<close>

text \<open>\<open>int(s)\<close>: white space around, a sign, digits with single underscores between them.\<close>

fun digit_run :: "bool \<Rightarrow> string \<Rightarrow> bool" where
  "digit_run before [] = before"
| "digit_run before (c # cs) =
     (if is_digit c then digit_run True cs else if c = CHR ''_'' \<and> before then cs \<noteq> [] \<and> digit_run False cs else False)"

definition digits_value :: "string \<Rightarrow> int" where
  "digits_value s = int (tok_nat (filter is_digit s))"

definition int_of_str :: "string \<Rightarrow> exc + int" where
  "int_of_str s =
     (let t = str_strip s;
          (neg, r) = (case t of c # cs \<Rightarrow> if c = CHR ''-'' then (True, cs) else if c = CHR ''+'' then (False, cs) else (False, t)
                      | [] \<Rightarrow> (False, t))
      in if digit_run False r then Inr (if neg then - digits_value r else digits_value r)
         else Inl (Exc ValueErr ''invalid literal for int() with base 10''))"

definition int_of_json :: "(string \<Rightarrow> exc + int) \<Rightarrow> json \<Rightarrow> exc + int" where
  "int_of_json trunc j =
     (case j of
        JInt n \<Rightarrow> Inr n
      | JBool b \<Rightarrow> Inr (if b then 1 else 0)
      | JFloat l \<Rightarrow> trunc l
      | JStr s \<Rightarrow> int_of_str s
      | _ \<Rightarrow> Inl (Exc TypeErr ''int() argument must be a string, a bytes-like object or a real number''))"

section \<open>URL encoding\<close>

definition hex_upper :: "nat \<Rightarrow> char" where
  "hex_upper d = (if d < 10 then char_of (48 + d) else char_of (55 + d))"

definition percent :: "nat \<Rightarrow> string" where
  "percent b = [CHR ''%'', hex_upper (b div 16), hex_upper (b mod 16)]"

definition unreserved :: "char \<Rightarrow> bool" where
  "unreserved c \<longleftrightarrow> (let n = (of_char c :: nat) in
     48 \<le> n \<and> n \<le> 57 \<or> 65 \<le> n \<and> n \<le> 90 \<or> 97 \<le> n \<and> n \<le> 122 \<or> c \<in> {CHR ''_'', CHR ''.'', CHR ''-'', CHR ''~''})"

text \<open>\<open>quote_plus\<close> of a character: a space is a plus, anything reserved the bytes of its UTF-8 form.\<close>

definition quote_char :: "char \<Rightarrow> string" where
  "quote_char c =
     (let n = (of_char c :: nat) in
      if unreserved c then [c] else if c = CHR '' '' then ''+''
      else if n < 128 then percent n else percent (192 + n div 64) @ percent (128 + n mod 64))"

definition quote_plus :: "string \<Rightarrow> string" where
  "quote_plus s = concat (map quote_char s)"

definition urlencode :: "(string \<times> string) list \<Rightarrow> string" where
  "urlencode ps = join_str ''&'' (map (\<lambda>(k, v). quote_plus k @ ''='' @ quote_plus v) ps)"

section \<open>The tool\<close>

datatype web_reply = WebHttpError int string | WebError exc | WebBody string

record brave_env =
  br_key :: "string option"
  br_web :: "string \<Rightarrow> (string, string) dict \<Rightarrow> web_reply"
  br_json_error :: "string \<Rightarrow> string"
  br_trunc :: "string \<Rightarrow> exc + int"

definition brave_text :: "string \<Rightarrow> json" where
  "brave_text t = JObj [(''content'', JList [text_item t])]"

text \<open>\<open>d.get(k, '').strip()\<close>.\<close>

definition stripped :: "jdict \<Rightarrow> string \<Rightarrow> exc + string" where
  "stripped d k =
     (case dict_get_or d k (JStr []) of
        JStr s \<Rightarrow> Inr (str_strip s)
      | _ \<Rightarrow> Inl (Exc AttributeErr ''object has no attribute strip''))"

definition clamp_count :: "int \<Rightarrow> int" where
  "clamp_count n = max 1 (min n 20)"

definition brave_url :: "string \<Rightarrow> int \<Rightarrow> string" where
  "brave_url query n =
     ''https://api.search.brave.com/res/v1/web/search?''
     @ urlencode [(''q'', query), (''count'', int_str n), (''text_decorations'', ''false''), (''search_lang'', ''en'')]"

definition brave_headers :: "string \<Rightarrow> (string, string) dict" where
  "brave_headers key = [(''Accept'', ''application/json''), (''X-Subscription-Token'', key)]"

definition newline :: string where
  "newline = [CHR 0x0A]"

definition brave_entry :: "nat \<Rightarrow> json \<Rightarrow> exc + string" where
  "brave_entry idx item =
     (case item of
        JObj d \<Rightarrow>
          (case stripped d ''title'' of Inl e \<Rightarrow> Inl e | Inr title \<Rightarrow>
           (case stripped d ''description'' of Inl e \<Rightarrow> Inl e | Inr desc \<Rightarrow>
            (case stripped d ''url'' of Inl e \<Rightarrow> Inl e | Inr link \<Rightarrow>
              Inr (''['' @ nat_str idx @ ''] '' @ title
                @ (if desc \<noteq> [] then newline @ desc else [])
                @ (if link \<noteq> [] then newline @ ''Source: '' @ link else [])))))
      | _ \<Rightarrow> Inl (Exc AttributeErr ''object has no attribute get''))"

fun brave_entries :: "nat \<Rightarrow> json list \<Rightarrow> exc + string list" where
  "brave_entries idx [] = Inr []"
| "brave_entries idx (x # xs) =
     (case brave_entry idx x of Inl e \<Rightarrow> Inl e | Inr t \<Rightarrow>
       (case brave_entries (Suc idx) xs of Inl e \<Rightarrow> Inl e | Inr ts \<Rightarrow> Inr (t # ts)))"

definition obj_get_or :: "json \<Rightarrow> string \<Rightarrow> json \<Rightarrow> exc + json" where
  "obj_get_or j k v =
     (case j of JObj d \<Rightarrow> Inr (dict_get_or d k v) | _ \<Rightarrow> Inl (Exc AttributeErr ''object has no attribute get''))"

definition brave_results :: "json \<Rightarrow> exc + json" where
  "brave_results data =
     (case obj_get_or data ''web'' (JObj []) of Inl e \<Rightarrow> Inl e | Inr web \<Rightarrow>
      (case obj_get_or web ''results'' (JList []) of Inl e \<Rightarrow> Inl e | Inr results \<Rightarrow>
        if \<not> truthy results then Inr (brave_text ''No results found.'')
        else
          (case json_iter results of Inl e \<Rightarrow> Inl e | Inr items \<Rightarrow>
           (case brave_entries 1 items of Inl e \<Rightarrow> Inl e
            | Inr ts \<Rightarrow> Inr (brave_text (join_str (newline @ newline) ts))))))"

text \<open>Only opening the address and decoding the body are inside the \<open>try\<close>.\<close>

definition brave_reply :: "brave_env \<Rightarrow> web_reply \<Rightarrow> exc + json" where
  "brave_reply env r =
     (case r of
        WebHttpError code reason \<Rightarrow> Inr (brave_text (''HTTP '' @ int_str code @ '': '' @ reason))
      | WebError e \<Rightarrow> if is_exception e then Inr (brave_text (''Error: '' @ exc_msg e)) else Inl e
      | WebBody body \<Rightarrow>
          (case loads body of
             None \<Rightarrow> Inr (brave_text (''Error: '' @ br_json_error env body))
           | Some data \<Rightarrow> brave_results data))"

definition brave_key :: "brave_env \<Rightarrow> string" where
  "brave_key env = str_strip (case br_key env of None \<Rightarrow> [] | Some k \<Rightarrow> k)"

definition brave_search :: "brave_env \<Rightarrow> jdict \<Rightarrow> exc + json" where
  "brave_search env args =
     (if brave_key env = [] then Inr (brave_text ''Error: BRAVE_SEARCH_API_KEY not set'')
      else
        (case stripped args ''query'' of Inl e \<Rightarrow> Inl e | Inr query \<Rightarrow>
          if query = [] then Inr (brave_text (''Error: '' @ [CHR 0x27] @ ''query'' @ [CHR 0x27] @ '' argument is required''))
          else
            (case int_of_json (br_trunc env) (dict_get_or args ''count'' (JInt 10)) of Inl e \<Rightarrow> Inl e | Inr n \<Rightarrow>
              brave_reply env (br_web env (brave_url query (clamp_count n)) (brave_headers (brave_key env))))))"

text \<open>What loading the file registers; the dash of the range, a code point above 255, is written as a hyphen.\<close>

definition brave_schema :: json where
  "brave_schema =
     JObj [(''type'', JStr ''object''),
       (''properties'', JObj
         [(''query'', JObj [(''type'', JStr ''string''), (''description'', JStr ''The search query string.'')]),
          (''count'', JObj [(''type'', JStr ''integer''),
             (''description'', JStr ''Number of results to return (1-20, default 10).''),
             (''default'', JInt 10), (''minimum'', JInt 1), (''maximum'', JInt 20)])]),
       (''required'', JList [JStr ''query''])]"

definition brave_description :: string where
  "brave_description =
     ''Search the web using the Brave Search API. '' @
     ''Returns the top web results (title, description, URL) for the given query. '' @
     ''Useful for gathering live, up-to-date information on any topic.''"

definition brave_registration :: "func \<Rightarrow> plugin_act" where
  "brave_registration f = RegTool ''brave_search'' brave_description brave_schema None f"

section \<open>Reading a query back\<close>

text \<open>What a server makes of a query string: the reference the encoding is checked against.\<close>

definition hex_value :: "char \<Rightarrow> nat" where
  "hex_value c = (let n = (of_char c :: nat) in if n \<le> 57 then n - 48 else n - 55)"

fun unquote_bytes :: "string \<Rightarrow> nat list" where
  "unquote_bytes [] = []"
| "unquote_bytes (c # cs) =
     (if c = CHR ''%'' then
        (case cs of a # b # ds \<Rightarrow> (hex_value a * 16 + hex_value b) # unquote_bytes ds | _ \<Rightarrow> 37 # unquote_bytes cs)
      else (if c = CHR ''+'' then 32 else of_char c) # unquote_bytes cs)"

fun utf8_decode :: "nat list \<Rightarrow> string" where
  "utf8_decode [] = []"
| "utf8_decode (b # bs) =
     (if b < 128 then char_of b # utf8_decode bs
      else (case bs of [] \<Rightarrow> [] | c # cs \<Rightarrow> char_of ((b - 192) * 64 + (c - 128)) # utf8_decode cs))"

definition unquote_plus :: "string \<Rightarrow> string" where
  "unquote_plus s = utf8_decode (unquote_bytes s)"

definition parse_query :: "string \<Rightarrow> (string \<times> string) list" where
  "parse_query url =
     (case split_once ''?'' url of
        None \<Rightarrow> []
      | Some (_, q) \<Rightarrow>
          map (\<lambda>f. case split_once ''='' f of None \<Rightarrow> (unquote_plus f, []) | Some (k, v) \<Rightarrow> (unquote_plus k, unquote_plus v))
            (split_char (CHR ''&'') q))"

definition utf8 :: "char \<Rightarrow> nat list" where
  "utf8 c = (let n = of_char c in if n < 128 then [n] else [192 + n div 64, 128 + n mod 64])"

lemma hex_round: "d < 16 \<Longrightarrow> hex_value (hex_upper d) = d"
  by (auto simp: hex_value_def hex_upper_def Let_def)

lemma char_code_less: "(of_char c :: nat) < 256"
  by (metis of_char_mod_256 mod_less_divisor zero_less_numeral)

lemma unquote_percent: "b < 256 \<Longrightarrow> unquote_bytes (percent b @ r) = b # unquote_bytes r"
  by (simp add: percent_def hex_round)

lemma unquote_quote_char: "unquote_bytes (quote_char c @ r) = utf8 c @ unquote_bytes r"
proof -
  define n :: nat where "n = of_char c"
  have n: "n < 256" using char_code_less n_def by simp
  have plain: "unreserved c \<Longrightarrow> c \<noteq> CHR ''%'' \<and> c \<noteq> CHR ''+''" by (auto simp: unreserved_def)
  have low: "unreserved c \<Longrightarrow> n < 128" by (auto simp: unreserved_def n_def Let_def)
  have sp: "c = CHR '' '' \<Longrightarrow> n = 32" by (simp add: n_def)
  show ?thesis
    using n plain low sp
    by (auto simp: quote_char_def utf8_def Let_def unquote_percent n_def [symmetric])
qed

lemma utf8_decode_char: "utf8_decode (utf8 c @ r) = c # utf8_decode r"
proof -
  define n :: nat where "n = of_char c"
  have n: "n < 256" "char_of n = c" using char_code_less n_def by simp_all
  have "128 \<le> n \<Longrightarrow> (192 + n div 64 - 192) * 64 + (128 + n mod 64 - 128) = n" by simp
  then show ?thesis using n by (auto simp: utf8_def n_def [symmetric] Let_def)
qed

lemma unquote_quote: "unquote_plus (quote_plus s) = s"
  unfolding unquote_plus_def quote_plus_def
proof (induction s)
  case (Cons c s)
  then show ?case by (simp add: unquote_quote_char utf8_decode_char)
qed simp

lemma split_once_char: "d \<notin> set a \<Longrightarrow> split_once [d] (a @ d # b) = Some (a, b)"
  by (induction a) (auto simp: startswith_def)

lemma hex_upper_code: "d < 16 \<Longrightarrow> (of_char (hex_upper d) :: nat) = (if d < 10 then 48 + d else 55 + d)"
  by (auto simp: hex_upper_def)

lemma hex_upper_clean:
  assumes "d < 16"
  shows "hex_upper d \<noteq> CHR ''&'' \<and> hex_upper d \<noteq> CHR ''='' \<and> hex_upper d \<noteq> CHR ''?''"
  using hex_upper_code [OF assms] assms by (auto split: if_splits)

lemma percent_clean:
  assumes "c \<in> set (percent b)" and "b < 256"
  shows "c \<noteq> CHR ''&'' \<and> c \<noteq> CHR ''='' \<and> c \<noteq> CHR ''?''"
proof -
  have "b div 16 < 16" "b mod 16 < 16" using assms(2) by simp_all
  from hex_upper_clean [OF this(1)] hex_upper_clean [OF this(2)] show ?thesis
    using assms(1) by (auto simp: percent_def)
qed

text \<open>Nothing a query string is split at survives the encoding.\<close>

lemma quote_char_clean:
  assumes "c \<in> set (quote_char x)"
  shows "c \<noteq> CHR ''&'' \<and> c \<noteq> CHR ''='' \<and> c \<noteq> CHR ''?''"
proof (cases "unreserved x")
  case True
  then show ?thesis using assms by (auto simp: quote_char_def Let_def unreserved_def)
next
  case False
  define n :: nat where "n = of_char x"
  have n: "n < 256" using char_code_less n_def by simp
  show ?thesis
  proof (cases "x = CHR '' ''")
    case True
    then show ?thesis using assms False by (simp add: quote_char_def)
  next
    case ns: False
    show ?thesis
    proof (cases "n < 128")
      case True
      then show ?thesis using assms False ns n percent_clean [of c n] by (simp add: quote_char_def Let_def n_def)
    next
      case big: False
      then have "c \<in> set (percent (192 + n div 64)) \<or> c \<in> set (percent (128 + n mod 64))"
        using assms False ns by (simp add: quote_char_def Let_def n_def)
      moreover have "192 + n div 64 < 256" "128 + n mod 64 < 256" using n by simp_all
      ultimately show ?thesis using percent_clean by blast
    qed
  qed
qed

lemma quote_plus_clean:
  assumes "c \<in> set (quote_plus s)"
  shows "c \<noteq> CHR ''&'' \<and> c \<noteq> CHR ''='' \<and> c \<noteq> CHR ''?''"
proof -
  obtain x where "c \<in> set (quote_char x)" using assms by (auto simp: quote_plus_def)
  then show ?thesis by (rule quote_char_clean)
qed

lemma parse_field: "(case split_once ''='' (quote_plus k @ ''='' @ quote_plus v) of
    None \<Rightarrow> (unquote_plus (quote_plus k @ ''='' @ quote_plus v), []) | Some (a, b) \<Rightarrow> (unquote_plus a, unquote_plus b)) = (k, v)"
proof -
  have "CHR ''='' \<notin> set (quote_plus k)" using quote_plus_clean by blast
  then show ?thesis by (simp add: split_once_char unquote_quote)
qed

lemma urlencode_fields:
  assumes "ps \<noteq> []"
  shows "split_char (CHR ''&'') (urlencode ps) = map (\<lambda>(k, v). quote_plus k @ ''='' @ quote_plus v) ps"
  unfolding urlencode_def
proof (rule split_join_char)
  show "CHR ''&'' \<notin> set w" if "w \<in> set (map (\<lambda>(k, v). quote_plus k @ ''='' @ quote_plus v) ps)" for w
  proof -
    from that have "w \<in> (\<lambda>(k, v). quote_plus k @ ''='' @ quote_plus v) ` set ps" by simp
    then obtain p where "w = (\<lambda>(k, v). quote_plus k @ ''='' @ quote_plus v) p" by (rule imageE)
    then have "w = quote_plus (fst p) @ ''='' @ quote_plus (snd p)" by (simp add: case_prod_beta)
    then show ?thesis using quote_plus_clean by auto
  qed
qed (use assms in simp)

lemma parse_urlencode:
  assumes "ps \<noteq> []" and "CHR ''?'' \<notin> set base"
  shows "parse_query (base @ ''?'' @ urlencode ps) = ps"
proof -
  define g :: "string \<Rightarrow> string \<times> string" where
    "g f = (case split_once ''='' f of None \<Rightarrow> (unquote_plus f, []) | Some (a, b) \<Rightarrow> (unquote_plus a, unquote_plus b))" for f
  have g: "g (case p of (k, v) \<Rightarrow> quote_plus k @ ''='' @ quote_plus v) = p" for p
    unfolding g_def by (cases p) (simp only: prod.case parse_field)
  have "parse_query (base @ ''?'' @ urlencode ps) = map g (split_char (CHR ''&'') (urlencode ps))"
    unfolding parse_query_def g_def using assms(2) by (simp add: split_once_char)
  also have "\<dots> = ps"
    unfolding urlencode_fields [OF assms(1)] map_map by (rule map_idI) (simp only: comp_apply g)
  finally show ?thesis .
qed



end
