(* ===== verification/App_Surface.thy ===== *)
theory App_Surface
  imports App_Config
begin

text \<open>
  What the application offers to the outside: the table of its endpoints, built from the routers of \<open>app/api\<close> in the order
  in which \<open>create_app\<close> of \<open>app/main.py\<close> includes them, with the dependency on authentication of each, and the options the application and
  the database engine (\<open>app/db/database.py\<close>) are created with.  A path is the list of its segments; a parameter
  of a template takes one segment that is not empty, and the first endpoint whose method and template fit is called.
\<close>

section \<open>Routers\<close>

datatype http_method = GET | POST | PUT | DELETE | WebSocket

datatype segment = Lit string | Param string

record web_route =
  rt_method :: http_method
  rt_path :: "segment list"
  rt_handler :: string
  rt_auth :: bool

definition serve_at :: "http_method \<Rightarrow> segment list \<Rightarrow> string \<Rightarrow> bool \<Rightarrow> web_route" where
  "serve_at m p h a = \<lparr>rt_method = m, rt_path = p, rt_handler = h, rt_auth = a\<rparr>"

definition include_router :: "segment list \<Rightarrow> web_route list \<Rightarrow> web_route list" where
  "include_router prfx rs = map (\<lambda>r. r\<lparr>rt_path := prfx @ rt_path r\<rparr>) rs"

definition health_router :: "web_route list" where
  "health_router = include_router [Lit ''health'']
     [serve_at GET [] ''health_check'' False, serve_at GET [Lit ''liveness''] ''liveness'' False, serve_at GET [Lit ''readiness''] ''readiness'' False]"

definition registry_router :: "web_route list" where
  "registry_router = include_router [Lit ''registry'']
     [serve_at POST [Lit ''servers''] ''register_server'' True, serve_at GET [Lit ''servers''] ''list_mcp_servers'' True,
      serve_at GET [Lit ''servers'', Param ''server_id''] ''get_mcp_server'' True,
      serve_at PUT [Lit ''servers'', Param ''server_id''] ''update_mcp_server'' True,
      serve_at DELETE [Lit ''servers'', Param ''server_id''] ''unregister_server'' True,
      serve_at POST [Lit ''servers'', Param ''server_id'', Lit ''connect''] ''connect_server'' True,
      serve_at POST [Lit ''servers'', Param ''server_id'', Lit ''disconnect''] ''disconnect_server'' True]"

definition discovery_router :: "web_route list" where
  "discovery_router = include_router [Lit ''tools'']
     [serve_at GET [] ''list_tools'' True, serve_at GET [Param ''tool_id''] ''get_tool'' True,
      serve_at GET [Param ''tool_id'', Lit ''schema''] ''get_tool_schema'' True, serve_at POST [Lit ''discover''] ''trigger_discovery'' True]"

definition execution_router :: "web_route list" where
  "execution_router = include_router [Lit ''execute'']
     [serve_at POST [] ''execute_tool'' True, serve_at POST [Lit ''async''] ''execute_tool_async'' True,
      serve_at GET [Param ''invocation_id''] ''get_invocation'' True, serve_at DELETE [Param ''invocation_id''] ''cancel_invocation'' True]"

definition sessions_router :: "web_route list" where
  "sessions_router = include_router [Lit ''sessions'']
     [serve_at POST [] ''create_session'' True, serve_at GET [Param ''session_id''] ''get_session'' True,
      serve_at DELETE [Param ''session_id''] ''end_session'' True]"

definition streaming_router :: "web_route list" where
  "streaming_router = include_router [Lit ''stream'']
     [serve_at GET [Param ''invocation_id'', Lit ''events''] ''stream_invocation_events'' True]"

text \<open>The gateway takes an optional token and serves a socket without one, so it does not depend on authentication.\<close>

definition ws_router :: "web_route list" where
  "ws_router = [serve_at WebSocket [Lit ''ws''] ''websocket_gateway'' False]"

definition legacy_router :: "web_route list" where
  "legacy_router =
     [serve_at GET [Lit ''health''] ''legacy_health'' False, serve_at GET [Lit ''api'', Lit ''tools''] ''legacy_list_tools'' False,
      serve_at POST [Lit ''api'', Lit ''tools'', Param ''tool_name''] ''legacy_call_tool'' False,
      serve_at POST [Lit ''reload-tools''] ''legacy_reload_tools'' False, serve_at POST [Lit ''sync-tools-from-s3''] ''legacy_sync_s3'' False,
      serve_at POST [Lit ''sync-tool''] ''legacy_sync_tool'' False]"

text \<open>The path \<open>/\<close> has one empty segment.\<close>

definition app_routes :: "web_route list" where
  "app_routes =
     (let v1 = [Lit ''api'', Lit ''v1''] in
      include_router v1 health_router @ include_router v1 registry_router @ include_router v1 discovery_router
      @ include_router v1 execution_router @ include_router v1 sessions_router @ include_router v1 streaming_router
      @ ws_router @ legacy_router @ [serve_at GET [Lit ''''] ''root'' False])"

definition path_segments :: "string \<Rightarrow> string list" where
  "path_segments p = split_char (CHR ''/'') (tl p)"

fun fits :: "segment list \<Rightarrow> string list \<Rightarrow> bool" where
  "fits [] [] \<longleftrightarrow> True"
| "fits (Lit s # t) (x # p) \<longleftrightarrow> s = x \<and> fits t p"
| "fits (Param n # t) (x # p) \<longleftrightarrow> x \<noteq> [] \<and> fits t p"
| "fits _ _ \<longleftrightarrow> False"

definition endpoint :: "http_method \<Rightarrow> string \<Rightarrow> web_route option" where
  "endpoint m p = find (\<lambda>r. rt_method r = m \<and> fits (rt_path r) (path_segments p)) app_routes"

section \<open>Options\<close>

record app_options =
  ao_docs :: "string option"
  ao_redoc :: "string option"
  ao_origins :: "string list"
  ao_credentials :: bool

definition create_app_options :: "settings \<Rightarrow> app_options" where
  "create_app_options cfg =
     \<lparr>ao_docs = (if \<not> cf_is_production cfg then Some ''/docs'' else None),
      ao_redoc = (if \<not> cf_is_production cfg then Some ''/redoc'' else None),
      ao_origins = cf_allowed_origins cfg, ao_credentials = (''*'' \<notin> set (cf_allowed_origins cfg))\<rparr>"

text \<open>The sizes of the connection pool are given to server databases only.\<close>

definition engine_kwargs :: "settings \<Rightarrow> jdict" where
  "engine_kwargs cfg =
     (let kw = [(''echo'', JBool (cf_db_echo cfg))] in
      if startswith (cf_database_url cfg) ''sqlite'' then kw
      else dict_set ''max_overflow'' (JInt (cf_db_max_overflow cfg))
             (dict_set ''pool_size'' (JInt (cf_db_pool_size cfg)) (dict_set ''pool_pre_ping'' (JBool True) kw)))"

section \<open>Properties\<close>

fun may_meet :: "segment list \<Rightarrow> segment list \<Rightarrow> bool" where
  "may_meet [] [] \<longleftrightarrow> True"
| "may_meet (Lit s # t) (Lit s' # t') \<longleftrightarrow> s = s' \<and> may_meet t t'"
| "may_meet (_ # t) (_ # t') \<longleftrightarrow> may_meet t t'"
| "may_meet _ _ \<longleftrightarrow> False"

lemma fits_simps:
  shows fits_empty: "fits [] p \<longleftrightarrow> p = []"
    and fits_lit: "fits (Lit s # t) p \<longleftrightarrow> (\<exists>q. p = s # q \<and> fits t q)"
    and fits_param: "fits (Param n # t) p \<longleftrightarrow> (\<exists>x q. p = x # q \<and> x \<noteq> [] \<and> fits t q)"
proof -
  show "fits [] p \<longleftrightarrow> p = []" by (cases p) simp_all
  show "fits (Lit s # t) p \<longleftrightarrow> (\<exists>q. p = s # q \<and> fits t q)" by (cases p) auto
  show "fits (Param n # t) p \<longleftrightarrow> (\<exists>x q. p = x # q \<and> x \<noteq> [] \<and> fits t q)" by (cases p) auto
qed

lemma fits_tail: "fits (s # t) (x # p) \<Longrightarrow> fits t p"
  by (cases s) auto

lemma fits_nil: "fits (x # t) p \<Longrightarrow> p \<noteq> []"
  by (cases x; cases p) auto

lemma fits_meet: "fits t p \<Longrightarrow> fits t' p \<Longrightarrow> may_meet t t'"
  by (induction t t' arbitrary: p rule: may_meet.induct) (auto simp: fits_simps dest: fits_nil fits_tail)

fun separate :: "web_route list \<Rightarrow> bool" where
  "separate [] \<longleftrightarrow> True"
| "separate (r # rs) \<longleftrightarrow> list_all (\<lambda>x. rt_method x = rt_method r \<longrightarrow> \<not> may_meet (rt_path r) (rt_path x)) rs \<and> separate rs"

lemma find_separate:
  "separate rs \<Longrightarrow> r \<in> set rs \<Longrightarrow> fits (rt_path r) p \<Longrightarrow> find (\<lambda>x. rt_method x = rt_method r \<and> fits (rt_path x) p) rs = Some r"
proof (induction rs)
  case (Cons x rs)
  show ?case
  proof (cases "x = r")
    case False
    then have "\<not> (rt_method x = rt_method r \<and> fits (rt_path x) p)"
      using Cons.prems fits_meet [of "rt_path x" p "rt_path r"] by (auto simp: list_all_iff)
    then show ?thesis using Cons False by auto
  qed (use Cons.prems in simp)
qed simp

lemma app_routes_separate: "separate app_routes"
  by code_simp

text \<open>Which endpoints demand authentication, told by the path.\<close>

definition guarded :: "string list \<Rightarrow> bool" where
  "guarded p \<longleftrightarrow> take 2 p = [''api'', ''v1''] \<and> take 1 (drop 2 p) \<noteq> [''health'']"

lemmas router_defs = health_router_def registry_router_def discovery_router_def execution_router_def sessions_router_def
  streaming_router_def ws_router_def legacy_router_def include_router_def serve_at_def

lemma guarded_iff_auth:
  assumes "r \<in> set app_routes" and "fits (rt_path r) p"
  shows "rt_auth r \<longleftrightarrow> guarded p"
  using assms by (auto simp: app_routes_def Let_def router_defs fits_simps guarded_def)

text \<open>C40.  Requests are dispatched without ambiguity, and what they may reach without authentication is decided by their
path: whatever endpoint of the table fits the method and path of a request is the one that is called, so that no
endpoint hides another and the order in which the routers are included does not matter; and the called endpoint
depends on authentication exactly if the path is below \<open>/api/v1\<close> and not below \<open>/api/v1/health\<close>.\<close>

theorem dispatch_unambiguous:
  assumes "r \<in> set app_routes" and "fits (rt_path r) (path_segments p)"
  shows "endpoint (rt_method r) p = Some r \<and> (rt_auth r \<longleftrightarrow> guarded (path_segments p))"
  unfolding endpoint_def using find_separate [OF app_routes_separate assms] guarded_iff_auth [OF assms] by blast

theorem dispatch_unambiguous_witness:
  "endpoint GET ''/api/v1/tools/42/schema''
     = Some \<lparr>rt_method = GET, rt_path = [Lit ''api'', Lit ''v1'', Lit ''tools'', Param ''tool_id'', Lit ''schema''],
         rt_handler = ''get_tool_schema'', rt_auth = True\<rparr>"
proof -
  let ?r = "\<lparr>rt_method = GET, rt_path = [Lit ''api'', Lit ''v1'', Lit ''tools'', Param ''tool_id'', Lit ''schema''],
         rt_handler = ''get_tool_schema'', rt_auth = True\<rparr>"
  have "?r \<in> set app_routes" by (simp add: app_routes_def Let_def router_defs)
  moreover have "fits (rt_path ?r) (path_segments ''/api/v1/tools/42/schema'')" by code_simp
  ultimately show ?thesis using dispatch_unambiguous [of ?r "''/api/v1/tools/42/schema''"] by simp
qed

text \<open>The documentation pages are not served in production.\<close>

lemma docs_hidden: "cf_is_production cfg \<Longrightarrow> ao_docs (create_app_options cfg) = None \<and> ao_redoc (create_app_options cfg) = None"
  by (simp add: create_app_options_def)

end
