(* ===== verification/Spec2Isabelle.thy ===== *)
theory Spec2Isabelle
  imports Event_Delivery Exec_Concurrency Device_Stream Org_Isolation Cloud_Mirror Legacy_Recovery Lifespan_Safety Sandbox_Manager Brave_Search App_Surface
begin

text \<open>
  \<^bold>\<open>Grafux-mcp.\<close>  The program is a gateway for the Model Context Protocol: clients call tools over REST, over a
  WebSocket and over older endpoints, and the service runs them in its own process or forwards them to
  remote servers, to Composio, to sandboxes or to devices.  This development models the Python code
  under \<open>src/app\<close> and the tool under \<open>src/tools\<close>.

  \<^bold>\<open>How the parts interact.\<close>  \<open>main.py\<close> starts the process: Redis or its in-process stand-in, the plugin loader, the first
  synchronisation of tool files, the health monitor and the periodic synchronisation.  A request reaches a
  handler of \<open>api/v1\<close> (after \<open>security/auth.py\<close>, within a database session), of \<open>api/ws/gateway.py\<close> or of
  \<open>api/legacy.py\<close>.  A handler of \<open>api/v1/execution.py\<close> calls the execution service, which stores a row, registers a
  cancellation event, takes a slot of a semaphore and calls the router up to \<open>MAX_RETRIES + 1\<close> times.  The
  router picks a runner by server type.  Events of a run go through the event bus, over a channel of
  Redis, to the subscribers in \<open>api/v1/streaming.py\<close> and the gateway.  The gateway and the legacy endpoints run
  local tools through the tool executor directly.  The registries, the discovery and the server manager keep the tables of
  servers and tools; the syncer downloads plugin files, and a reload makes them tools.

  \<^bold>\<open>Modelling conventions\<close> (\<open>Py_Prelude\<close>, \<open>Py_Json\<close>, \<open>Mcp_Errors\<close>).  A coroutine is a function from a world, a record,
  to an exception or value and the next world (type \<open>pm\<close>); worlds extend one another along the imports, so that a
  component sees the fields of those below it.  An exception is its class, placed in the class hierarchy the handlers test, and
  its text.  A dictionary is an association list in insertion order, a JSON value the datatype \<open>json\<close>, a
  float the literal Python prints, a time a rational number.  Characters are code points below 256.  What happens
  between two suspension points of one coroutine is not interleaved with others; where another task can matter it is explicit:
  cancellation requests between attempts, events published before a poll, background tasks in a queue, and the
  invocations that wait for a slot, which may interleave in any way.

  \<^bold>\<open>Theories and the code they model.\<close>
  \<^item> \<open>Mcp_Errors\<close>: \<open>core/exceptions.py\<close>, \<open>core/errors.py\<close>, \<open>core/runtime/diagnostics.py\<close>, the retry policy.
  \<^item> \<open>Redis_Cache\<close>: \<open>cache/keys.py\<close> and \<open>cache/redis_client.py\<close>; \<open>Event_Bus\<close>: \<open>core/streaming/event_bus.py\<close>,
    \<open>services/audit_service.py\<close>; \<open>Stream_Manager\<close>: \<open>core/streaming/stream_manager.py\<close>; \<open>Cancel_Registry\<close>:
    \<open>core/runtime/cancellation.py\<close>.
  \<^item> \<open>Plugin_Registry\<close>: \<open>core/runtime/plugin_loader.py\<close>; \<open>Tool_Executor\<close>: \<open>core/runtime/tool_executor.py\<close> and
    \<open>output_files.py\<close>; \<open>Brave_Search\<close>: \<open>tools/brave_search.py\<close>.
  \<^item> \<open>Mcp_Client\<close> and \<open>Connection_Pool\<close>: \<open>core/protocol/mcp_client.py\<close> and \<open>connection_pool.py\<close>; \<open>Integrations\<close>,
    \<open>Device_Stream\<close> and \<open>Sandbox_Manager\<close>: \<open>integrations/composio\<close>, \<open>integrations/devices\<close>, \<open>integrations/e2b\<close> with
    \<open>models/sandbox.py\<close>.
  \<^item> \<open>Exec_Router\<close>: \<open>core/runtime/router.py\<close>; \<open>Execution_Service\<close>: \<open>services/execution_service.py\<close>, with the tables of
    \<open>Db_Models\<close> (\<open>models\<close>); \<open>Execution_Outcome\<close> and \<open>Event_Delivery\<close> prove what an invocation ends with and what a
    subscriber hears of it; \<open>Exec_Concurrency\<close> interleaves invocations at the semaphore of the service.
  \<^item> \<open>App_World\<close> (with \<open>get_db\<close> of \<open>db/database.py\<close>), \<open>Server_Registry\<close> (\<open>core/registry\<close>, \<open>core/protocol/negotiation.py\<close>),
    \<open>Server_Manager\<close> (\<open>core/lifecycle\<close>), \<open>Services\<close> (\<open>services/discovery_service.py\<close>, \<open>session_service.py\<close>,
    \<open>registry_service.py\<close>), \<open>Security\<close> (\<open>security\<close>), \<open>Rest_Api\<close> (\<open>api/v1\<close>, \<open>schemas\<close>); \<open>Org_Isolation\<close> proves the isolation of
    organisations over them.
  \<^item> \<open>Cloud_Syncer\<close>: \<open>core/runtime/cloud_syncer.py\<close>; \<open>Cloud_Mirror\<close> proves what it does to the files.
  \<^item> \<open>Ws_Gateway\<close>: \<open>api/ws/gateway.py\<close>; \<open>Gateway_Safety\<close> its guarantees; \<open>Legacy_Api\<close>: \<open>api/legacy.py\<close>; \<open>Legacy_Recovery\<close>
    its guarantee.
  \<^item> \<open>App_Config\<close>: \<open>config.py\<close>; \<open>Shared_Resources\<close>: \<open>core/http_client.py\<close>, \<open>core/runtime/threadpool.py\<close>; \<open>App_Lifespan\<close>:
    \<open>main.py\<close>, \<open>worker.py\<close>; \<open>Lifespan_Safety\<close> proves start-up, shutdown and the periodic synchronisation; \<open>App_Surface\<close>: the
    table of endpoints and the options that \<open>create_app\<close> and \<open>db/database.py\<close> pass on.

  \<^bold>\<open>What the theorems show.\<close>  The properties are numbered C1, C2 and so on, in the order of their importance.
  \<^item> Execution: the row, the result and the one final event of an invocation agree and a subscriber hears them; attempts are
    bounded, slots are never exceeded or lost and given fairly, errors that cannot go away are not retried, slots and registrations are given back, routed calls
    end within their time-out.
  \<^item> Tools: a call by name runs at most one function and only one its caller may run; the name index implements
    the scan of the registry; a reload leaves consistent registries whatever the plugins do; results are well-formed envelopes.
  \<^item> State shared by requests: bounds of the pool, exactness of broadcasts, cancellation, expiry of cached values, sessions,
    persistent sandboxes, synchronised tool tables, the files after a synchronisation.
  \<^item> Isolation and authority: no sequence of management requests of an organisation changes rows of another one;
    authentication and permission checks accept exactly what they should; which endpoints demand authentication is
    decided by the path; a synchronisation stays in its directory.
  \<^item> The process: which configurations boot, that no failure outside keeps it from starting, what shutdown releases, that the
    periodic synchronisation goes on, that every WebSocket request is answered and every socket is released.
  \<^item> Some properties state what the code does where that is not what it means to do, such as a hanging tool that is started three times, or a trusted user name; each is a finding.

  The interfaces are locales: \<open>keyed_store\<close> for the dictionaries and the cache, \<open>channel_hub\<close> for publish and subscribe,
  \<open>text_codec\<close> for JSON, \<open>registry_inv\<close> for what registrations keep, \<open>op_invariant\<close> and \<open>step_invariant\<close> for
  components driven by requests or steps, \<open>shared_resource\<close> and \<open>releasable_resource\<close> for what is made on first use.  Each is
  interpreted on the definitions of the component that provides it.

  \<^bold>\<open>Bounds and fuel.\<close>  \<open>loads\<close> runs with fuel; twice the length of the text is enough for every text that \<open>dumps\<close>
  makes (\<open>loads_dumps\<close>).  The attempt loop recurses on the attempts that are left.  Loops over inputs from outside (polls,
  frames, steps of the periodic synchronisation) recurse over the list of inputs or are step relations.  The forwarding of
  device events is a partial function, and \<open>device_stream_ends\<close> shows that it ends.  Retries and closing recurse over lists.

  \<^bold>\<open>Outside the model\<close>, as parameters: the network, with the duration and outcome of every operation (\<open>net_env\<close>, the sandbox and
  web socket records); faults of the database and of Redis, as scripts; the object stores (\<open>sync_env\<close>); the Python
  text of plugins (\<open>pl_exec\<close>) and what a tool function does (\<open>te_call\<close>); the file system of tools; pydantic's
  filling of the settings; fresh identifiers, jitter and the texts of library exceptions.

  \<^bold>\<open>Not modelled.\<close>  Logging; middleware, redirects and body parsing of the web framework (of its routing only that the first endpoint
  that fits is called); the command line in \<open>main.py\<close>; the creation of the database engine and tables; the ORM's
  relationships beyond the constraints that the statements can violate; columns and tables no code reads or writes (tool permissions, tool
  execution logs, sandbox executions); \<open>dependencies.py\<close>, \<open>shared/factories.py\<close>, \<open>core/runtime/local_runner.py\<close> and
  \<open>integrations/remote/mcp_client.py\<close>, which only pass on what the modelled components do; response schemas
  where no row can violate them; the tests and the sample tools.  Operations of two coroutines that interleave inside the pool, and a tool
  thread that is still running after its time-out, are not interleaved step by step: a locked entry stays locked
  while an operation runs, and the effects of an abandoned thread are those of the whole call.
\<close>

end
